theory Spec2Isabelle
  imports Main "HOL-Library.Word" "HOL-Library.AList"
begin

chapter \<open>A model of the IRC session engine (package irc, session.go)\<close>

text \<open>
  The Go code is embedded function by function. A Go string is a list of bytes
  (\<^typ>\<open>string\<close>), a Go \<open>int\<close> is an \<^typ>\<open>int\<close>, a run-time panic
  (index or slice out of range, send on a closed channel) is the value \<open>Panic\<close>, and
  a loop that may run forever is a partial function whose value \<open>None\<close> means that
  the call does not return.
\<close>

unbundle bit_operations_syntax

section \<open>Outcomes of a call\<close>

datatype 'a outcome = Panic | Returned 'a

section \<open>Library functions used by the session\<close>

text \<open>The value of a byte.\<close>

definition byteval :: "char \<Rightarrow> nat" where
  "byteval c = of_char c"

text \<open>\<open>s[lo:hi]\<close> and \<open>s[lo:]\<close> of Go: a panic unless \<open>0 \<le> lo \<le> hi \<le> len(s)\<close>.\<close>

definition slice :: "'a list \<Rightarrow> int \<Rightarrow> int \<Rightarrow> 'a list outcome" where
  "slice s lo hi =
     (if 0 \<le> lo \<and> lo \<le> hi \<and> hi \<le> int (length s)
      then Returned (take (nat hi - nat lo) (drop (nat lo) s)) else Panic)"

definition sliceFrom :: "'a list \<Rightarrow> int \<Rightarrow> 'a list outcome" where
  "sliceFrom s lo = slice s lo (int (length s))"

text \<open>\<open>strings.HasPrefix\<close>.\<close>

definition HasPrefix :: "string \<Rightarrow> string \<Rightarrow> bool" where
  "HasPrefix s p = (length p \<le> length s \<and> take (length p) s = p)"

text \<open>
  \<open>strings.SplitN(s, sep, n)\<close> for a one-byte separator and \<open>n > 0\<close>: at most \<open>n\<close> pieces,
  the last one the unsplit remainder. \<open>strings.Split(s, sep)\<close> is the same without a bound.
\<close>

fun SplitN :: "string \<Rightarrow> char \<Rightarrow> nat \<Rightarrow> string list" where
  "SplitN s sep 0 = []"
| "SplitN s sep (Suc 0) = [s]"
| "SplitN s sep (Suc (Suc n)) =
     (if sep \<in> set s
      then takeWhile (\<lambda>c. c \<noteq> sep) s # SplitN (tl (dropWhile (\<lambda>c. c \<noteq> sep) s)) sep (Suc n)
      else [s])"

definition Split :: "string \<Rightarrow> char \<Rightarrow> string list" where
  "Split s sep = SplitN s sep (Suc (length s))"

text \<open>\<open>strings.Join\<close> with a one-byte separator.\<close>

fun JoinStrings :: "string list \<Rightarrow> char \<Rightarrow> string" where
  "JoinStrings [] sep = []"
| "JoinStrings [x] sep = x"
| "JoinStrings (x # y # ys) sep = x @ sep # JoinStrings (y # ys) sep"

text \<open>
  \<open>strings.ToUpper\<close>: a string of ASCII bytes is mapped byte by byte; any other string goes
  through the Unicode tables of the library, which are a parameter \<open>U\<close> of the model.
\<close>

definition upperByte :: "char \<Rightarrow> char" where
  "upperByte c = (if 97 \<le> byteval c \<and> byteval c \<le> 122 then char_of (byteval c - 32) else c)"

definition ToUpper :: "(string \<Rightarrow> string) \<Rightarrow> string \<Rightarrow> string" where
  "ToUpper U s = (if list_all (\<lambda>c. byteval c < 128) s then map upperByte s else U s)"

text \<open>
  \<open>strconv.ParseInt(s, 10, 64)\<close>: an optional sign, then one or more decimal digits, and
  a value that fits in 64 bits signed. The result is the value and whether there was no
  error; on a syntax error the value is 0, on a range error it is the nearest bound.
  \<open>strconv.Atoi\<close> is the same on a 64-bit platform.
\<close>

definition isDigit :: "char \<Rightarrow> bool" where
  "isDigit c = (48 \<le> byteval c \<and> byteval c \<le> 57)"

definition digitsVal :: "string \<Rightarrow> int" where
  "digitsVal ds = foldl (\<lambda>acc c. acc * 10 + (int (byteval c) - 48)) 0 ds"

definition ParseInt10 :: "string \<Rightarrow> int \<times> bool" where
  "ParseInt10 s =
     (let neg = (s \<noteq> [] \<and> hd s = CHR ''-'');
          ds = (if s \<noteq> [] \<and> (hd s = CHR ''-'' \<or> hd s = CHR ''+'') then tl s else s);
          v = (if neg then - digitsVal ds else digitsVal ds)
      in if ds = [] \<or> \<not> list_all isDigit ds then (0, False)
         else if v < - (2 ^ 63) then (- (2 ^ 63), False)
         else if 2 ^ 63 - 1 < v then (2 ^ 63 - 1, False)
         else (v, True))"

definition Atoi :: "string \<Rightarrow> int option" where
  "Atoi s = (case ParseInt10 s of (v, ok) \<Rightarrow> if ok then Some v else None)"

text \<open>\<open>strconv.Itoa\<close>.\<close>

fun natDigits :: "nat \<Rightarrow> string" where
  "natDigits n = (if n < 10 then [char_of (48 + n)] else natDigits (n div 10) @ [char_of (48 + n mod 10)])"

declare natDigits.simps [simp del]

definition Itoa :: "int \<Rightarrow> string" where
  "Itoa i = (if i < 0 then CHR ''-'' # natDigits (nat (- i)) else natDigits (nat i))"

text \<open>\<open>strings.IndexByte\<close>: the first index of the byte, or \<open>-1\<close>.\<close>

fun IndexByte :: "string \<Rightarrow> char \<Rightarrow> int" where
  "IndexByte [] c = - 1"
| "IndexByte (x # xs) c = (if x = c then 0 else (let i = IndexByte xs c in if i < 0 then - 1 else i + 1))"


section \<open>Data model\<close>

text \<open>
  A struct is a record with the fields of the source; where two structs have a field of the
  same name the fields are told apart by a letter in front (\<open>UName\<close>, \<open>CName\<close>,
  \<open>MName\<close>). A Go map that the code only looks up and updates is a map or a set; a
  map that the code iterates over is an association list, iterated in the order of the
  list (Go leaves the order open). Instants and durations are counted in nanoseconds, as
  \<open>time.Duration\<close> is.
\<close>

type_synonym time = int

definition Second :: int where
  "Second = 1000000000"

record Prefix =
  Name :: string
  User :: string
  Host :: string

record Message =
  Tags :: "(string \<times> string) list"
  Prefix :: "Prefix option"
  Command :: string
  Params :: "string list"

text \<open>A known user. Users are shared between the roster and the channels through pointers:
  the model keeps the \<open>User\<close> objects in a store indexed by address.\<close>

record User =
  UName :: Prefix
  Away :: bool
  Disconnected :: bool

type_synonym uref = nat

record Channel =
  CName :: string
  Members :: "(uref \<times> string) list"
  Topic :: string
  TopicWho :: "Prefix option"
  TopicTime :: time
  complete :: bool

datatype TypingType = TypingUnspec | TypingActive | TypingPaused | TypingDone

record 'lim typingStamp =
  Last :: time
  Type :: TypingType
  Limit :: 'lim

datatype casemapping = CasemapASCII | CasemapRFC1459

datatype Severity = SeverityNote | SeverityWarn | SeverityFail

record MessageEvent =
  MUser :: string
  MTarget :: string
  TargetIsChannel :: bool
  MCommand :: string
  Content :: string
  MTime :: time

datatype Event =
    ErrorEvent Severity string string
  | RegisteredEvent
  | SelfNickEvent string
  | UserNickEvent string string time
  | SelfJoinEvent string string bool
  | UserJoinEvent string string time
  | SelfPartEvent string
  | UserPartEvent string string time
  | UserQuitEvent string "string list" time
  | UserOnlineEvent string
  | UserOfflineEvent string
  | TopicChangeEvent string string time
  | ModeChangeEvent string string time
  | InviteEvent string string string
  | MessageEv MessageEvent
  | HistoryEv string "Event list"
  | HistoryTargetsEv "(string \<times> time) list"
  | SearchEv "MessageEvent list"
  | ReadEvent string time
  | BouncerNetworkEvent string string

record HistoryEvent =
  HTarget :: string
  HMessages :: "Event list"

datatype error =
    errMissingPrefix
  | errNotEnoughParams nat
  | errEmptyBatchID
  | errOther string

record SASLClient =
  Early :: bool
  Handshake :: string
  Respond :: "string \<Rightarrow> string option"

record ('ty, 'lim) Session =
  out :: "Message list"
  closed :: bool
  registered :: bool
  typings :: 'ty
  typingStamps :: "string \<rightharpoonup> 'lim typingStamp"
  nick :: string
  nickCf :: string
  user :: string
  realname :: string
  acct :: string
  host :: string
  netID :: string
  auth :: "SASLClient option"
  availableCaps :: "string \<rightharpoonup> string"
  enabledCaps :: "string set"
  casemap :: casemapping
  chanmodes :: "string list"
  chantypes :: string
  linelen :: int
  historyLimit :: int
  prefixSymbols :: string
  prefixModes :: string
  monitor :: bool
  users :: "string \<rightharpoonup> uref"
  channels :: "(string \<times> Channel) list"
  chBatches :: "string \<rightharpoonup> HistoryEvent"
  chReqs :: "string set"
  targetsBatchID :: string
  targetsBatch :: "(string \<times> time) list"
  searchBatchID :: string
  searchBatch :: "MessageEvent list"
  monitors :: "string set"
  pendingChannels :: "string \<rightharpoonup> time"
  store :: "uref \<Rightarrow> User"
  nextRef :: uref


text \<open>
  What \<open>session.go\<close> uses from the rest of the package and from libraries whose state or
  tables are outside the model: the casemapping functions, the parsers of \<open>tokens.go\<close>,
  the store of incoming typing notifications (\<open>typing.go\<close>), the token bucket of
  \<open>golang.org/x/time/rate\<close>, and the Unicode upper-casing of non-ASCII strings. They are
  parameters of the model: every theorem holds for all of them.
\<close>

record Cap =
  CapName :: string
  CapValue :: string
  Enable :: bool

record Member =
  PowerLevel :: string
  MName :: Prefix

record ModeChange =
  MEnable :: bool
  Mode :: char
  Param :: string

record ('ty, 'lim) externs =
  fnCasemapASCII :: "string \<Rightarrow> string"
  fnCasemapRFC1459 :: "string \<Rightarrow> string"
  ParsePrefix :: "string \<Rightarrow> Prefix option"
  ParseCaps :: "string \<Rightarrow> Cap list"
  ParseNameReply :: "string \<Rightarrow> string \<Rightarrow> Member list"
  ParseChannelMode :: "string \<Rightarrow> string list \<Rightarrow> string list \<Rightarrow> string \<Rightarrow> error + ModeChange list"
  parseTimestamp :: "string \<Rightarrow> time option"
  parseTags :: "string \<Rightarrow> (string \<times> string) list"
  IsReply :: "Message \<Rightarrow> bool"
  ReplySeverity :: "string \<Rightarrow> Severity"
  TimeOrNow :: "Message \<Rightarrow> time \<Rightarrow> time"
  UnicodeUpper :: "string \<Rightarrow> string"
  NewTypings :: 'ty
  typingsActive :: "'ty \<Rightarrow> string \<Rightarrow> string \<Rightarrow> 'ty"
  typingsDone :: "'ty \<Rightarrow> string \<Rightarrow> string \<Rightarrow> 'ty"
  typingsClose :: "'ty \<Rightarrow> 'ty"
  NewLimiter :: "nat \<Rightarrow> nat \<Rightarrow> nat \<Rightarrow> time \<Rightarrow> 'lim"
  Reserve :: "'lim \<Rightarrow> time \<Rightarrow> 'lim"
  Allow :: "'lim \<Rightarrow> time \<Rightarrow> bool \<times> 'lim"

section \<open>Session helpers\<close>

definition obind :: "'a outcome \<Rightarrow> ('a \<Rightarrow> 'b outcome) \<Rightarrow> 'b outcome" where
  "obind m f = (case m of Panic \<Rightarrow> Panic | Returned x \<Rightarrow> f x)"

definition NewMessage :: "string \<Rightarrow> string list \<Rightarrow> Message" where
  "NewMessage cmd ps = \<lparr>Tags = [], Prefix = None, Command = cmd, Params = ps\<rparr>"

definition WithTag :: "Message \<Rightarrow> string \<Rightarrow> string \<Rightarrow> Message" where
  "WithTag m k v = m\<lparr>Tags := AList.update k v (Tags m)\<rparr>"

text \<open>\<open>s.out <- m\<close>: the message is queued; sending on the channel once \<open>Close\<close> has closed
  it is a panic.\<close>

definition send :: "Message \<Rightarrow> ('ty, 'lim) Session \<Rightarrow> ('ty, 'lim) Session outcome" where
  "send m s = (if closed s then Panic else Returned (s\<lparr>out := out s @ [m]\<rparr>))"

definition HasCapability :: "('ty, 'lim) Session \<Rightarrow> string \<Rightarrow> bool" where
  "HasCapability s capability = (capability \<in> enabledCaps s)"

definition Casemap :: "('ty, 'lim) externs \<Rightarrow> ('ty, 'lim) Session \<Rightarrow> string \<Rightarrow> string" where
  "Casemap env s name =
     (case casemap s of CasemapASCII \<Rightarrow> fnCasemapASCII env name
      | CasemapRFC1459 \<Rightarrow> fnCasemapRFC1459 env name)"

definition IsMe :: "('ty, 'lim) externs \<Rightarrow> ('ty, 'lim) Session \<Rightarrow> string \<Rightarrow> bool" where
  "IsMe env s n = (nickCf s = Casemap env s n)"

definition Close :: "('ty, 'lim) externs \<Rightarrow> ('ty, 'lim) Session \<Rightarrow> ('ty, 'lim) Session" where
  "Close env s = (if closed s then s else s\<lparr>closed := True, typings := typingsClose env (typings s)\<rparr>)"

text \<open>\<open>&User{...}\<close>: a fresh address in the store.\<close>

definition newUser :: "User \<Rightarrow> ('ty, 'lim) Session \<Rightarrow> uref \<times> ('ty, 'lim) Session" where
  "newUser u s = (nextRef s, s\<lparr>store := (store s)(nextRef s := u), nextRef := Suc (nextRef s)\<rparr>)"

definition isMember :: "Channel \<Rightarrow> uref \<Rightarrow> bool" where
  "isMember c u = (map_of (Members c) u \<noteq> None)"

text \<open>The session value that \<open>NewSession\<close> builds, before it sends anything.\<close>

record SessionParams =
  Nickname :: string
  Username :: string
  RealName :: string
  NetID :: string
  Auth :: "SASLClient option"

definition zeroUser :: User where
  "zeroUser = \<lparr>UName = \<lparr>Name = [], User = [], Host = []\<rparr>, Away = False, Disconnected = False\<rparr>"

definition newSessionValue :: "('ty, 'lim) externs \<Rightarrow> SessionParams \<Rightarrow> ('ty, 'lim) Session" where
  "newSessionValue env params =
     \<lparr>out = [], closed = False, registered = False, typings = NewTypings env,
      typingStamps = Map.empty, nick = Nickname params,
      nickCf = fnCasemapASCII env (Nickname params), user = Username params,
      realname = RealName params, acct = [], host = [], netID = NetID params, auth = Auth params,
      availableCaps = Map.empty, enabledCaps = {}, casemap = CasemapRFC1459,
      chanmodes = [[], [], [], []], chantypes = ''#&'', linelen = 512, historyLimit = 100,
      prefixSymbols = ''@+'', prefixModes = ''ov'', monitor = False, users = Map.empty,
      channels = [], chBatches = Map.empty, chReqs = {}, targetsBatchID = [], targetsBatch = [],
      searchBatchID = [], searchBatch = [], monitors = {}, pendingChannels = Map.empty,
      store = (\<lambda>_. zeroUser), nextRef = 0\<rparr>"

text \<open>Whether a user holds a membership in some joined channel.\<close>

definition inChannel :: "('ty, 'lim) Session \<Rightarrow> uref \<Rightarrow> bool" where
  "inChannel s u = list_ex (\<lambda>(k, c). isMember c u) (channels s)"

text \<open>
  The map of joined channels is kept as a list of pairs in order of insertion. A Go map
  holds each key once; \<open>keysDistinct\<close> says so of the list.
\<close>

definition keysDistinct :: "('ty, 'lim) Session \<Rightarrow> bool" where
  "keysDistinct s = distinct (map fst (channels s))"

section \<open>Outgoing commands\<close>

definition Join :: "('ty, 'lim) externs \<Rightarrow> string \<Rightarrow> string \<Rightarrow> time \<Rightarrow> ('ty, 'lim) Session \<Rightarrow> ('ty, 'lim) Session outcome" where
  "Join env channel key now s =
     (let channelCf = Casemap env s channel;
          s1 = s\<lparr>pendingChannels := (pendingChannels s)(channelCf \<mapsto> now)\<rparr>
      in if key = [] then send (NewMessage ''JOIN'' [channel]) s1
         else send (NewMessage ''JOIN'' [channel, key]) s1)"

text \<open>
  \<open>Typing\<close> and \<open>TypingStop\<close>. \<open>now.Sub(t.Last).Seconds() < 3.0\<close> holds exactly when the
  duration is below 3 seconds in nanoseconds. The limiter is shared through a pointer, so a
  refused \<open>Allow\<close> still leaves its new state in the stamp.
\<close>

definition typingMessage :: "string \<Rightarrow> string \<Rightarrow> Message" where
  "typingMessage tgt st = WithTag (NewMessage ''TAGMSG'' [tgt]) ''+typing'' st"

definition Typing :: "('ty, 'lim) externs \<Rightarrow> string \<Rightarrow> time \<Rightarrow> ('ty, 'lim) Session \<Rightarrow> ('ty, 'lim) Session outcome" where
  "Typing env target now s =
     (if \<not> HasCapability s ''message-tags'' then Returned s
      else
        let targetCf = Casemap env s target;
            msg = typingMessage target ''active''
        in case typingStamps s targetCf of
             None \<Rightarrow>
               let lim = Reserve env (NewLimiter env 1 3 5 now) now
               in send msg (s\<lparr>typingStamps := (typingStamps s)(targetCf \<mapsto>
                     \<lparr>Last = now, Type = TypingActive, Limit = lim\<rparr>)\<rparr>)
           | Some t \<Rightarrow>
               if Type t = TypingActive \<and> now - Last t < 3 * Second then Returned s
               else
                 let (ok, lim) = Allow env (Limit t) now
                 in if \<not> ok
                    then Returned (s\<lparr>typingStamps := (typingStamps s)(targetCf \<mapsto> t\<lparr>Limit := lim\<rparr>)\<rparr>)
                    else send msg (s\<lparr>typingStamps := (typingStamps s)(targetCf \<mapsto>
                           \<lparr>Last = now, Type = TypingActive, Limit = lim\<rparr>)\<rparr>))"

definition TypingStop :: "('ty, 'lim) externs \<Rightarrow> string \<Rightarrow> time \<Rightarrow> ('ty, 'lim) Session \<Rightarrow> ('ty, 'lim) Session outcome" where
  "TypingStop env target now s =
     (if \<not> HasCapability s ''message-tags'' then Returned s
      else
        let targetCf = Casemap env s target;
            msg = typingMessage target ''done''
        in case typingStamps s targetCf of
             None \<Rightarrow>
               let lim = Reserve env (NewLimiter env 1 1 5 now) now
               in send msg (s\<lparr>typingStamps := (typingStamps s)(targetCf \<mapsto>
                     \<lparr>Last = now, Type = TypingDone, Limit = lim\<rparr>)\<rparr>)
           | Some t \<Rightarrow>
               if Type t = TypingDone then Returned s
               else
                 let (ok, lim) = Allow env (Limit t) now
                 in if \<not> ok
                    then Returned (s\<lparr>typingStamps := (typingStamps s)(targetCf \<mapsto> t\<lparr>Limit := lim\<rparr>)\<rparr>)
                    else send msg (s\<lparr>typingStamps := (typingStamps s)(targetCf \<mapsto>
                           \<lparr>Last = now, Type = TypingDone, Limit = lim\<rparr>)\<rparr>))"

record HistoryRequest =
  target :: string
  command :: string
  bounds :: "string list"
  limit :: int

definition requestArgs :: "HistoryRequest \<Rightarrow> string list" where
  "requestArgs r =
     [command r] @ (if target r \<noteq> [] then [target r] else []) @ bounds r @ [Itoa (limit r)]"

definition doRequest :: "('ty, 'lim) externs \<Rightarrow> HistoryRequest \<Rightarrow> ('ty, 'lim) Session \<Rightarrow> ('ty, 'lim) Session outcome" where
  "doRequest env r s =
     (if \<not> HasCapability s ''draft/chathistory'' then Returned s
      else
        let targetCf = Casemap env s (target r)
        in if targetCf \<in> chReqs s then Returned s
           else
             let s1 = s\<lparr>chReqs := insert targetCf (chReqs s)\<rparr>
             in send (NewMessage ''CHATHISTORY'' (requestArgs r)) s1)"


section \<open>ISUPPORT: updateFeatures\<close>

definition setChanmodes :: "string list \<Rightarrow> string list \<Rightarrow> string list" where
  "setChanmodes types cm = foldl (\<lambda>cm i. cm[i := types ! i]) cm [0..<min (length types) 4]"

definition featurePREFIX :: "string \<Rightarrow> ('ty, 'lim) Session \<Rightarrow> ('ty, 'lim) Session outcome" where
  "featurePREFIX v s =
     (let s1 = (if v = [] then s\<lparr>prefixModes := [], prefixSymbols := []\<rparr> else s)
      in if int (length v) mod 2 \<noteq> 0 then Returned s1
         else if list_ex (\<lambda>c. 127 < byteval c) v then Returned s1
         else
           let numPrefixes = int (length v) div 2 - 1
           in obind (slice v 1 (numPrefixes + 1)) (\<lambda>modes.
              obind (sliceFrom v (numPrefixes + 2)) (\<lambda>symbols.
                Returned (s1\<lparr>prefixModes := modes, prefixSymbols := symbols\<rparr>))))"

text \<open>The body of the loop of \<open>updateFeatures\<close>, for one token.\<close>

definition updateFeature :: "('ty, 'lim) externs \<Rightarrow> string \<Rightarrow> ('ty, 'lim) Session \<Rightarrow> ('ty, 'lim) Session outcome" where
  "updateFeature env f s =
     (if f = [] \<or> f = ''-'' \<or> f = ''='' \<or> f = ''-='' then Returned s
      else
        let add = (\<not> HasPrefix f ''-'');
            f1 = (if add then f else tl f);
            kv = SplitN f1 (CHR ''='') 2;
            key = ToUpper (UnicodeUpper env) (kv ! 0);
            v = (if 1 < length kv then kv ! 1 else [])
        in if \<not> add then Returned s
           else if key = ''BOUNCER_NETID'' then Returned (s\<lparr>netID := v\<rparr>)
           else if key = ''CASEMAPPING'' then
             Returned (s\<lparr>casemap := (if v = ''ascii'' then CasemapASCII else CasemapRFC1459)\<rparr>)
           else if key = ''CHANMODES'' then
             Returned (s\<lparr>chanmodes := setChanmodes (SplitN v (CHR '','') 5) (chanmodes s)\<rparr>)
           else if key = ''CHANTYPES'' then Returned (s\<lparr>chantypes := v\<rparr>)
           else if key = ''CHATHISTORY'' then
             (case Atoi v of Some n \<Rightarrow> Returned (s\<lparr>historyLimit := n\<rparr>) | None \<Rightarrow> Returned s)
           else if key = ''LINELEN'' then
             (case Atoi v of Some n \<Rightarrow> if n \<noteq> 0 then Returned (s\<lparr>linelen := n\<rparr>) else Returned s
              | None \<Rightarrow> Returned s)
           else if key = ''MONITOR'' then
             (case Atoi v of Some n \<Rightarrow> if 0 < n then Returned (s\<lparr>monitor := True\<rparr>) else Returned s
              | None \<Rightarrow> Returned s)
           else if key = ''PREFIX'' then featurePREFIX v s
           else Returned s)"

fun updateFeatures :: "('ty, 'lim) externs \<Rightarrow> string list \<Rightarrow> ('ty, 'lim) Session \<Rightarrow> ('ty, 'lim) Session outcome" where
  "updateFeatures env [] s = Returned s"
| "updateFeatures env (f # fs) s = obind (updateFeature env f s) (updateFeatures env fs)"

text \<open>The fields of the feature table.\<close>

definition features :: "('ty, 'lim) Session \<Rightarrow>
    string \<times> casemapping \<times> string list \<times> string \<times> int \<times> int \<times> bool \<times> string \<times> string" where
  "features s = (netID s, casemap s, chanmodes s, chantypes s, historyLimit s, linelen s,
     monitor s, prefixModes s, prefixSymbols s)"


section \<open>Incoming messages\<close>

text \<open>
  Modelled from the spec: the constants for the numeric replies, which \<open>session.go\<close> names
  and another file of the package declares, are not part of the sources at hand. They have
  the values of the IRC numerics they are named after; the \<open>switch\<close> of the handler needs
  them distinct from each other and from the command names.
\<close>

definition rplWelcome :: string where "rplWelcome = ''001''"
definition rplIsupport :: string where "rplIsupport = ''005''"
definition rplEndofwho :: string where "rplEndofwho = ''315''"
definition rplNotopic :: string where "rplNotopic = ''331''"
definition rplTopic :: string where "rplTopic = ''332''"
definition rplTopicwhotime :: string where "rplTopicwhotime = ''333''"
definition rplInviting :: string where "rplInviting = ''341''"
definition rplWhoreply :: string where "rplWhoreply = ''352''"
definition rplNamreply :: string where "rplNamreply = ''353''"
definition rplEndofnames :: string where "rplEndofnames = ''366''"
definition errUnknowncommand :: string where "errUnknowncommand = ''421''"
definition errNicknameinuse :: string where "errNicknameinuse = ''433''"
definition rplMononline :: string where "rplMononline = ''730''"
definition rplMonoffline :: string where "rplMonoffline = ''731''"
definition errMonlistisfull :: string where "errMonlistisfull = ''734''"
definition rplLoggedin :: string where "rplLoggedin = ''900''"
definition errNicklocked :: string where "errNicklocked = ''902''"
definition rplSaslsuccess :: string where "rplSaslsuccess = ''903''"
definition errSaslfail :: string where "errSaslfail = ''904''"
definition errSasltoolong :: string where "errSasltoolong = ''905''"
definition errSaslaborted :: string where "errSaslaborted = ''906''"
definition errSaslalready :: string where "errSaslalready = ''907''"
definition rplSaslmechs :: string where "rplSaslmechs = ''908''"

lemmas numerics = rplWelcome_def rplIsupport_def rplEndofwho_def rplNotopic_def rplTopic_def
  rplTopicwhotime_def rplInviting_def rplWhoreply_def rplNamreply_def rplEndofnames_def
  errUnknowncommand_def errNicknameinuse_def rplMononline_def rplMonoffline_def
  errMonlistisfull_def rplLoggedin_def errNicklocked_def rplSaslsuccess_def errSaslfail_def
  errSasltoolong_def errSaslaborted_def errSaslalready_def rplSaslmechs_def

text \<open>The capabilities the library supports.\<close>

definition SupportedCapabilities :: "string set" where
  "SupportedCapabilities = {''away-notify'', ''batch'', ''cap-notify'', ''echo-message'',
     ''invite-notify'', ''message-tags'', ''multi-prefix'', ''server-time'', ''sasl'', ''setname'',
     ''draft/chathistory'', ''draft/event-playback'', ''soju.im/bouncer-networks'', ''soju.im/read'',
     ''soju.im/search''}"

text \<open>
  Modelled from the spec: \<open>Message.ParseParams\<close> is in \<open>tokens.go\<close>, which is not part
  of the sources at hand. It fails when the message has fewer positional parameters than the
  handler requires; otherwise the handler reads parameter \<open>i\<close> as \<open>Params msg ! i\<close>.
\<close>

definition ParseParams :: "Message \<Rightarrow> nat \<Rightarrow> error option" where
  "ParseParams msg n = (if length (Params msg) < n then Some (errNotEnoughParams n) else None)"

text \<open>What a handler returns: the session as it leaves it, and an error or an event
  (or none).\<close>

type_synonym ('ty, 'lim) hres = "(('ty, 'lim) Session \<times> (error + Event option)) outcome"

definition ret :: "('ty, 'lim) Session \<Rightarrow> Event option \<Rightarrow> ('ty, 'lim) hres" where
  "ret s ev = Returned (s, Inr ev)"

definition fail :: "('ty, 'lim) Session \<Rightarrow> error \<Rightarrow> ('ty, 'lim) hres" where
  "fail s e = Returned (s, Inl e)"

definition endRegistration :: "('ty, 'lim) Session \<Rightarrow> ('ty, 'lim) Session outcome" where
  "endRegistration s =
     (if registered s then Returned s
      else if netID s \<noteq> [] then
        obind (send (NewMessage ''BOUNCER'' [''BIND'', netID s]) s) (send (NewMessage ''CAP'' [''END'']))
      else
        obind (send (NewMessage ''CAP'' [''END'']) s) (send (NewMessage ''BOUNCER'' [''LISTNETWORKS''])))"

text \<open>The key of a user in the roster: its casemapped nickname.\<close>

definition userKey :: "('ty, 'lim) externs \<Rightarrow> ('ty, 'lim) Session \<Rightarrow> uref \<Rightarrow> string" where
  "userKey env s u = Casemap env s (Name (UName (store s u)))"

text \<open>
  The roster is meant to hold every user under the casemapped form of its current name.
  \<open>rosterKeyed\<close> says so, and that every address in the roster has been allocated.
\<close>

definition rosterKeyed :: "('ty, 'lim) externs \<Rightarrow> ('ty, 'lim) Session \<Rightarrow> bool" where
  "rosterKeyed env s = (\<forall>k u. users s k = Some u \<longrightarrow> userKey env s u = k \<and> u < nextRef s)"

text \<open>A user that the cleanup has nothing to do for: it is still in a channel, or it is
  not in the roster under its key, or it is monitored.\<close>

definition settled :: "('ty, 'lim) externs \<Rightarrow> ('ty, 'lim) Session \<Rightarrow> uref \<Rightarrow> bool" where
  "settled env s u \<longleftrightarrow>
     inChannel s u \<or> users s (userKey env s u) = None \<or> userKey env s u \<in> monitors s"

definition cleanUser :: "('ty, 'lim) externs \<Rightarrow> ('ty, 'lim) Session \<Rightarrow> uref \<Rightarrow> ('ty, 'lim) Session" where
  "cleanUser env s parted =
     (let nameCf = userKey env s parted
      in if nameCf \<in> monitors s then s
         else if inChannel s parted then s
         else s\<lparr>users := (users s)(nameCf := None)\<rparr>)"

definition setMember :: "string \<Rightarrow> uref \<Rightarrow> string \<Rightarrow> ('ty, 'lim) Session \<Rightarrow> ('ty, 'lim) Session" where
  "setMember k u pl s =
     (case map_of (channels s) k of None \<Rightarrow> s
      | Some c \<Rightarrow> s\<lparr>channels := AList.update k (c\<lparr>Members := AList.update u pl (Members c)\<rparr>) (channels s)\<rparr>)"

definition delMember :: "string \<Rightarrow> uref \<Rightarrow> ('ty, 'lim) Session \<Rightarrow> ('ty, 'lim) Session" where
  "delMember k u s =
     (case map_of (channels s) k of None \<Rightarrow> s
      | Some c \<Rightarrow> s\<lparr>channels := AList.update k (c\<lparr>Members := AList.delete u (Members c)\<rparr>) (channels s)\<rparr>)"

text \<open>\<open>if _, ok := s.users[nickCf]; !ok { s.users[nickCf] = &User{Name: p} }\<close>\<close>

definition ensureUser :: "string \<Rightarrow> Prefix \<Rightarrow> ('ty, 'lim) Session \<Rightarrow> ('ty, 'lim) Session" where
  "ensureUser k p s =
     (case users s k of Some u \<Rightarrow> s
      | None \<Rightarrow>
          (case newUser \<lparr>UName = p, Away = False, Disconnected = False\<rparr> s of
             (r, s1) \<Rightarrow> s1\<lparr>users := (users s1)(k \<mapsto> r)\<rparr>))"

definition newMessageEvent :: "('ty, 'lim) externs \<Rightarrow> Message \<Rightarrow> time \<Rightarrow> ('ty, 'lim) Session \<Rightarrow> error + MessageEvent" where
  "newMessageEvent env msg now s =
     (case Prefix msg of None \<Rightarrow> Inl errMissingPrefix
      | Some p \<Rightarrow>
          (case ParseParams msg 2 of Some e \<Rightarrow> Inl e
           | None \<Rightarrow>
               let tgt = Params msg ! 0; content = Params msg ! 1;
                   ev = \<lparr>MUser = Name p, MTarget = tgt, TargetIsChannel = False,
                         MCommand = Command msg, Content = content, MTime = TimeOrNow env msg now\<rparr>
               in (case map_of (channels s) (Casemap env s tgt) of
                     Some c \<Rightarrow> Inr (ev\<lparr>MTarget := CName c, TargetIsChannel := True\<rparr>)
                   | None \<Rightarrow> Inr ev)))"

definition retMessage :: "('ty, 'lim) Session \<Rightarrow> error + MessageEvent \<Rightarrow> ('ty, 'lim) hres" where
  "retMessage s r = (case r of Inl e \<Rightarrow> fail s e | Inr ev \<Rightarrow> ret s (Some (MessageEv ev)))"

subsection \<open>Registration and capabilities\<close>

definition caseAUTHENTICATE :: "Message \<Rightarrow> ('ty, 'lim) Session \<Rightarrow> ('ty, 'lim) hres" where
  "caseAUTHENTICATE msg s =
     (case auth s of None \<Rightarrow> ret s None
      | Some a \<Rightarrow>
          (case ParseParams msg 1 of Some e \<Rightarrow> fail s e
           | None \<Rightarrow>
               (case Respond a (Params msg ! 0) of
                  None \<Rightarrow> obind (send (NewMessage ''AUTHENTICATE'' [''*'']) s) (\<lambda>s1. ret s1 None)
                | Some res \<Rightarrow> obind (send (NewMessage ''AUTHENTICATE'' [res]) s) (\<lambda>s1. ret s1 None))))"

definition caseLoggedin :: "('ty, 'lim) externs \<Rightarrow> Message \<Rightarrow> ('ty, 'lim) Session \<Rightarrow> ('ty, 'lim) hres" where
  "caseLoggedin env msg s =
     (case ParseParams msg 3 of Some e \<Rightarrow> fail s e
      | None \<Rightarrow>
          let s1 = s\<lparr>acct := Params msg ! 2\<rparr>
          in (case ParsePrefix env (Params msg ! 1) of None \<Rightarrow> Panic
              | Some p \<Rightarrow> ret (s1\<lparr>user := User p, host := Host p\<rparr>) None))"

definition caseSaslFailure :: "Message \<Rightarrow> ('ty, 'lim) Session \<Rightarrow> ('ty, 'lim) hres" where
  "caseSaslFailure msg s =
     obind (if auth s \<noteq> None then endRegistration s else Returned s) (\<lambda>s1.
     obind (sliceFrom (Params msg) 1) (\<lambda>rest.
       ret s1 (Some (ErrorEvent SeverityFail (Command msg)
         (''Registration failed: '' @ JoinStrings rest (CHR '' ''))))))"

definition caseWelcome :: "('ty, 'lim) externs \<Rightarrow> Message \<Rightarrow> ('ty, 'lim) Session \<Rightarrow> ('ty, 'lim) hres" where
  "caseWelcome env msg s =
     (case ParseParams msg 1 of Some e \<Rightarrow> fail s e
      | None \<Rightarrow>
          let s1 = s\<lparr>nick := Params msg ! 0\<rparr>;
              s2 = s1\<lparr>nickCf := Casemap env s1 (nick s1), registered := True\<rparr>
          in (case newUser \<lparr>UName = \<lparr>Name = nick s2, User = user s2, Host = host s2\<rparr>,
                             Away = False, Disconnected = False\<rparr> s2 of
                (r, s3) \<Rightarrow>
                  let s4 = s3\<lparr>users := (users s3)(nickCf s3 \<mapsto> r)\<rparr>
                  in if host s4 = [] then obind (send (NewMessage ''WHO'' [nick s4]) s4) (\<lambda>s5. ret s5 None)
                     else ret s4 None))"

definition caseIsupport :: "('ty, 'lim) externs \<Rightarrow> Message \<Rightarrow> ('ty, 'lim) Session \<Rightarrow> ('ty, 'lim) hres" where
  "caseIsupport env msg s =
     (if length (Params msg) < 3 then fail s (errNotEnoughParams 3)
      else obind (updateFeatures env (butlast (tl (Params msg))) s) (\<lambda>s1. ret s1 (Some RegisteredEvent)))"

definition caseWhoreply :: "('ty, 'lim) externs \<Rightarrow> Message \<Rightarrow> ('ty, 'lim) Session \<Rightarrow> ('ty, 'lim) hres" where
  "caseWhoreply env msg s =
     (case ParseParams msg 8 of Some e \<Rightarrow> fail s e
      | None \<Rightarrow>
          let username = Params msg ! 2; hst = Params msg ! 3; nck = Params msg ! 5;
              flags = Params msg ! 6; nickCf' = Casemap env s nck
          in if flags = [] then Panic
             else
               let away = (hd flags = CHR ''G'');
                   s1 = (if nickCf s = nickCf' then s\<lparr>user := username, host := hst\<rparr> else s)
               in (case users s1 nickCf' of
                     Some u \<Rightarrow> ret (s1\<lparr>store := (store s1)(u := (store s1 u)\<lparr>Away := away\<rparr>)\<rparr>) None
                   | None \<Rightarrow> ret s1 None))"

fun sendNames :: "string list \<Rightarrow> ('ty, 'lim) Session \<Rightarrow> ('ty, 'lim) Session outcome" where
  "sendNames [] s = Returned s"
| "sendNames (c # cs) s = obind (send (NewMessage ''NAMES'' [c]) s) (sendNames cs)"

fun capACK :: "Cap list \<Rightarrow> ('ty, 'lim) Session \<Rightarrow> ('ty, 'lim) Session outcome" where
  "capACK [] s = Returned s"
| "capACK (c # cs) s =
     (let s1 = (if Enable c then s\<lparr>enabledCaps := insert (CapName c) (enabledCaps s)\<rparr>
                else s\<lparr>enabledCaps := enabledCaps s - {CapName c}\<rparr>)
      in obind
           (case auth s1 of
              Some a \<Rightarrow>
                if CapName c = ''sasl'' then send (NewMessage ''AUTHENTICATE'' [Handshake a]) s1
                else if channels s1 \<noteq> [] \<and> CapName c = ''multi-prefix''
                then sendNames (map fst (channels s1)) s1 else Returned s1
            | None \<Rightarrow>
                if channels s1 \<noteq> [] \<and> CapName c = ''multi-prefix''
                then sendNames (map fst (channels s1)) s1 else Returned s1)
           (capACK cs))"

fun capNEW :: "Cap list \<Rightarrow> ('ty, 'lim) Session \<Rightarrow> ('ty, 'lim) Session outcome" where
  "capNEW [] s = Returned s"
| "capNEW (c # cs) s =
     (let s1 = s\<lparr>availableCaps := (availableCaps s)(CapName c \<mapsto> CapValue c)\<rparr>
      in if CapName c \<notin> SupportedCapabilities then capNEW cs s1
         else if CapName c \<in> enabledCaps s1 then capNEW cs s1
         else obind (send (NewMessage ''CAP'' [''REQ'', CapName c]) s1) (capNEW cs))"

fun capDEL :: "Cap list \<Rightarrow> ('ty, 'lim) Session \<Rightarrow> ('ty, 'lim) Session" where
  "capDEL [] s = s"
| "capDEL (c # cs) s =
     capDEL cs (s\<lparr>availableCaps := (availableCaps s)(CapName c := None),
                   enabledCaps := enabledCaps s - {CapName c}\<rparr>)"

definition caseCAP :: "('ty, 'lim) externs \<Rightarrow> Message \<Rightarrow> ('ty, 'lim) Session \<Rightarrow> ('ty, 'lim) hres" where
  "caseCAP env msg s =
     (case ParseParams msg 3 of Some e \<Rightarrow> fail s e
      | None \<Rightarrow>
          let subcommand = Params msg ! 1; caps = Params msg ! 2
          in if subcommand = ''ACK'' then obind (capACK (ParseCaps env caps) s) (\<lambda>s1. ret s1 None)
             else if subcommand = ''NAK'' then ret s None
             else if subcommand = ''NEW'' then obind (capNEW (ParseCaps env caps) s) (\<lambda>s1. ret s1 None)
             else if subcommand = ''DEL'' then ret (capDEL (ParseCaps env caps) s) None
             else ret s None)"


subsection \<open>Roster and channels\<close>

definition emptyChannel :: "string \<Rightarrow> Channel" where
  "emptyChannel n = \<lparr>CName = n, Members = [], Topic = [], TopicWho = None, TopicTime = 0, complete = False\<rparr>"

definition caseJOIN :: "('ty, 'lim) externs \<Rightarrow> Message \<Rightarrow> bool \<Rightarrow> time \<Rightarrow> ('ty, 'lim) Session \<Rightarrow> ('ty, 'lim) hres" where
  "caseJOIN env msg playback now s =
     (case Prefix msg of None \<Rightarrow> fail s errMissingPrefix
      | Some p \<Rightarrow>
          (case ParseParams msg 1 of Some e \<Rightarrow> fail s e
           | None \<Rightarrow>
               let channel = Params msg ! 0
               in if playback then ret s (Some (UserJoinEvent (Name p) channel (TimeOrNow env msg now)))
                  else
                    let nickCf' = Casemap env s (Name p); channelCf = Casemap env s channel
                    in if IsMe env s nickCf' then
                         let s1 = s\<lparr>channels := AList.update channelCf (emptyChannel (Params msg ! 0)) (channels s)\<rparr>
                         in if ''away-notify'' \<in> enabledCaps s1
                            then obind (send (NewMessage ''WHO'' [channel]) s1) (\<lambda>s2. ret s2 None)
                            else ret s1 None
                       else
                         (case map_of (channels s) channelCf of
                            Some c \<Rightarrow>
                              let s1 = ensureUser nickCf' p s;
                                  s2 = setMember channelCf (the (users s1 nickCf')) [] s1
                              in ret s2 (Some (UserJoinEvent (Name p) (CName c) (TimeOrNow env msg now)))
                          | None \<Rightarrow> ret s None)))"

text \<open>The part of PART and KICK that both share, once the nickname and the channel are known.\<close>

definition partChannel :: "('ty, 'lim) externs \<Rightarrow> string \<Rightarrow> string \<Rightarrow> (uref \<Rightarrow> string) \<Rightarrow> time \<Rightarrow>
    ('ty, 'lim) Session \<Rightarrow> ('ty, 'lim) hres" where
  "partChannel env nickCf' channelCf who tm s =
     (if IsMe env s nickCf' then
        (case map_of (channels s) channelCf of
           Some c \<Rightarrow>
             let s1 = s\<lparr>channels := AList.delete channelCf (channels s)\<rparr>;
                 s2 = foldl (cleanUser env) s1 (map fst (Members c))
             in ret s2 (Some (SelfPartEvent (CName c)))
         | None \<Rightarrow> ret s None)
      else
        (case map_of (channels s) channelCf of
           Some c \<Rightarrow>
             (case users s nickCf' of
                Some u \<Rightarrow>
                  let s1 = delMember channelCf u s;
                      s2 = cleanUser env s1 u;
                      s3 = s2\<lparr>typings := typingsDone env (typings s2) channelCf nickCf'\<rparr>
                  in ret s3 (Some (UserPartEvent (who u) (CName c) tm))
              | None \<Rightarrow> ret s None)
         | None \<Rightarrow> ret s None))"

definition casePART :: "('ty, 'lim) externs \<Rightarrow> Message \<Rightarrow> bool \<Rightarrow> time \<Rightarrow> ('ty, 'lim) Session \<Rightarrow> ('ty, 'lim) hres" where
  "casePART env msg playback now s =
     (case Prefix msg of None \<Rightarrow> fail s errMissingPrefix
      | Some p \<Rightarrow>
          (case ParseParams msg 1 of Some e \<Rightarrow> fail s e
           | None \<Rightarrow>
               let channel = Params msg ! 0
               in if playback then ret s (Some (UserPartEvent (Name p) channel (TimeOrNow env msg now)))
                  else partChannel env (Casemap env s (Name p)) (Casemap env s channel)
                         (\<lambda>u. Name (UName (store s u))) (TimeOrNow env msg now) s))"

definition caseKICK :: "('ty, 'lim) externs \<Rightarrow> Message \<Rightarrow> bool \<Rightarrow> time \<Rightarrow> ('ty, 'lim) Session \<Rightarrow> ('ty, 'lim) hres" where
  "caseKICK env msg playback now s =
     (case ParseParams msg 2 of Some e \<Rightarrow> fail s e
      | None \<Rightarrow>
          let channel = Params msg ! 0; nck = Params msg ! 1
          in if playback then ret s (Some (UserPartEvent nck channel (TimeOrNow env msg now)))
             else partChannel env (Casemap env s nck) (Casemap env s channel)
                    (\<lambda>u. nck) (TimeOrNow env msg now) s)"

fun quitLoop :: "('ty, 'lim) externs \<Rightarrow> uref \<Rightarrow> string \<Rightarrow> string list \<Rightarrow>
    ('ty, 'lim) Session \<times> string list \<Rightarrow> ('ty, 'lim) Session \<times> string list" where
  "quitLoop env u nickCf' [] (s, chans) = (s, chans)"
| "quitLoop env u nickCf' (k # ks) (s, chans) =
     (case map_of (channels s) k of
        None \<Rightarrow> quitLoop env u nickCf' ks (s, chans)
      | Some c \<Rightarrow>
          if isMember c u then
            let s1 = delMember k u s;
                s2 = cleanUser env s1 u;
                s3 = s2\<lparr>typings := typingsDone env (typings s2) k nickCf'\<rparr>
            in quitLoop env u nickCf' ks (s3, chans @ [CName c])
          else quitLoop env u nickCf' ks (s, chans))"

definition caseQUIT :: "('ty, 'lim) externs \<Rightarrow> Message \<Rightarrow> bool \<Rightarrow> time \<Rightarrow> ('ty, 'lim) Session \<Rightarrow> ('ty, 'lim) hres" where
  "caseQUIT env msg playback now s =
     (case Prefix msg of None \<Rightarrow> fail s errMissingPrefix
      | Some p \<Rightarrow>
          if playback then ret s (Some (UserQuitEvent (Name p) [] (TimeOrNow env msg now)))
          else
            let nickCf' = Casemap env s (Name p)
            in (case users s nickCf' of
                  Some u \<Rightarrow>
                    let s1 = s\<lparr>store := (store s)(u := (store s u)\<lparr>Disconnected := True\<rparr>)\<rparr>
                    in (case quitLoop env u nickCf' (map fst (channels s1)) (s1, []) of
                          (s2, chans) \<Rightarrow>
                            ret s2 (Some (UserQuitEvent (Name (UName (store s2 u))) chans (TimeOrNow env msg now))))
                | None \<Rightarrow> ret s None))"

text \<open>
  The loops of the MONITOR numerics. A \<open>return\<close> inside the loop ends the handling of the
  message at the first target whose flag changes.
\<close>

fun monLoop :: "('ty, 'lim) externs \<Rightarrow> bool \<Rightarrow> string list \<Rightarrow> ('ty, 'lim) Session \<Rightarrow>
    ('ty, 'lim) Session \<times> Event option" where
  "monLoop env offline [] s = (s, None)"
| "monLoop env offline (tgt # ts) s =
     (case ParsePrefix env tgt of
        None \<Rightarrow> monLoop env offline ts s
      | Some p \<Rightarrow>
          let nickCf' = Casemap env s (Name p)
          in if nickCf' \<in> monitors s then
               let s1 = ensureUser nickCf' p s; u = the (users s1 nickCf')
               in if Disconnected (store s1 u) \<noteq> offline then
                    (s1\<lparr>store := (store s1)(u := (store s1 u)\<lparr>Disconnected := offline\<rparr>)\<rparr>,
                     Some ((if offline then UserOfflineEvent else UserOnlineEvent) (Name (UName (store s1 u)))))
                  else monLoop env offline ts s1
             else monLoop env offline ts s)"

definition caseMonitor :: "('ty, 'lim) externs \<Rightarrow> bool \<Rightarrow> Message \<Rightarrow> ('ty, 'lim) Session \<Rightarrow> ('ty, 'lim) hres" where
  "caseMonitor env offline msg s =
     (if length (Params msg) < 2 then Panic
      else (case monLoop env offline (Split (Params msg ! 1) (CHR '','')) s of (s1, ev) \<Rightarrow> ret s1 ev))"

fun namesLoop :: "('ty, 'lim) externs \<Rightarrow> string \<Rightarrow> Member list \<Rightarrow> ('ty, 'lim) Session \<Rightarrow> ('ty, 'lim) Session" where
  "namesLoop env channelCf [] s = s"
| "namesLoop env channelCf (n # ns) s =
     (let nickCf' = Casemap env s (Name (MName n));
          s1 = ensureUser nickCf' (MName n) s
      in namesLoop env channelCf ns (setMember channelCf (the (users s1 nickCf')) (PowerLevel n) s1))"

definition caseNamreply :: "('ty, 'lim) externs \<Rightarrow> Message \<Rightarrow> ('ty, 'lim) Session \<Rightarrow> ('ty, 'lim) hres" where
  "caseNamreply env msg s =
     (case ParseParams msg 4 of Some e \<Rightarrow> fail s e
      | None \<Rightarrow>
          let channelCf = Casemap env s (Params msg ! 2)
          in (case map_of (channels s) channelCf of
                Some c \<Rightarrow> ret (namesLoop env channelCf (ParseNameReply env (Params msg ! 3) (prefixSymbols s)) s) None
              | None \<Rightarrow> ret s None))"

definition caseEndofnames :: "('ty, 'lim) externs \<Rightarrow> Message \<Rightarrow> time \<Rightarrow> ('ty, 'lim) Session \<Rightarrow> ('ty, 'lim) hres" where
  "caseEndofnames env msg now s =
     (case ParseParams msg 2 of Some e \<Rightarrow> fail s e
      | None \<Rightarrow>
          let channelCf = Casemap env s (Params msg ! 1)
          in (case map_of (channels s) channelCf of
                Some c \<Rightarrow>
                  if \<not> complete c then
                    let c1 = c\<lparr>complete := True\<rparr>;
                        s1 = s\<lparr>channels := AList.update channelCf c1 (channels s)\<rparr>;
                        requested = (case pendingChannels s1 channelCf of
                                       Some stamp \<Rightarrow> now - stamp < 5 * Second | None \<Rightarrow> False)
                    in ret s1 (Some (SelfJoinEvent (CName c1) (Topic c1) requested))
                  else ret s None
              | None \<Rightarrow> ret s None))"

definition caseTopic :: "('ty, 'lim) externs \<Rightarrow> Message \<Rightarrow> ('ty, 'lim) Session \<Rightarrow> ('ty, 'lim) hres" where
  "caseTopic env msg s =
     (case ParseParams msg 3 of Some e \<Rightarrow> fail s e
      | None \<Rightarrow>
          let channelCf = Casemap env s (Params msg ! 1)
          in (case map_of (channels s) channelCf of
                Some c \<Rightarrow> ret (s\<lparr>channels := AList.update channelCf (c\<lparr>Topic := Params msg ! 2\<rparr>) (channels s)\<rparr>) None
              | None \<Rightarrow> ret s None))"

definition caseTopicwhotime :: "('ty, 'lim) externs \<Rightarrow> Message \<Rightarrow> ('ty, 'lim) Session \<Rightarrow> ('ty, 'lim) hres" where
  "caseTopicwhotime env msg s =
     (case ParseParams msg 4 of Some e \<Rightarrow> fail s e
      | None \<Rightarrow>
          let channelCf = Casemap env s (Params msg ! 1);
              t = fst (ParseInt10 (Params msg ! 3))
          in (case map_of (channels s) channelCf of
                Some c \<Rightarrow>
                  ret (s\<lparr>channels := AList.update channelCf
                         (c\<lparr>TopicWho := ParsePrefix env (Params msg ! 2), TopicTime := t * Second\<rparr>) (channels s)\<rparr>) None
              | None \<Rightarrow> ret s None))"

definition caseNotopic :: "('ty, 'lim) externs \<Rightarrow> Message \<Rightarrow> ('ty, 'lim) Session \<Rightarrow> ('ty, 'lim) hres" where
  "caseNotopic env msg s =
     (case ParseParams msg 2 of Some e \<Rightarrow> fail s e
      | None \<Rightarrow>
          let channelCf = Casemap env s (Params msg ! 1)
          in (case map_of (channels s) channelCf of
                Some c \<Rightarrow> ret (s\<lparr>channels := AList.update channelCf (c\<lparr>Topic := []\<rparr>) (channels s)\<rparr>) None
              | None \<Rightarrow> ret s None))"

definition caseTOPIC :: "('ty, 'lim) externs \<Rightarrow> Message \<Rightarrow> bool \<Rightarrow> time \<Rightarrow> ('ty, 'lim) Session \<Rightarrow> ('ty, 'lim) hres" where
  "caseTOPIC env msg playback now s =
     (case Prefix msg of None \<Rightarrow> fail s errMissingPrefix
      | Some p \<Rightarrow>
          (case ParseParams msg 2 of Some e \<Rightarrow> fail s e
           | None \<Rightarrow>
               let channel = Params msg ! 0; topic = Params msg ! 1
               in if playback then ret s (Some (TopicChangeEvent channel topic (TimeOrNow env msg now)))
                  else
                    let channelCf = Casemap env s channel
                    in (case map_of (channels s) channelCf of
                          Some c \<Rightarrow>
                            let c1 = c\<lparr>Topic := topic, TopicWho := Some p, TopicTime := TimeOrNow env msg now\<rparr>
                            in ret (s\<lparr>channels := AList.update channelCf c1 (channels s)\<rparr>)
                                 (Some (TopicChangeEvent (CName c1) (Topic c1) (TimeOrNow env msg now)))
                        | None \<Rightarrow> ret s None)))"

text \<open>
  The loop of MODE over the parsed changes. \<open>sort.Slice\<close> orders the membership by the rank
  of each symbol in \<open>prefixSymbols\<close>; on the short slices it sees it is an insertion sort.
\<close>

fun modeLoop :: "('ty, 'lim) externs \<Rightarrow> ('ty, 'lim) Session \<Rightarrow> ModeChange list \<Rightarrow> Channel \<Rightarrow> Channel outcome" where
  "modeLoop env s [] c = Returned c"
| "modeLoop env s (ch # chs) c =
     (let i = IndexByte (prefixModes s) (Mode ch)
      in if i < 0 then modeLoop env s chs c
         else
           (case users s (Casemap env s (Param ch)) of
              None \<Rightarrow> modeLoop env s chs c
            | Some usr \<Rightarrow>
                (case map_of (Members c) usr of
                   None \<Rightarrow> modeLoop env s chs c
                 | Some membership \<Rightarrow>
                     if int (length (prefixSymbols s)) \<le> i then Panic
                     else
                       let sym = prefixSymbols s ! nat i;
                           newMembership =
                             (if MEnable ch
                              then sort_key (\<lambda>b. IndexByte (prefixSymbols s) b) (membership @ [sym])
                              else
                                (let j = IndexByte membership sym
                                 in if 0 \<le> j then take (nat j) membership @ drop (nat j + 1) membership
                                    else []))
                       in modeLoop env s chs (c\<lparr>Members := AList.update usr newMembership (Members c)\<rparr>))))"

definition caseMODE :: "('ty, 'lim) externs \<Rightarrow> Message \<Rightarrow> bool \<Rightarrow> time \<Rightarrow> ('ty, 'lim) Session \<Rightarrow> ('ty, 'lim) hres" where
  "caseMODE env msg playback now s =
     (case ParseParams msg 2 of Some e \<Rightarrow> fail s e
      | None \<Rightarrow>
          let channel = Params msg ! 0;
              mode = JoinStrings (tl (Params msg)) (CHR '' '')
          in if playback then ret s (Some (ModeChangeEvent channel mode (TimeOrNow env msg now)))
             else
               let channelCf = Casemap env s channel
               in (case map_of (channels s) channelCf of
                     Some c \<Rightarrow>
                       (case ParseChannelMode env (Params msg ! 1) (drop 2 (Params msg)) (chanmodes s) (prefixModes s) of
                          Inl e \<Rightarrow> fail s e
                        | Inr modeChanges \<Rightarrow>
                            obind (modeLoop env s modeChanges c) (\<lambda>c1.
                              ret (s\<lparr>channels := AList.update channelCf c1 (channels s)\<rparr>)
                                (Some (ModeChangeEvent (CName c1) mode (TimeOrNow env msg now)))))
                   | None \<Rightarrow> ret s None))"

definition caseINVITE :: "Message \<Rightarrow> ('ty, 'lim) Session \<Rightarrow> ('ty, 'lim) hres" where
  "caseINVITE msg s =
     (case Prefix msg of None \<Rightarrow> fail s errMissingPrefix
      | Some p \<Rightarrow>
          (case ParseParams msg 2 of Some e \<Rightarrow> fail s e
           | None \<Rightarrow> ret s (Some (InviteEvent (Name p) (Params msg ! 0) (Params msg ! 1)))))"

definition caseInviting :: "Message \<Rightarrow> ('ty, 'lim) Session \<Rightarrow> ('ty, 'lim) hres" where
  "caseInviting msg s =
     (case ParseParams msg 3 of Some e \<Rightarrow> fail s e
      | None \<Rightarrow> ret s (Some (InviteEvent (nick s) (Params msg ! 1) (Params msg ! 2))))"

definition caseAWAY :: "('ty, 'lim) externs \<Rightarrow> Message \<Rightarrow> ('ty, 'lim) Session \<Rightarrow> ('ty, 'lim) hres" where
  "caseAWAY env msg s =
     (case Prefix msg of None \<Rightarrow> fail s errMissingPrefix
      | Some p \<Rightarrow>
          (case users s (Casemap env s (Name p)) of
             Some u \<Rightarrow> ret (s\<lparr>store := (store s)(u := (store s u)\<lparr>Away := (length (Params msg) = 1)\<rparr>)\<rparr>) None
           | None \<Rightarrow> ret s None))"


subsection \<open>Messages, typing notifications, batches\<close>

definition casePRIVMSG :: "('ty, 'lim) externs \<Rightarrow> Message \<Rightarrow> bool \<Rightarrow> time \<Rightarrow> ('ty, 'lim) Session \<Rightarrow> ('ty, 'lim) hres" where
  "casePRIVMSG env msg playback now s =
     (case Prefix msg of None \<Rightarrow> fail s errMissingPrefix
      | Some p \<Rightarrow>
          (case ParseParams msg 1 of Some e \<Rightarrow> fail s e
           | None \<Rightarrow>
               if playback then retMessage s (newMessageEvent env msg now s)
               else
                 let targetCf = Casemap env s (Params msg ! 0);
                     nickCf' = Casemap env s (Name p);
                     s1 = s\<lparr>typings := typingsDone env (typings s) targetCf nickCf'\<rparr>
                 in retMessage s1 (newMessageEvent env msg now s1)))"

definition caseTAGMSG :: "('ty, 'lim) externs \<Rightarrow> Message \<Rightarrow> bool \<Rightarrow> ('ty, 'lim) Session \<Rightarrow> ('ty, 'lim) hres" where
  "caseTAGMSG env msg playback s =
     (if playback then ret s None
      else
        (case Prefix msg of None \<Rightarrow> fail s errMissingPrefix
         | Some p \<Rightarrow>
             (case ParseParams msg 1 of Some e \<Rightarrow> fail s e
              | None \<Rightarrow>
                  let targetCf = Casemap env s (Params msg ! 0);
                      nickCf' = Casemap env s (Name p)
                  in if IsMe env s (Name p) then ret s None
                     else
                       (case map_of (Tags msg) ''+typing'' of
                          Some t \<Rightarrow>
                            if t = ''active''
                            then ret (s\<lparr>typings := typingsActive env (typings s) targetCf nickCf'\<rparr>) None
                            else if t = ''paused'' \<or> t = ''done''
                            then ret (s\<lparr>typings := typingsDone env (typings s) targetCf nickCf'\<rparr>) None
                            else ret s None
                        | None \<Rightarrow> ret s None))))"

definition caseBATCH :: "('ty, 'lim) externs \<Rightarrow> Message \<Rightarrow> ('ty, 'lim) Session \<Rightarrow> ('ty, 'lim) hres" where
  "caseBATCH env msg s =
     (case ParseParams msg 1 of Some e \<Rightarrow> fail s e
      | None \<Rightarrow>
          let id0 = Params msg ! 0
          in if id0 = [] then fail s errEmptyBatchID
             else
               let batchStart = (hd id0 = CHR ''+''); id = tl id0
               in if batchStart then
                    (case ParseParams msg 2 of Some e \<Rightarrow> fail s e
                     | None \<Rightarrow>
                         let name = Params msg ! 1
                         in if name = ''chathistory'' then
                              (case ParseParams msg 3 of Some e \<Rightarrow> fail s e
                               | None \<Rightarrow>
                                   ret (s\<lparr>chBatches := (chBatches s)(id \<mapsto>
                                          \<lparr>HTarget = Params msg ! 2, HMessages = []\<rparr>)\<rparr>) None)
                            else if name = ''draft/chathistory-targets''
                            then ret (s\<lparr>targetsBatchID := id, targetsBatch := []\<rparr>) None
                            else if name = ''soju.im/search''
                            then ret (s\<lparr>searchBatchID := id, searchBatch := []\<rparr>) None
                            else ret s None)
                  else
                    (case chBatches s id of
                       Some b \<Rightarrow>
                         ret (s\<lparr>chBatches := (chBatches s)(id := None),
                                 chReqs := chReqs s - {Casemap env s (HTarget b)}\<rparr>)
                           (Some (HistoryEv (HTarget b) (HMessages b)))
                     | None \<Rightarrow>
                         if targetsBatchID s = id
                         then ret (s\<lparr>targetsBatchID := [], chReqs := chReqs s - {[]}\<rparr>)
                                (Some (HistoryTargetsEv (targetsBatch s)))
                         else if searchBatchID s = id
                         then ret (s\<lparr>searchBatchID := []\<rparr>) (Some (SearchEv (searchBatch s)))
                         else ret s None))"

definition caseNICK :: "('ty, 'lim) externs \<Rightarrow> Message \<Rightarrow> bool \<Rightarrow> time \<Rightarrow> ('ty, 'lim) Session \<Rightarrow> ('ty, 'lim) hres" where
  "caseNICK env msg playback now s =
     (case Prefix msg of None \<Rightarrow> fail s errMissingPrefix
      | Some p \<Rightarrow>
          (case ParseParams msg 1 of Some e \<Rightarrow> fail s e
           | None \<Rightarrow>
               let newNick = Params msg ! 0
               in if playback then ret s (Some (UserNickEvent newNick (Name p) (TimeOrNow env msg now)))
                  else
                    let nickCf' = Casemap env s (Name p); newNickCf = Casemap env s newNick
                    in (case users s nickCf' of
                          None \<Rightarrow> ret s None
                        | Some formerUser \<Rightarrow>
                            let s1 = s\<lparr>store := (store s)(formerUser :=
                                         (store s formerUser)\<lparr>UName := (UName (store s formerUser))\<lparr>Name := newNick\<rparr>\<rparr>),
                                       users := ((users s)(nickCf' := None))(newNickCf \<mapsto> formerUser)\<rparr>
                            in if IsMe env s1 (Name p)
                               then ret (s1\<lparr>nick := newNick, nickCf := newNickCf\<rparr>) (Some (SelfNickEvent (Name p)))
                               else ret s1 (Some (UserNickEvent newNick (Name p) (TimeOrNow env msg now))))))"

definition caseREAD :: "('ty, 'lim) externs \<Rightarrow> Message \<Rightarrow> ('ty, 'lim) Session \<Rightarrow> ('ty, 'lim) hres" where
  "caseREAD env msg s =
     (if length (Params msg) < 2 then ret s None
      else
        (case ParseParams msg 2 of Some e \<Rightarrow> fail s e
         | None \<Rightarrow>
             let tgt = Params msg ! 0; timestamp = Params msg ! 1
             in if \<not> HasPrefix timestamp ''timestamp='' then ret s None
                else
                  (case parseTimestamp env (drop (length ''timestamp='') timestamp) of
                     None \<Rightarrow> ret s None
                   | Some t \<Rightarrow> ret s (Some (ReadEvent tgt t)))))"

definition caseBOUNCER :: "('ty, 'lim) externs \<Rightarrow> Message \<Rightarrow> ('ty, 'lim) Session \<Rightarrow> ('ty, 'lim) hres" where
  "caseBOUNCER env msg s =
     (if length (Params msg) < 3 then ret s None
      else if Params msg ! 0 \<noteq> ''NETWORK'' \<or> netID s \<noteq> [] then ret s None
      else
        let attrs = parseTags env (Params msg ! 2)
        in ret s (Some (BouncerNetworkEvent (Params msg ! 1)
             (case map_of attrs ''name'' of Some v \<Rightarrow> v | None \<Rightarrow> []))))"

definition casePING :: "Message \<Rightarrow> ('ty, 'lim) Session \<Rightarrow> ('ty, 'lim) hres" where
  "casePING msg s =
     (case ParseParams msg 1 of Some e \<Rightarrow> fail s e
      | None \<Rightarrow> obind (send (NewMessage ''PONG'' [Params msg ! 0]) s) (\<lambda>s1. ret s1 None))"

definition caseFAIL :: "Message \<Rightarrow> ('ty, 'lim) Session \<Rightarrow> ('ty, 'lim) hres" where
  "caseFAIL msg s =
     (case ParseParams msg 2 of Some e \<Rightarrow> fail s e
      | None \<Rightarrow>
          let severity = (if Command msg = ''FAIL'' then SeverityFail
                          else if Command msg = ''WARN'' then SeverityWarn else SeverityNote)
          in ret s (Some (ErrorEvent severity (Params msg ! 1) (JoinStrings (drop 2 (Params msg)) (CHR '' '')))))"

definition caseDefault :: "('ty, 'lim) externs \<Rightarrow> Message \<Rightarrow> ('ty, 'lim) Session \<Rightarrow> ('ty, 'lim) hres" where
  "caseDefault env msg s =
     (if IsReply env msg then
        (if length (Params msg) < 2 then fail s (errNotEnoughParams 2)
         else if Command msg = errUnknowncommand \<and> Params msg ! 1 = ''BOUNCER'' then ret s None
         else ret s (Some (ErrorEvent (ReplySeverity env (Command msg)) (Command msg)
                (JoinStrings (tl (Params msg)) (CHR '' '')))))
      else ret s None)"

subsection \<open>The dispatch\<close>

definition handleMessageRegistered :: "('ty, 'lim) externs \<Rightarrow> Message \<Rightarrow> bool \<Rightarrow> time \<Rightarrow>
    ('ty, 'lim) Session \<Rightarrow> ('ty, 'lim) hres" where
  "handleMessageRegistered env msg playback now s =
     (let cmd = Command msg
      in if cmd = ''AUTHENTICATE'' then caseAUTHENTICATE msg s
         else if cmd = rplLoggedin then caseLoggedin env msg s
         else if cmd \<in> {errNicklocked, errSaslfail, errSasltoolong, errSaslaborted, errSaslalready, rplSaslmechs}
         then caseSaslFailure msg s
         else if cmd = rplWelcome then caseWelcome env msg s
         else if cmd = rplIsupport then caseIsupport env msg s
         else if cmd = rplWhoreply then caseWhoreply env msg s
         else if cmd = rplEndofwho then ret s None
         else if cmd = ''CAP'' then caseCAP env msg s
         else if cmd = ''JOIN'' then caseJOIN env msg playback now s
         else if cmd = ''PART'' then casePART env msg playback now s
         else if cmd = ''KICK'' then caseKICK env msg playback now s
         else if cmd = ''QUIT'' then caseQUIT env msg playback now s
         else if cmd = rplMononline then caseMonitor env False msg s
         else if cmd = rplMonoffline then caseMonitor env True msg s
         else if cmd = rplNamreply then caseNamreply env msg s
         else if cmd = rplEndofnames then caseEndofnames env msg now s
         else if cmd = rplTopic then caseTopic env msg s
         else if cmd = rplTopicwhotime then caseTopicwhotime env msg s
         else if cmd = rplNotopic then caseNotopic env msg s
         else if cmd = ''TOPIC'' then caseTOPIC env msg playback now s
         else if cmd = ''MODE'' then caseMODE env msg playback now s
         else if cmd = ''INVITE'' then caseINVITE msg s
         else if cmd = rplInviting then caseInviting msg s
         else if cmd = ''AWAY'' then caseAWAY env msg s
         else if cmd = ''PRIVMSG'' \<or> cmd = ''NOTICE'' then casePRIVMSG env msg playback now s
         else if cmd = ''TAGMSG'' then caseTAGMSG env msg playback s
         else if cmd = ''BATCH'' then caseBATCH env msg s
         else if cmd = ''NICK'' then caseNICK env msg playback now s
         else if cmd = ''READ'' then caseREAD env msg s
         else if cmd = ''BOUNCER'' then caseBOUNCER env msg s
         else if cmd = ''PING'' then casePING msg s
         else if cmd = ''ERROR'' then ret (Close env s) None
         else if cmd = ''FAIL'' \<or> cmd = ''WARN'' \<or> cmd = ''NOTE'' then caseFAIL msg s
         else if cmd = errMonlistisfull then ret s None
         else caseDefault env msg s)"

section \<open>A sample instance of the parameters\<close>

text \<open>
  To run the model on concrete messages the parameters need values. This instance folds
  ASCII letters for both casemappings (and the four extra pairs of RFC 1459), reads a
  prefix up to its first \<open>!\<close> or \<open>@\<close>, keeps the incoming typing notifications as a list of
  pairs, and counts the tokens of a limiter without ever refilling it.
\<close>

definition lowerByte :: "char \<Rightarrow> char" where
  "lowerByte c = (if 65 \<le> byteval c \<and> byteval c \<le> 90 then char_of (byteval c + 32) else c)"

definition rfc1459Byte :: "char \<Rightarrow> char" where
  "rfc1459Byte c =
     (if c = CHR ''['' then CHR ''{'' else if c = CHR '']'' then CHR ''}''
      else if c = CHR 0x5C then CHR ''|'' else if c = CHR ''~'' then CHR ''^''
      else lowerByte c)"

definition samplePrefix :: "string \<Rightarrow> Prefix option" where
  "samplePrefix s =
     (if s = [] then None
      else Some \<lparr>Name = takeWhile (\<lambda>c. c \<noteq> CHR ''!'' \<and> c \<noteq> CHR ''@'') s, User = [], Host = []\<rparr>)"

definition sampleCap :: "string \<Rightarrow> Cap" where
  "sampleCap w =
     (if HasPrefix w ''-'' then \<lparr>CapName = tl w, CapValue = [], Enable = False\<rparr>
      else \<lparr>CapName = w, CapValue = [], Enable = True\<rparr>)"

definition sampleExterns :: "((string \<times> string) list, nat) externs" where
  "sampleExterns =
     \<lparr>fnCasemapASCII = map lowerByte,
      fnCasemapRFC1459 = map rfc1459Byte,
      ParsePrefix = samplePrefix,
      ParseCaps = (\<lambda>s. map sampleCap (Split s (CHR '' ''))),
      ParseNameReply = (\<lambda>names symbols. []),
      ParseChannelMode = (\<lambda>m args cm pm. Inr []),
      parseTimestamp = (\<lambda>s. None),
      parseTags = (\<lambda>s. []),
      IsReply = (\<lambda>m. length (Command m) = 3 \<and> list_all isDigit (Command m)),
      ReplySeverity = (\<lambda>c. SeverityNote),
      TimeOrNow = (\<lambda>m now. now),
      UnicodeUpper = (\<lambda>s. s),
      NewTypings = [],
      typingsActive = (\<lambda>ty t n. (t, n) # ty),
      typingsDone = (\<lambda>ty t n. removeAll (t, n) ty),
      typingsClose = (\<lambda>ty. []),
      NewLimiter = (\<lambda>num den burst now. burst),
      Reserve = (\<lambda>l now. l - 1),
      Allow = (\<lambda>l now. (0 < l, l - 1))\<rparr>"

definition sampleSession :: "((string \<times> string) list, nat) Session" where
  "sampleSession = newSessionValue sampleExterns
     \<lparr>Nickname = ''Me'', Username = ''me'', RealName = ''Me'', NetID = [], Auth = None\<rparr>"

section \<open>Chunking of outgoing messages: splitChunks\<close>

text \<open>\<open>utf8.RuneStart(b)\<close> is \<open>b&0xC0 != 0x80\<close>: the byte is not a continuation byte.\<close>

definition RuneStart :: "char \<Rightarrow> bool" where
  "RuneStart b = ((of_char b :: 8 word) AND 0xC0 \<noteq> 0x80)"

function scanBack :: "string \<Rightarrow> int \<Rightarrow> int \<Rightarrow> int outcome" where
  "scanBack s mn i =
     (if mn \<le> i then
        (if i < 0 \<or> int (length s) \<le> i then Panic
         else if \<not> RuneStart (s ! nat i) then scanBack s mn (i - 1)
         else Returned i)
      else Returned i)"
  by pat_completeness auto
termination
  by (relation "measure (\<lambda>(s, mn, i). nat (i - mn + 1))") auto

partial_function (option) splitLoop :: "string \<Rightarrow> int \<Rightarrow> string list \<Rightarrow> string list outcome option" where
  "splitLoop s chunkLen chunks =
     (if chunkLen < int (length s) then
        (case scanBack s (chunkLen - 4) chunkLen of
           Panic \<Rightarrow> Some Panic
         | Returned i \<Rightarrow>
             if i < 0 then Some Panic
             else splitLoop (drop (nat i) s) chunkLen (chunks @ [take (nat i) s]))
      else Some (Returned (if s \<noteq> [] then chunks @ [s] else chunks)))"

declare splitLoop.simps [code]
declare scanBack.simps [simp del]

definition splitChunks :: "string \<Rightarrow> int \<Rightarrow> string list outcome option" where
  "splitChunks s chunkLen =
     (if chunkLen \<le> 0 then Some (Returned [s]) else splitLoop s chunkLen [])"

text \<open>
  \<open>PrivMsg\<close> splits the content so that a line with the prefix, the command and the
  target fits in \<open>linelen\<close> bytes, sends one PRIVMSG per chunk and forgets the typing
  stamp of the target. It returns when \<open>splitChunks\<close> does. The limit is computed in
  Go's \<open>int\<close>, 64 bits wide, where a subtraction wraps around.
\<close>

fun sendChunks :: "string \<Rightarrow> string list \<Rightarrow> ('ty, 'lim) Session \<Rightarrow> ('ty, 'lim) Session outcome" where
  "sendChunks tgt [] s = Returned s"
| "sendChunks tgt (chunk # chunks) s =
     obind (send (NewMessage ''PRIVMSG'' [tgt, chunk]) s) (sendChunks tgt chunks)"

definition PrivMsg :: "('ty, 'lim) externs \<Rightarrow> string \<Rightarrow> string \<Rightarrow> ('ty, 'lim) Session \<Rightarrow>
    ('ty, 'lim) Session outcome option" where
  "PrivMsg env tgt content s =
     (let hostLen = (if host s = [] then of_nat (length ''255.255.255.255'') else of_nat (length (host s)));
          maxMessageLen = (word_of_int (linelen s) - of_nat (length '':!@ PRIVMSG  :'') - 2 -
              of_nat (length (nick s)) - of_nat (length (user s)) - hostLen - of_nat (length tgt) :: 64 word)
      in case splitChunks content (sint maxMessageLen) of
           None \<Rightarrow> None
         | Some Panic \<Rightarrow> Some Panic
         | Some (Returned chunks) \<Rightarrow>
             Some (obind (sendChunks tgt chunks s)
               (\<lambda>s1. Returned (s1\<lparr>typingStamps := (typingStamps s1)(Casemap env s1 tgt := None)\<rparr>))))"

text \<open>
  Valid UTF-8, as \<open>utf8.ValidString\<close> of the Go library decides it: after a lead byte,
  the following bytes must lie in the ranges that the lead byte accepts. The state of the
  decoder is the list of ranges still awaited; it is empty exactly at a character boundary.
\<close>

type_synonym brange = "nat \<times> nat"

definition acceptRanges :: "char \<Rightarrow> brange list option" where
  "acceptRanges b = (let v = byteval b in
     if v < 0x80 then Some []
     else if 0xC2 \<le> v \<and> v \<le> 0xDF then Some [(0x80, 0xBF)]
     else if v = 0xE0 then Some [(0xA0, 0xBF), (0x80, 0xBF)]
     else if (0xE1 \<le> v \<and> v \<le> 0xEC) \<or> v = 0xEE \<or> v = 0xEF then Some [(0x80, 0xBF), (0x80, 0xBF)]
     else if v = 0xED then Some [(0x80, 0x9F), (0x80, 0xBF)]
     else if v = 0xF0 then Some [(0x90, 0xBF), (0x80, 0xBF), (0x80, 0xBF)]
     else if 0xF1 \<le> v \<and> v \<le> 0xF3 then Some [(0x80, 0xBF), (0x80, 0xBF), (0x80, 0xBF)]
     else if v = 0xF4 then Some [(0x80, 0x8F), (0x80, 0xBF), (0x80, 0xBF)]
     else None)"

fun utf8_run :: "brange list \<Rightarrow> string \<Rightarrow> brange list option" where
  "utf8_run rs [] = Some rs"
| "utf8_run [] (b # bs) = (case acceptRanges b of None \<Rightarrow> None | Some rs \<Rightarrow> utf8_run rs bs)"
| "utf8_run ((lo, hi) # rs) (b # bs) =
     (if lo \<le> byteval b \<and> byteval b \<le> hi then utf8_run rs bs else None)"

definition ValidString :: "string \<Rightarrow> bool" where
  "ValidString s = (utf8_run [] s = Some [])"

text \<open>The states the decoder can be in: at most three awaited bytes, all of them
  continuation bytes.\<close>

definition contRanges :: "brange list \<Rightarrow> bool" where
  "contRanges rs = (length rs \<le> 3 \<and> list_all (\<lambda>(lo, hi). 0x80 \<le> lo \<and> hi \<le> 0xBF) rs)"

text \<open>No character of the string is encoded in more than \<open>M\<close> bytes: every lead
  byte awaits fewer than \<open>M\<close> further bytes.\<close>

definition charsWithin :: "int \<Rightarrow> string \<Rightarrow> bool" where
  "charsWithin M s =
     list_all (\<lambda>b. case acceptRanges b of Some rs \<Rightarrow> int (length rs) < M | None \<Rightarrow> True) s"

text \<open>The state of the decoder before byte \<open>p\<close> of the string.\<close>

definition decoderState :: "string \<Rightarrow> nat \<Rightarrow> brange list" where
  "decoderState s p = (case utf8_run [] (take p s) of Some rs \<Rightarrow> rs | None \<Rightarrow> [])"

chapter \<open>Properties\<close>

section \<open>Basic facts\<close>

lemma obind_Returned: "obind m f = Returned r \<longleftrightarrow> (\<exists>x. m = Returned x \<and> f x = Returned r)"
  by (cases m) (simp_all add: obind_def)

lemma obind_simps [simp]: "obind Panic f = Panic" "obind (Returned x) f = f x"
  by (simp_all add: obind_def)

lemma SplitN_2: "SplitN s sep 2 =
   (if sep \<in> set s then [takeWhile (\<lambda>c. c \<noteq> sep) s, tl (dropWhile (\<lambda>c. c \<noteq> sep) s)] else [s])"
  by (simp add: numeral_2_eq_2)

lemmas sample_defs = sampleSession_def newSessionValue_def sampleExterns_def Casemap_def
  lowerByte_def rfc1459Byte_def byteval_def samplePrefix_def

lemma Casemap_same: "casemap s' = casemap s \<Longrightarrow> Casemap env s' = Casemap env s"
  by (simp add: Casemap_def fun_eq_iff)

lemma Casemap_channels [simp]: "Casemap env (s\<lparr>channels := x\<rparr>) = Casemap env s"
  by (simp add: Casemap_def fun_eq_iff)

lemma Casemap_upd [simp]:
  "Casemap env (s\<lparr>chReqs := a\<rparr>) = Casemap env s"
  "Casemap env (s\<lparr>out := b\<rparr>) = Casemap env s"
  "Casemap env (s\<lparr>chBatches := c\<rparr>) = Casemap env s"
  "Casemap env (s\<lparr>typingStamps := d\<rparr>) = Casemap env s"
  by (simp_all add: Casemap_def fun_eq_iff)

section \<open>updateFeatures\<close>

text \<open>
  Claim C6. The tokens \<open>CASEMAPPING=ascii\<close>, \<open>PREFIX=(ov)@+\<close> and \<open>LINELEN=300\<close>, applied
  to any session, set the casemapping to the ASCII rule, \<open>prefixModes\<close> to \<open>ov\<close>,
  \<open>prefixSymbols\<close> to \<open>@+\<close> and \<open>linelen\<close> to 300, and change nothing else.
\<close>

theorem isupport_example:
  "updateFeatures env [''CASEMAPPING=ascii'', ''PREFIX=(ov)@+'', ''LINELEN=300''] s
   = Returned (s\<lparr>casemap := CasemapASCII, prefixModes := ''ov'', prefixSymbols := ''@+'', linelen := 300\<rparr>)"
  by (simp add: updateFeature_def SplitN_2 HasPrefix_def ToUpper_def upperByte_def byteval_def Atoi_def
     ParseInt10_def digitsVal_def isDigit_def featurePREFIX_def slice_def sliceFrom_def Let_def)

lemma updateFeature_removal: "updateFeature env (CHR ''-'' # rest) s = Returned s"
  by (simp add: updateFeature_def HasPrefix_def Let_def)

text \<open>
  Claim C8. A token that starts with \<open>-\<close> is parsed and dropped: wherever it stands in the
  list, the result is the one of the list without it; alone, it leaves the session, and so
  every field of the feature table, as it was.
\<close>

theorem isupport_removal_not_applied:
  "updateFeatures env (pre @ (CHR ''-'' # rest) # post) s = updateFeatures env (pre @ post) s \<and>
   updateFeatures env [CHR ''-'' # rest] s = Returned s \<and>
   (\<exists>s'. updateFeatures env [CHR ''-'' # rest] s = Returned s' \<and> features s' = features s)"
proof -
  have "updateFeatures env (pre @ (CHR ''-'' # rest) # post) s = updateFeatures env (pre @ post) s"
  proof (induction pre arbitrary: s)
    case Nil
    show ?case by (simp add: updateFeature_removal)
  next
    case (Cons f fs)
    show ?case by (cases "updateFeature env f s") (simp_all add: Cons.IH)
  qed
  then show ?thesis by (simp add: updateFeature_removal)
qed

text \<open>
  Claim C10 fails on the code. For \<open>PREFIX\<close> with an empty value the two fields are
  cleared, but the switch is not left: \<open>numPrefixes\<close> is \<open>-1\<close> and the slice expression
  \<open>value[1 : 0]\<close> panics.
\<close>

theorem isupport_empty_prefix_panics:
  "updateFeatures env [''PREFIX=''] s = Panic \<and> updateFeatures env [''PREFIX''] s = Panic"
  by (simp add: updateFeature_def SplitN_2 HasPrefix_def ToUpper_def upperByte_def byteval_def
      featurePREFIX_def slice_def sliceFrom_def Let_def)


text \<open>
  The empty value is the only one on which the PREFIX case panics, and PREFIX the only
  token on which \<open>updateFeature\<close> does.
\<close>

lemma featurePREFIX_panics_iff: "featurePREFIX v s = Panic \<longleftrightarrow> v = []"
proof (cases "v = []")
  case True
  then show ?thesis by (simp add: featurePREFIX_def slice_def sliceFrom_def)
next
  case False
  then have "0 < int (length v)" by simp
  then have "int (length v) mod 2 = 0 \<Longrightarrow> 1 \<le> int (length v) div 2 \<and> int (length v) div 2 \<le> int (length v)
      \<and> int (length v) div 2 + 1 \<le> int (length v)" by presburger
  with False show ?thesis
    by (auto simp: featurePREFIX_def slice_def sliceFrom_def Let_def)
qed

lemma updateFeature_panics_iff:
  "updateFeature env f s = Panic \<longleftrightarrow>
     f \<noteq> [] \<and> f \<noteq> ''='' \<and> \<not> HasPrefix f ''-'' \<and>
     ToUpper (UnicodeUpper env) (SplitN f (CHR ''='') 2 ! 0) = ''PREFIX'' \<and>
     (if 1 < length (SplitN f (CHR ''='') 2) then SplitN f (CHR ''='') 2 ! 1 else []) = []"
  by (auto simp: updateFeature_def Let_def featurePREFIX_panics_iff HasPrefix_def split: option.splits)


section \<open>Errors leave the session as it was\<close>

lemma ret_not_error [simp]: "ret s ev \<noteq> Returned (s', Inl e)"
  by (simp add: ret_def)

lemma fail_error [simp]: "fail s e = Returned (s', Inl e') \<longleftrightarrow> s' = s \<and> e' = e"
  by (auto simp: fail_def)

lemma obind_ret_not_error [simp]: "obind m (\<lambda>x. ret (g x) (h x)) \<noteq> Returned (s', Inl e)"
  by (simp add: obind_Returned)

lemma retMessage_error: "retMessage s r = Returned (s', Inl e) \<Longrightarrow> s' = s"
  by (cases r) (simp_all add: retMessage_def)

named_theorems err_same

lemma err_AUTHENTICATE [err_same]: "caseAUTHENTICATE msg s = Returned (s', Inl e) \<Longrightarrow> s' = s"
  by (auto simp: caseAUTHENTICATE_def split: option.splits)

lemma err_Loggedin [err_same]: "caseLoggedin env msg s = Returned (s', Inl e) \<Longrightarrow> s' = s"
  by (auto simp: caseLoggedin_def Let_def split: option.splits)

lemma err_SaslFailure [err_same]: "caseSaslFailure msg s = Returned (s', Inl e) \<Longrightarrow> s' = s"
  by (auto simp: caseSaslFailure_def obind_Returned)

lemma err_Welcome [err_same]: "caseWelcome env msg s = Returned (s', Inl e) \<Longrightarrow> s' = s"
  by (auto simp: caseWelcome_def Let_def split: option.splits prod.splits if_splits)

lemma err_Isupport [err_same]: "caseIsupport env msg s = Returned (s', Inl e) \<Longrightarrow> s' = s"
  by (auto simp: caseIsupport_def split: if_splits)

lemma err_Whoreply [err_same]: "caseWhoreply env msg s = Returned (s', Inl e) \<Longrightarrow> s' = s"
  by (auto simp: caseWhoreply_def Let_def split: option.splits if_splits)

lemma err_CAP [err_same]: "caseCAP env msg s = Returned (s', Inl e) \<Longrightarrow> s' = s"
  by (auto simp: caseCAP_def Let_def split: option.splits if_splits)

lemma err_JOIN [err_same]: "caseJOIN env msg playback now s = Returned (s', Inl e) \<Longrightarrow> s' = s"
  by (auto simp: caseJOIN_def Let_def split: option.splits if_splits)

lemma err_partChannel: "partChannel env n c who tm s \<noteq> Returned (s', Inl e)"
  by (auto simp: partChannel_def Let_def split: option.splits if_splits)

lemma err_PART [err_same]: "casePART env msg playback now s = Returned (s', Inl e) \<Longrightarrow> s' = s"
  by (auto simp: casePART_def Let_def err_partChannel split: option.splits if_splits)

lemma err_KICK [err_same]: "caseKICK env msg playback now s = Returned (s', Inl e) \<Longrightarrow> s' = s"
  by (auto simp: caseKICK_def Let_def err_partChannel split: option.splits if_splits)

lemma err_QUIT [err_same]: "caseQUIT env msg playback now s = Returned (s', Inl e) \<Longrightarrow> s' = s"
  by (auto simp: caseQUIT_def Let_def split: option.splits if_splits prod.splits)

lemma err_Monitor [err_same]: "caseMonitor env off msg s = Returned (s', Inl e) \<Longrightarrow> s' = s"
  by (auto simp: caseMonitor_def split: if_splits prod.splits)

lemma err_Namreply [err_same]: "caseNamreply env msg s = Returned (s', Inl e) \<Longrightarrow> s' = s"
  by (auto simp: caseNamreply_def Let_def split: option.splits)

lemma err_Endofnames [err_same]: "caseEndofnames env msg now s = Returned (s', Inl e) \<Longrightarrow> s' = s"
  by (auto simp: caseEndofnames_def Let_def split: option.splits if_splits)

lemma err_Topic [err_same]: "caseTopic env msg s = Returned (s', Inl e) \<Longrightarrow> s' = s"
  by (auto simp: caseTopic_def Let_def split: option.splits)

lemma err_Topicwhotime [err_same]: "caseTopicwhotime env msg s = Returned (s', Inl e) \<Longrightarrow> s' = s"
  by (auto simp: caseTopicwhotime_def Let_def split: option.splits)

lemma err_Notopic [err_same]: "caseNotopic env msg s = Returned (s', Inl e) \<Longrightarrow> s' = s"
  by (auto simp: caseNotopic_def Let_def split: option.splits)

lemma err_TOPIC [err_same]: "caseTOPIC env msg playback now s = Returned (s', Inl e) \<Longrightarrow> s' = s"
  by (auto simp: caseTOPIC_def Let_def split: option.splits if_splits)

lemma err_MODE [err_same]: "caseMODE env msg playback now s = Returned (s', Inl e) \<Longrightarrow> s' = s"
  by (auto simp: caseMODE_def Let_def split: option.splits if_splits sum.splits)

lemma err_INVITE [err_same]: "caseINVITE msg s = Returned (s', Inl e) \<Longrightarrow> s' = s"
  by (auto simp: caseINVITE_def split: option.splits)

lemma err_Inviting [err_same]: "caseInviting msg s = Returned (s', Inl e) \<Longrightarrow> s' = s"
  by (auto simp: caseInviting_def split: option.splits)

lemma err_AWAY [err_same]: "caseAWAY env msg s = Returned (s', Inl e) \<Longrightarrow> s' = s"
  by (auto simp: caseAWAY_def split: option.splits)

lemma err_PRIVMSG: "casePRIVMSG env msg playback now s = Returned (s', Inl e) \<Longrightarrow>
    s' = s \<or> s' = s\<lparr>typings := typings s'\<rparr>"
  by (auto simp: casePRIVMSG_def Let_def split: option.splits if_splits dest!: retMessage_error)

lemma err_TAGMSG [err_same]: "caseTAGMSG env msg playback s = Returned (s', Inl e) \<Longrightarrow> s' = s"
  by (auto simp: caseTAGMSG_def Let_def split: option.splits if_splits)

lemma err_BATCH [err_same]: "caseBATCH env msg s = Returned (s', Inl e) \<Longrightarrow> s' = s"
  by (auto simp: caseBATCH_def Let_def split: option.splits if_splits)

lemma err_NICK [err_same]: "caseNICK env msg playback now s = Returned (s', Inl e) \<Longrightarrow> s' = s"
  by (auto simp: caseNICK_def Let_def split: option.splits if_splits)

lemma err_READ [err_same]: "caseREAD env msg s = Returned (s', Inl e) \<Longrightarrow> s' = s"
  by (auto simp: caseREAD_def Let_def split: option.splits if_splits)

lemma err_BOUNCER [err_same]: "caseBOUNCER env msg s = Returned (s', Inl e) \<Longrightarrow> s' = s"
  by (auto simp: caseBOUNCER_def Let_def split: option.splits if_splits)

lemma err_PING [err_same]: "casePING msg s = Returned (s', Inl e) \<Longrightarrow> s' = s"
  by (auto simp: casePING_def split: option.splits)

lemma err_FAIL [err_same]: "caseFAIL msg s = Returned (s', Inl e) \<Longrightarrow> s' = s"
  by (auto simp: caseFAIL_def Let_def split: option.splits)

lemma err_Default [err_same]: "caseDefault env msg s = Returned (s', Inl e) \<Longrightarrow> s' = s"
  by (auto simp: caseDefault_def split: if_splits)

lemma handleMessageRegistered_error:
  assumes "handleMessageRegistered env msg playback now s = Returned (s', Inl e)"
  shows "s' = s\<lparr>typings := typings s'\<rparr>"
proof -
  have "s' = s \<or> s' = s\<lparr>typings := typings s'\<rparr>"
    using assms unfolding handleMessageRegistered_def Let_def
    by (auto split: if_splits dest: err_same err_PRIVMSG)
  then show ?thesis by auto
qed

text \<open>
  Claim C9. When \<open>handleMessageRegistered\<close> returns an error, the users and their records,
  the channels, the batches being received, the enabled and the available capabilities and
  the feature fields are those of the call's start; so is every other field but the store of
  incoming typing notifications, which PRIVMSG and NOTICE update before they read the
  content of the message.
\<close>

theorem error_leaves_state:
  assumes "handleMessageRegistered env msg playback now s = Returned (s', Inl e)"
  shows "users s' = users s \<and> store s' = store s \<and> channels s' = channels s \<and>
         chBatches s' = chBatches s \<and> chReqs s' = chReqs s \<and>
         targetsBatchID s' = targetsBatchID s \<and> targetsBatch s' = targetsBatch s \<and>
         searchBatchID s' = searchBatchID s \<and> searchBatch s' = searchBatch s \<and>
         enabledCaps s' = enabledCaps s \<and> availableCaps s' = availableCaps s \<and>
         features s' = features s \<and> monitors s' = monitors s \<and>
         pendingChannels s' = pendingChannels s \<and> out s' = out s \<and>
         s' = s\<lparr>typings := typings s'\<rparr>"
proof -
  from handleMessageRegistered_error[OF assms] obtain ty where "s' = s\<lparr>typings := ty\<rparr>" by blast
  then show ?thesis by (simp add: features_def)
qed


text \<open>An instance: a PRIVMSG without content, from a user shown as typing.\<close>

theorem error_leaves_state_witness:
  "handleMessageRegistered sampleExterns
     \<lparr>Tags = [], Prefix = Some \<lparr>Name = ''alice'', User = [], Host = []\<rparr>,
      Command = ''PRIVMSG'', Params = [''#chan'']\<rparr>
     False 0 (sampleSession\<lparr>typings := [(''#chan'', ''alice'')]\<rparr>)
   = Returned (sampleSession\<lparr>typings := []\<rparr>, Inl (errNotEnoughParams 2)) \<and>
   users (sampleSession\<lparr>typings := []\<rparr>) = users (sampleSession\<lparr>typings := [(''#chan'', ''alice'')]\<rparr>) \<and>
   channels (sampleSession\<lparr>typings := []\<rparr>) = channels (sampleSession\<lparr>typings := [(''#chan'', ''alice'')]\<rparr>)"
proof -
  have h: "handleMessageRegistered sampleExterns
     \<lparr>Tags = [], Prefix = Some \<lparr>Name = ''alice'', User = [], Host = []\<rparr>,
      Command = ''PRIVMSG'', Params = [''#chan'']\<rparr>
     False 0 (sampleSession\<lparr>typings := [(''#chan'', ''alice'')]\<rparr>)
   = Returned (sampleSession\<lparr>typings := []\<rparr>, Inl (errNotEnoughParams 2))"
    by (simp add: handleMessageRegistered_def numerics casePRIVMSG_def ParseParams_def
        retMessage_def newMessageEvent_def fail_def sample_defs)
  from error_leaves_state[OF h] h show ?thesis by simp
qed


section \<open>The end of a self-join\<close>

lemma handle_Endofnames:
  "Command msg = rplEndofnames \<Longrightarrow>
   handleMessageRegistered env msg playback now s = caseEndofnames env msg now s"
  by (simp add: handleMessageRegistered_def numerics)

lemma handle_JOIN:
  "Command msg = ''JOIN'' \<Longrightarrow> handleMessageRegistered env msg playback now s = caseJOIN env msg playback now s"
  by (simp add: handleMessageRegistered_def numerics)

text \<open>A JOIN of the session's own nickname records the channel with the flag unset.\<close>

lemma self_join_incomplete:
  assumes "Command msg = ''JOIN''" and "Prefix msg = Some p" and "Params msg \<noteq> []"
    and "IsMe env s (Casemap env s (Name p))" and "\<not> closed s"
  shows "\<exists>s1. handleMessageRegistered env msg False now s = Returned (s1, Inr None) \<and>
           map_of (channels s1) (Casemap env s (Params msg ! 0)) = Some (emptyChannel (Params msg ! 0)) \<and>
           \<not> complete (emptyChannel (Params msg ! 0))"
  using assms
  by (auto simp: handle_JOIN caseJOIN_def ParseParams_def Let_def ret_def send_def update_conv'
      emptyChannel_def)

text \<open>
  Claim C1. For a joined channel that is not yet complete, the end-of-names numeric sets the
  flag and returns a self-join event with the channel's name and topic and with
  \<open>Requested\<close> true exactly when a pending join is recorded for the casemapped channel less than 5
  seconds before; handled again, in the session it leaves or in any session where the flag
  is set, it returns no event and changes nothing. \<open>Join\<close> is what records the pending join.
\<close>

theorem endofnames_once:
  assumes cmd: "Command msg = rplEndofnames" and np: "2 \<le> length (Params msg)"
    and ch: "map_of (channels s) (Casemap env s (Params msg ! 1)) = Some c"
  shows "(\<not> complete c \<longrightarrow>
           (\<exists>s1. handleMessageRegistered env msg playback now s =
                   Returned (s1, Inr (Some (SelfJoinEvent (CName c) (Topic c)
                     (case pendingChannels s (Casemap env s (Params msg ! 1)) of
                        Some stamp \<Rightarrow> now - stamp < 5 * Second | None \<Rightarrow> False)))) \<and>
                 map_of (channels s1) (Casemap env s (Params msg ! 1)) = Some (c\<lparr>complete := True\<rparr>) \<and>
                 (\<forall>playback' now'. handleMessageRegistered env msg playback' now' s1 = Returned (s1, Inr None)))) \<and>
         (complete c \<longrightarrow> handleMessageRegistered env msg playback now s = Returned (s, Inr None)) \<and>
         (\<forall>channel key t0 sj. Join env channel key t0 s = Returned sj \<longrightarrow>
            pendingChannels sj = (pendingChannels s)(Casemap env s channel \<mapsto> t0))"
proof (intro conjI impI allI)
  assume nc: "\<not> complete c"
  let ?k = "Casemap env s (Params msg ! 1)"
  let ?s1 = "s\<lparr>channels := AList.update ?k (c\<lparr>complete := True\<rparr>) (channels s)\<rparr>"
  have first: "handleMessageRegistered env msg playback now s =
      Returned (?s1, Inr (Some (SelfJoinEvent (CName c) (Topic c)
         (case pendingChannels s ?k of Some stamp \<Rightarrow> now - stamp < 5 * Second | None \<Rightarrow> False))))"
    using np ch nc by (simp add: handle_Endofnames[OF cmd] caseEndofnames_def ParseParams_def ret_def Let_def)
  have look: "map_of (channels ?s1) ?k = Some (c\<lparr>complete := True\<rparr>)"
    by (simp add: update_conv')
  have later: "handleMessageRegistered env msg playback' now' ?s1 = Returned (?s1, Inr None)" for playback' now'
    using np look by (simp add: handle_Endofnames[OF cmd] caseEndofnames_def ParseParams_def ret_def Let_def)
  show "\<exists>s1. handleMessageRegistered env msg playback now s =
                   Returned (s1, Inr (Some (SelfJoinEvent (CName c) (Topic c)
                     (case pendingChannels s ?k of
                        Some stamp \<Rightarrow> now - stamp < 5 * Second | None \<Rightarrow> False)))) \<and>
                 map_of (channels s1) ?k = Some (c\<lparr>complete := True\<rparr>) \<and>
                 (\<forall>playback' now'. handleMessageRegistered env msg playback' now' s1 = Returned (s1, Inr None))"
    using first look later by blast
next
  assume "complete c"
  then show "handleMessageRegistered env msg playback now s = Returned (s, Inr None)"
    using np ch by (simp add: handle_Endofnames[OF cmd] caseEndofnames_def ParseParams_def ret_def Let_def)
next
  fix channel key t0 sj
  assume "Join env channel key t0 s = Returned sj"
  then show "pendingChannels sj = (pendingChannels s)(Casemap env s channel \<mapsto> t0)"
    by (auto simp: Join_def send_def Let_def split: if_splits)
qed

text \<open>An instance: the channel as a JOIN of ours creates it, the join requested 2 seconds before.\<close>

theorem endofnames_once_witness:
  "map_of (channels (sampleSession\<lparr>channels := [(''#chan'', emptyChannel ''#Chan'')],
                 pendingChannels := [''#chan'' \<mapsto> 0]\<rparr>))
      (Casemap sampleExterns sampleSession ''#Chan'') = Some (emptyChannel ''#Chan'') \<and>
   (\<exists>s1. handleMessageRegistered sampleExterns
            \<lparr>Tags = [], Prefix = None, Command = ''366'', Params = [''Me'', ''#Chan'']\<rparr> False (2 * Second)
            (sampleSession\<lparr>channels := [(''#chan'', emptyChannel ''#Chan'')],
                 pendingChannels := [''#chan'' \<mapsto> 0]\<rparr>)
          = Returned (s1, Inr (Some (SelfJoinEvent ''#Chan'' [] True))) \<and>
        handleMessageRegistered sampleExterns
            \<lparr>Tags = [], Prefix = None, Command = ''366'', Params = [''Me'', ''#Chan'']\<rparr> False (3 * Second) s1
          = Returned (s1, Inr None))"
proof -
  have k: "Casemap sampleExterns (sampleSession\<lparr>channels := [(''#chan'', emptyChannel ''#Chan'')],
                 pendingChannels := [''#chan'' \<mapsto> 0]\<rparr>) ''#Chan'' = ''#chan''"
    by (simp add: sample_defs char_of_eq_iff)
  have k': "Casemap sampleExterns sampleSession ''#Chan'' = ''#chan''"
    by (simp add: sample_defs char_of_eq_iff)
  have p: "pendingChannels (sampleSession\<lparr>channels := [(''#chan'', emptyChannel ''#Chan'')],
                 pendingChannels := [''#chan'' \<mapsto> 0]\<rparr>) ''#chan'' = Some 0" by simp
  from endofnames_once[where msg = "\<lparr>Tags = [], Prefix = None, Command = ''366'', Params = [''Me'', ''#Chan'']\<rparr>"
      and env = sampleExterns and s = "sampleSession\<lparr>channels := [(''#chan'', emptyChannel ''#Chan'')],
                 pendingChannels := [''#chan'' \<mapsto> 0]\<rparr>" and c = "emptyChannel ''#Chan''"
      and playback = False and now = "2 * Second"]
  show ?thesis
    apply (simp add: k k' rplEndofnames_def)
    apply (simp add: emptyChannel_def Second_def)
    apply blast
    done
qed


section \<open>One history request in flight per target\<close>

lemma handle_BATCH:
  "Command msg = ''BATCH'' \<Longrightarrow> handleMessageRegistered env msg playback now s = caseBATCH env msg s"
  by (simp add: handleMessageRegistered_def numerics)

lemma doRequest_in_flight:
  "Casemap env s (target r) \<in> chReqs s \<Longrightarrow> doRequest env r s = Returned s"
  by (simp add: doRequest_def Let_def)

lemma doRequest_sends:
  "HasCapability s ''draft/chathistory'' \<Longrightarrow> \<not> closed s \<Longrightarrow> Casemap env s (target r) \<notin> chReqs s \<Longrightarrow>
   doRequest env r s = Returned (s\<lparr>chReqs := insert (Casemap env s (target r)) (chReqs s),
       out := out s @ [NewMessage ''CHATHISTORY'' (requestArgs r)]\<rparr>)"
  by (simp add: doRequest_def Let_def send_def requestArgs_def)

text \<open>
  Claim C5. With the capability enabled (and the session open): a request whose casemapped
  target is in the in-flight set sends nothing; a request whose target is not in the set
  sends one CHATHISTORY command and puts the target in the set, so that any further request
  for the same casemapped target sends nothing; and the end of a chathistory batch for that
  target takes it out of the set, after which a request sends a CHATHISTORY command again.
\<close>

theorem chathistory_one_in_flight:
  assumes cap: "HasCapability s ''draft/chathistory''" and op: "\<not> closed s"
  shows "(Casemap env s (target r) \<in> chReqs s \<longrightarrow> doRequest env r s = Returned s) \<and>
         (Casemap env s (target r) \<notin> chReqs s \<longrightarrow>
            (\<exists>s1. doRequest env r s = Returned s1 \<and>
               out s1 = out s @ [NewMessage ''CHATHISTORY'' (requestArgs r)] \<and>
               chReqs s1 = insert (Casemap env s (target r)) (chReqs s) \<and>
               (\<forall>r'. Casemap env s (target r') = Casemap env s (target r) \<longrightarrow>
                    doRequest env r' s1 = Returned s1))) \<and>
         (\<forall>(msg :: Message) playback now c id b.
            Command msg = ''BATCH'' \<and> Params msg \<noteq> [] \<and> Params msg ! 0 = c # id \<and> c \<noteq> CHR ''+'' \<and>
            chBatches s id = Some b \<and> Casemap env s (HTarget b) = Casemap env s (target r) \<longrightarrow>
            (\<exists>s2. handleMessageRegistered env msg playback now s =
                     Returned (s2, Inr (Some (HistoryEv (HTarget b) (HMessages b)))) \<and>
                   Casemap env s (target r) \<notin> chReqs s2 \<and>
                   (\<exists>s3. doRequest env r s2 = Returned s3 \<and>
                      out s3 = out s2 @ [NewMessage ''CHATHISTORY'' (requestArgs r)])))"
proof (intro conjI impI allI)
  assume "Casemap env s (target r) \<in> chReqs s"
  then show "doRequest env r s = Returned s" by (rule doRequest_in_flight)
next
  assume nin: "Casemap env s (target r) \<notin> chReqs s"
  let ?s1 = "s\<lparr>chReqs := insert (Casemap env s (target r)) (chReqs s),
       out := out s @ [NewMessage ''CHATHISTORY'' (requestArgs r)]\<rparr>"
  have a: "doRequest env r s = Returned ?s1" using cap op nin by (rule doRequest_sends)
  have b: "doRequest env r' ?s1 = Returned ?s1"
    if "Casemap env s (target r') = Casemap env s (target r)" for r'
    using that by (intro doRequest_in_flight) simp
  show "\<exists>s1. doRequest env r s = Returned s1 \<and>
               out s1 = out s @ [NewMessage ''CHATHISTORY'' (requestArgs r)] \<and>
               chReqs s1 = insert (Casemap env s (target r)) (chReqs s) \<and>
               (\<forall>r'. Casemap env s (target r') = Casemap env s (target r) \<longrightarrow>
                    doRequest env r' s1 = Returned s1)"
    using a b by (intro exI[of _ ?s1]) simp
next
  fix msg :: Message and playback now c id b
  assume h: "Command msg = ''BATCH'' \<and> Params msg \<noteq> [] \<and> Params msg ! 0 = c # id \<and> c \<noteq> CHR ''+'' \<and>
            chBatches s id = Some b \<and> Casemap env s (HTarget b) = Casemap env s (target r)"
  let ?s2 = "s\<lparr>chBatches := (chBatches s)(id := None),
                chReqs := chReqs s - {Casemap env s (HTarget b)}\<rparr>"
  have a: "handleMessageRegistered env msg playback now s =
             Returned (?s2, Inr (Some (HistoryEv (HTarget b) (HMessages b))))"
    using h by (simp add: handle_BATCH caseBATCH_def ParseParams_def ret_def Let_def)
  have b: "Casemap env s (target r) \<notin> chReqs ?s2" using h by simp
  have "doRequest env r ?s2 = Returned (?s2\<lparr>chReqs := insert (Casemap env ?s2 (target r)) (chReqs ?s2),
       out := out ?s2 @ [NewMessage ''CHATHISTORY'' (requestArgs r)]\<rparr>)"
    using cap op b by (intro doRequest_sends) (simp_all add: HasCapability_def)
  then show "\<exists>s2. handleMessageRegistered env msg playback now s =
                     Returned (s2, Inr (Some (HistoryEv (HTarget b) (HMessages b)))) \<and>
                   Casemap env s (target r) \<notin> chReqs s2 \<and>
                   (\<exists>s3. doRequest env r s2 = Returned s3 \<and>
                      out s3 = out s2 @ [NewMessage ''CHATHISTORY'' (requestArgs r)])"
    using a b by (intro exI[of _ ?s2]) simp
qed

text \<open>An instance: two requests for the same channel, spelled in two cases.\<close>

theorem chathistory_one_in_flight_witness:
  "HasCapability (sampleSession\<lparr>enabledCaps := {''draft/chathistory''}\<rparr>) ''draft/chathistory'' \<and>
   \<not> closed (sampleSession\<lparr>enabledCaps := {''draft/chathistory''}\<rparr>) \<and>
   (\<exists>s1. doRequest sampleExterns \<lparr>target = ''#Chan'', command = ''LATEST'', bounds = [''*''], limit = 100\<rparr>
            (sampleSession\<lparr>enabledCaps := {''draft/chathistory''}\<rparr>) = Returned s1 \<and>
      out s1 = [NewMessage ''CHATHISTORY'' [''LATEST'', ''#Chan'', ''*'', Itoa 100]] \<and>
      doRequest sampleExterns \<lparr>target = ''#chan'', command = ''LATEST'', bounds = [''*''], limit = 100\<rparr> s1
         = Returned s1)"
proof -
  have k: "Casemap sampleExterns (sampleSession\<lparr>enabledCaps := {''draft/chathistory''}\<rparr>) ''#Chan'' = ''#chan''"
          "Casemap sampleExterns (sampleSession\<lparr>enabledCaps := {''draft/chathistory''}\<rparr>) ''#chan'' = ''#chan''"
    by (simp_all add: sample_defs char_of_eq_iff)
  have h: "HasCapability (sampleSession\<lparr>enabledCaps := {''draft/chathistory''}\<rparr>) ''draft/chathistory''"
     "\<not> closed (sampleSession\<lparr>enabledCaps := {''draft/chathistory''}\<rparr>)"
     "chReqs (sampleSession\<lparr>enabledCaps := {''draft/chathistory''}\<rparr>) = {}"
     "out (sampleSession\<lparr>enabledCaps := {''draft/chathistory''}\<rparr>) = []"
    by (simp_all add: HasCapability_def sampleSession_def newSessionValue_def)
  from chathistory_one_in_flight[OF h(1,2), where env = sampleExterns
      and r = "\<lparr>target = ''#Chan'', command = ''LATEST'', bounds = [''*''], limit = 100\<rparr>"]
  obtain s1 where s1: "doRequest sampleExterns \<lparr>target = ''#Chan'', command = ''LATEST'', bounds = [''*''], limit = 100\<rparr>
            (sampleSession\<lparr>enabledCaps := {''draft/chathistory''}\<rparr>) = Returned s1"
      "out s1 = [NewMessage ''CHATHISTORY'' [''LATEST'', ''#Chan'', ''*'', Itoa 100]]"
      "\<forall>r'. Casemap sampleExterns (sampleSession\<lparr>enabledCaps := {''draft/chathistory''}\<rparr>) (target r') = ''#chan'' \<longrightarrow>
                    doRequest sampleExterns r' s1 = Returned s1"
    by (auto simp: k h requestArgs_def)
  from s1(3) k(2) have "doRequest sampleExterns \<lparr>target = ''#chan'', command = ''LATEST'', bounds = [''*''], limit = 100\<rparr> s1
         = Returned s1" by simp
  with s1 h show ?thesis by blast
qed


section \<open>Outgoing typing notifications\<close>

lemma Typing_suppressed:
  assumes "typingStamps s (Casemap env s tgt) = Some t" and "Type t = TypingActive" and "t2 - Last t < 3 * Second"
  shows "Typing env tgt t2 s = Returned s"
  using assms by (simp add: Typing_def Let_def)

lemma TypingStop_suppressed:
  assumes "typingStamps s (Casemap env s tgt) = Some t" and "Type t = TypingDone"
  shows "TypingStop env tgt t2 s = Returned s"
  using assms by (simp add: TypingStop_def Let_def)

text \<open>
  One call, in an open session with the capability: whether it sends is decided by the
  stamp recorded for the target and by the limiter, and what it sends is one TAGMSG.
\<close>

lemma Typing_first:
  assumes cap: "HasCapability s ''message-tags''" and op: "\<not> closed s"
  shows "\<exists>s1. Typing env tgt t1 s = Returned s1 \<and> \<not> closed s1 \<and> HasCapability s1 ''message-tags'' \<and>
           Casemap env s1 = Casemap env s \<and>
           (if (case typingStamps s (Casemap env s tgt) of None \<Rightarrow> True
                | Some t \<Rightarrow> \<not> (Type t = TypingActive \<and> t1 - Last t < 3 * Second) \<and>
                    fst (Allow env (Limit t) t1))
            then out s1 = out s @ [\<lparr>Tags = [(''+typing'', ''active'')], Prefix = None,
                                   Command = ''TAGMSG'', Params = [tgt]\<rparr>] \<and>
                 (\<exists>lim. typingStamps s1 (Casemap env s tgt) =
                    Some \<lparr>Last = t1, Type = TypingActive, Limit = lim\<rparr>)
            else out s1 = out s)"
proof (cases "typingStamps s (Casemap env s tgt)")
  case None
  with cap op show ?thesis
    by (simp add: Typing_def Let_def send_def typingMessage_def NewMessage_def WithTag_def
        HasCapability_def)
next
  case (Some t)
  show ?thesis
  proof (cases "Type t = TypingActive \<and> t1 - Last t < 3 * Second")
    case True
    with cap op Some show ?thesis by (simp add: Typing_def Let_def)
  next
    case False
    obtain ok lim where a: "Allow env (Limit t) t1 = (ok, lim)" by (cases "Allow env (Limit t) t1")
    show ?thesis
    proof (cases ok)
      case True
      with cap op Some False a show ?thesis
        by (simp add: Typing_def Let_def send_def typingMessage_def NewMessage_def WithTag_def
            HasCapability_def)
    next
      case nok: False
      with cap op Some False a show ?thesis
        by (simp add: Typing_def Let_def HasCapability_def)
    qed
  qed
qed

lemma TypingStop_first:
  assumes cap: "HasCapability s ''message-tags''" and op: "\<not> closed s"
  shows "\<exists>s1. TypingStop env tgt t1 s = Returned s1 \<and> \<not> closed s1 \<and> HasCapability s1 ''message-tags'' \<and>
           Casemap env s1 = Casemap env s \<and>
           (if (case typingStamps s (Casemap env s tgt) of None \<Rightarrow> True
                | Some t \<Rightarrow> Type t \<noteq> TypingDone \<and> fst (Allow env (Limit t) t1))
            then out s1 = out s @ [\<lparr>Tags = [(''+typing'', ''done'')], Prefix = None,
                                   Command = ''TAGMSG'', Params = [tgt]\<rparr>] \<and>
                 (\<exists>lim. typingStamps s1 (Casemap env s tgt) =
                    Some \<lparr>Last = t1, Type = TypingDone, Limit = lim\<rparr>)
            else out s1 = out s)"
proof (cases "typingStamps s (Casemap env s tgt)")
  case None
  with cap op show ?thesis
    by (simp add: TypingStop_def Let_def send_def typingMessage_def NewMessage_def WithTag_def
        HasCapability_def)
next
  case (Some t)
  show ?thesis
  proof (cases "Type t = TypingDone")
    case True
    with cap op Some show ?thesis by (simp add: TypingStop_def Let_def)
  next
    case False
    obtain ok lim where a: "Allow env (Limit t) t1 = (ok, lim)" by (cases "Allow env (Limit t) t1")
    show ?thesis
    proof (cases ok)
      case True
      with cap op Some False a show ?thesis
        by (simp add: TypingStop_def Let_def send_def typingMessage_def NewMessage_def WithTag_def
            HasCapability_def)
    next
      case nok: False
      with cap op Some False a show ?thesis
        by (simp add: TypingStop_def Let_def HasCapability_def)
    qed
  qed
qed

text \<open>
  Claim C3, as amended. In an open session with the capability \<open>message-tags\<close>, for every
  target: a call of \<open>Typing\<close> sends when no stamp is recorded for the target, and otherwise
  exactly when the recorded stamp is not an active one less than 3 seconds old and the
  limiter allows; when it sends, it sends one TAGMSG to the target with \<open>+typing=active\<close>,
  and a second call less than 3 seconds after it sends nothing and changes nothing, so the
  two calls emit exactly one message; when it does not send, the two calls emit at most
  one. A call of \<open>TypingStop\<close> sends when no stamp is recorded, and otherwise exactly when
  the recorded stamp is not a done one and the limiter allows; when it sends, it sends one
  TAGMSG with \<open>+typing=done\<close>, and a second call, whenever it comes, sends nothing and changes
  nothing; when it does not send, the two calls emit at most one message, and none at all
  when the recorded stamp is a done one. Without the capability neither function sends or
  changes anything.
\<close>

theorem typing_amended:
  "(HasCapability s ''message-tags'' \<and> \<not> closed s \<and> t2 - t1 < 3 * Second \<longrightarrow>
      (\<exists>s1 s2. Typing env tgt t1 s = Returned s1 \<and> Typing env tgt t2 s1 = Returned s2 \<and>
         (if (case typingStamps s (Casemap env s tgt) of None \<Rightarrow> True
              | Some t \<Rightarrow> \<not> (Type t = TypingActive \<and> t1 - Last t < 3 * Second) \<and>
                  fst (Allow env (Limit t) t1))
          then out s1 = out s @ [\<lparr>Tags = [(''+typing'', ''active'')], Prefix = None,
                                 Command = ''TAGMSG'', Params = [tgt]\<rparr>] \<and> s2 = s1
          else out s1 = out s \<and>
               (out s2 = out s \<or>
                out s2 = out s @ [\<lparr>Tags = [(''+typing'', ''active'')], Prefix = None,
                                   Command = ''TAGMSG'', Params = [tgt]\<rparr>])))) \<and>
   (HasCapability s ''message-tags'' \<and> \<not> closed s \<longrightarrow>
      (\<exists>s1 s2. TypingStop env tgt t1 s = Returned s1 \<and> TypingStop env tgt t2 s1 = Returned s2 \<and>
         (if (case typingStamps s (Casemap env s tgt) of None \<Rightarrow> True
              | Some t \<Rightarrow> Type t \<noteq> TypingDone \<and> fst (Allow env (Limit t) t1))
          then out s1 = out s @ [\<lparr>Tags = [(''+typing'', ''done'')], Prefix = None,
                                 Command = ''TAGMSG'', Params = [tgt]\<rparr>] \<and> s2 = s1
          else out s1 = out s \<and>
               (out s2 = out s \<or>
                out s2 = out s @ [\<lparr>Tags = [(''+typing'', ''done'')], Prefix = None,
                                   Command = ''TAGMSG'', Params = [tgt]\<rparr>])) \<and>
         (case typingStamps s (Casemap env s tgt) of None \<Rightarrow> True
          | Some t \<Rightarrow> Type t = TypingDone \<longrightarrow> s1 = s \<and> s2 = s))) \<and>
   (\<not> HasCapability s ''message-tags'' \<longrightarrow>
      Typing env tgt t1 s = Returned s \<and> TypingStop env tgt t1 s = Returned s)"
proof (intro conjI impI)
  assume h: "HasCapability s ''message-tags'' \<and> \<not> closed s \<and> t2 - t1 < 3 * Second"
  let ?m = "\<lparr>Tags = [(''+typing'', ''active'')], Prefix = None, Command = ''TAGMSG'', Params = [tgt]\<rparr>"
  let ?c = "case typingStamps s (Casemap env s tgt) of None \<Rightarrow> True
              | Some t \<Rightarrow> \<not> (Type t = TypingActive \<and> t1 - Last t < 3 * Second) \<and>
                  fst (Allow env (Limit t) t1)"
  from h Typing_first[of s env tgt t1] obtain s1 where
    s1: "Typing env tgt t1 s = Returned s1" "\<not> closed s1" "HasCapability s1 ''message-tags''"
      "Casemap env s1 = Casemap env s"
      "if ?c then out s1 = out s @ [?m] \<and>
                 (\<exists>lim. typingStamps s1 (Casemap env s tgt) =
                    Some \<lparr>Last = t1, Type = TypingActive, Limit = lim\<rparr>)
       else out s1 = out s"
    by blast
  from s1(2,3) Typing_first[of s1 env tgt t2] obtain s2 where
    s2: "Typing env tgt t2 s1 = Returned s2" "out s2 = out s1 @ [?m] \<or> out s2 = out s1"
    by (metis (no_types, lifting))
  show "\<exists>s1 s2. Typing env tgt t1 s = Returned s1 \<and> Typing env tgt t2 s1 = Returned s2 \<and>
         (if ?c then out s1 = out s @ [?m] \<and> s2 = s1
          else out s1 = out s \<and> (out s2 = out s \<or> out s2 = out s @ [?m]))"
  proof (cases ?c)
    case True
    with s1(5) obtain lim where
      e: "out s1 = out s @ [?m]"
        "typingStamps s1 (Casemap env s tgt) = Some \<lparr>Last = t1, Type = TypingActive, Limit = lim\<rparr>"
      by auto
    from e(2) s1(4) have "typingStamps s1 (Casemap env s1 tgt) = Some \<lparr>Last = t1, Type = TypingActive, Limit = lim\<rparr>"
      by simp
    from Typing_suppressed[OF this, of t2] h have "Typing env tgt t2 s1 = Returned s1" by simp
    with s1(1) e(1) True show ?thesis by auto
  next
    case False
    with s1(5) have "out s1 = out s" by simp
    with s1(1) s2 False show ?thesis by auto
  qed
next
  assume h: "HasCapability s ''message-tags'' \<and> \<not> closed s"
  let ?m = "\<lparr>Tags = [(''+typing'', ''done'')], Prefix = None, Command = ''TAGMSG'', Params = [tgt]\<rparr>"
  let ?c = "case typingStamps s (Casemap env s tgt) of None \<Rightarrow> True
              | Some t \<Rightarrow> Type t \<noteq> TypingDone \<and> fst (Allow env (Limit t) t1)"
  let ?d = "case typingStamps s (Casemap env s tgt) of None \<Rightarrow> False | Some t \<Rightarrow> Type t = TypingDone"
  from h TypingStop_first[of s env tgt t1] obtain s1 where
    s1: "TypingStop env tgt t1 s = Returned s1" "\<not> closed s1" "HasCapability s1 ''message-tags''"
      "Casemap env s1 = Casemap env s"
      "if ?c then out s1 = out s @ [?m] \<and>
                 (\<exists>lim. typingStamps s1 (Casemap env s tgt) =
                    Some \<lparr>Last = t1, Type = TypingDone, Limit = lim\<rparr>)
       else out s1 = out s"
    by blast
  from s1(2,3) TypingStop_first[of s1 env tgt t2] obtain s2 where
    s2: "TypingStop env tgt t2 s1 = Returned s2" "out s2 = out s1 @ [?m] \<or> out s2 = out s1"
    by (metis (no_types, lifting))
  have dn: "s1 = s \<and> s2 = s" if d: "typingStamps s (Casemap env s tgt) = Some t" "Type t = TypingDone" for t
  proof -
    from TypingStop_suppressed[OF d, of t1] s1(1) have "s1 = s" by simp
    moreover from TypingStop_suppressed[OF d, of t2] s2(1) \<open>s1 = s\<close> have "s2 = s" by simp
    ultimately show ?thesis by simp
  qed
  have main: "if ?c then out s1 = out s @ [?m] \<and> s2 = s1
          else out s1 = out s \<and> (out s2 = out s \<or> out s2 = out s @ [?m])"
  proof (cases ?c)
    case True
    with s1(5) obtain lim where
      e: "out s1 = out s @ [?m]"
        "typingStamps s1 (Casemap env s tgt) = Some \<lparr>Last = t1, Type = TypingDone, Limit = lim\<rparr>"
      by auto
    from e(2) s1(4) have "typingStamps s1 (Casemap env s1 tgt) = Some \<lparr>Last = t1, Type = TypingDone, Limit = lim\<rparr>"
      by simp
    from TypingStop_suppressed[OF this, of t2] s2(1) have "s2 = s1" by simp
    with e(1) True show ?thesis by simp
  next
    case False
    with s1(5) have "out s1 = out s" by simp
    with s2 False show ?thesis by auto
  qed
  from s1(1) s2(1) main dn
  show "\<exists>s1 s2. TypingStop env tgt t1 s = Returned s1 \<and> TypingStop env tgt t2 s1 = Returned s2 \<and>
         (if ?c then out s1 = out s @ [?m] \<and> s2 = s1
          else out s1 = out s \<and> (out s2 = out s \<or> out s2 = out s @ [?m])) \<and>
         (case typingStamps s (Casemap env s tgt) of None \<Rightarrow> True
          | Some t \<Rightarrow> Type t = TypingDone \<longrightarrow> s1 = s \<and> s2 = s)"
    by (intro exI[of _ s1] exI[of _ s2]) (auto split: option.splits)
next
  assume "\<not> HasCapability s ''message-tags''"
  then show "Typing env tgt t1 s = Returned s" "TypingStop env tgt t1 s = Returned s"
    by (simp_all add: Typing_def TypingStop_def)
qed

text \<open>An instance: two calls of each function, 2 seconds apart, in a fresh session.\<close>

theorem typing_amended_witness:
  "HasCapability (sampleSession\<lparr>enabledCaps := {''message-tags''}\<rparr>) ''message-tags'' \<and>
   \<not> closed (sampleSession\<lparr>enabledCaps := {''message-tags''}\<rparr>) \<and>
   typingStamps (sampleSession\<lparr>enabledCaps := {''message-tags''}\<rparr>) ''#chan'' = None \<and>
   (\<exists>s1 s2. Typing sampleExterns ''#Chan'' 0 (sampleSession\<lparr>enabledCaps := {''message-tags''}\<rparr>) = Returned s1 \<and>
      Typing sampleExterns ''#Chan'' (2 * Second) s1 = Returned s2 \<and>
      out s1 = [\<lparr>Tags = [(''+typing'', ''active'')], Prefix = None, Command = ''TAGMSG'', Params = [''#Chan'']\<rparr>] \<and>
      s2 = s1) \<and>
   (\<exists>s1 s2. TypingStop sampleExterns ''#Chan'' 0 (sampleSession\<lparr>enabledCaps := {''message-tags''}\<rparr>) = Returned s1 \<and>
      TypingStop sampleExterns ''#Chan'' (2 * Second) s1 = Returned s2 \<and>
      out s1 = [\<lparr>Tags = [(''+typing'', ''done'')], Prefix = None, Command = ''TAGMSG'', Params = [''#Chan'']\<rparr>] \<and>
      s2 = s1)"
proof -
  let ?s = "sampleSession\<lparr>enabledCaps := {''message-tags''}\<rparr>"
  have k: "Casemap sampleExterns ?s ''#Chan'' = ''#chan''"
    by (simp add: sample_defs char_of_eq_iff)
  have h: "HasCapability ?s ''message-tags''" "\<not> closed ?s" "out ?s = []"
    "typingStamps ?s ''#chan'' = None" "2 * Second - 0 < 3 * Second"
    by (simp_all add: HasCapability_def sampleSession_def newSessionValue_def Second_def)
  from typing_amended[where s = ?s and env = sampleExterns and tgt = "''#Chan''" and ?t1.0 = 0
      and ?t2.0 = "2 * Second"] h k
  show ?thesis by simp
qed

text \<open>
  Claim C3 as stated fails: in a fresh session with the capability enabled, of three calls
  of \<open>TypingStop\<close> for a target the first sends \<open>+typing=done\<close>, and the second and the
  third, two consecutive calls with no \<open>Typing\<close> between them, send nothing and leave the
  session as it is.
\<close>

theorem typing_stop_repeated_sends_nothing:
  "TypingStop sampleExterns ''#Chan'' 0 (sampleSession\<lparr>enabledCaps := {''message-tags''}\<rparr>)
     = Returned (sampleSession\<lparr>enabledCaps := {''message-tags''},
          typingStamps := [''#chan'' \<mapsto> \<lparr>Last = 0, Type = TypingDone, Limit = 4\<rparr>],
          out := [\<lparr>Tags = [(''+typing'', ''done'')], Prefix = None, Command = ''TAGMSG'', Params = [''#Chan'']\<rparr>]\<rparr>) \<and>
   TypingStop sampleExterns ''#Chan'' Second
       (sampleSession\<lparr>enabledCaps := {''message-tags''},
          typingStamps := [''#chan'' \<mapsto> \<lparr>Last = 0, Type = TypingDone, Limit = 4\<rparr>],
          out := [\<lparr>Tags = [(''+typing'', ''done'')], Prefix = None, Command = ''TAGMSG'', Params = [''#Chan'']\<rparr>]\<rparr>)
     = Returned (sampleSession\<lparr>enabledCaps := {''message-tags''},
          typingStamps := [''#chan'' \<mapsto> \<lparr>Last = 0, Type = TypingDone, Limit = 4\<rparr>],
          out := [\<lparr>Tags = [(''+typing'', ''done'')], Prefix = None, Command = ''TAGMSG'', Params = [''#Chan'']\<rparr>]\<rparr>) \<and>
   TypingStop sampleExterns ''#Chan'' (2 * Second)
       (sampleSession\<lparr>enabledCaps := {''message-tags''},
          typingStamps := [''#chan'' \<mapsto> \<lparr>Last = 0, Type = TypingDone, Limit = 4\<rparr>],
          out := [\<lparr>Tags = [(''+typing'', ''done'')], Prefix = None, Command = ''TAGMSG'', Params = [''#Chan'']\<rparr>]\<rparr>)
     = Returned (sampleSession\<lparr>enabledCaps := {''message-tags''},
          typingStamps := [''#chan'' \<mapsto> \<lparr>Last = 0, Type = TypingDone, Limit = 4\<rparr>],
          out := [\<lparr>Tags = [(''+typing'', ''done'')], Prefix = None, Command = ''TAGMSG'', Params = [''#Chan'']\<rparr>]\<rparr>)"
proof -
  have k: "Casemap sampleExterns s ''#Chan'' = ''#chan''" if "casemap s = CasemapRFC1459"
    for s :: "((string \<times> string) list, nat) Session"
    using that by (simp add: Casemap_def sampleExterns_def rfc1459Byte_def lowerByte_def byteval_def
        char_of_eq_iff)
  have l: "Reserve sampleExterns (NewLimiter sampleExterns a b 5 0) 0 = 4" for a b
    by (simp add: sampleExterns_def)
  show ?thesis
    by (simp add: TypingStop_def HasCapability_def Let_def send_def typingMessage_def NewMessage_def
        WithTag_def k l sampleSession_def newSessionValue_def)
qed


section \<open>MONITOR numerics\<close>

lemma Split_alice_bob: "Split ''alice,bob'' (CHR '','') = [''alice'', ''bob'']"
  by code_simp

lemma handle_Monoffline:
  "Command msg = rplMonoffline \<Longrightarrow> handleMessageRegistered env msg playback now s = caseMonitor env True msg s"
  by (simp add: handleMessageRegistered_def numerics)

text \<open>
  Claim C7 fails on the code. The loop over the targets returns at the first target whose
  flag changes: with \<open>alice\<close> and \<open>bob\<close> both monitored and unknown, the numeric
  \<open>RPL_MONOFFLINE\<close> for \<open>alice,bob\<close> creates and flags \<open>alice\<close> and returns her event;
  \<open>bob\<close> is not looked at, no record is created for him and his state is not recorded.
\<close>

theorem monitor_stops_at_first_change:
  "\<exists>s1. handleMessageRegistered sampleExterns
           \<lparr>Tags = [], Prefix = None, Command = rplMonoffline, Params = [''Me'', ''alice,bob'']\<rparr>
           False 0 (sampleSession\<lparr>monitors := {''alice'', ''bob''}\<rparr>)
         = Returned (s1, Inr (Some (UserOfflineEvent ''alice''))) \<and>
       users s1 ''alice'' = Some 0 \<and> Disconnected (store s1 0) \<and>
       users s1 ''bob'' = None"
  by (simp add: handle_Monoffline caseMonitor_def Split_alice_bob ret_def ensureUser_def newUser_def
      sample_defs char_of_eq_iff zeroUser_def Let_def)

section \<open>Cleaning up a user that left its last channel\<close>

lemma isMember_delete: "isMember (c\<lparr>Members := AList.delete u0 (Members c)\<rparr>) u \<longleftrightarrow> u \<noteq> u0 \<and> isMember c u"
  by (auto simp: isMember_def delete_conv')

lemma isMember_set: "isMember c u \<longleftrightarrow> u \<in> set (map fst (Members c))"
  by (auto simp: isMember_def map_of_eq_None_iff)

lemma inChannel_iff: "inChannel s u \<longleftrightarrow> (\<exists>(k, c) \<in> set (channels s). isMember c u)"
  by (auto simp: inChannel_def list_ex_iff)

lemma list_ex_update_same:
  "map_of al k = Some c \<Longrightarrow> P (k, c') = P (k, c) \<Longrightarrow> list_ex P (AList.update k c' al) = list_ex P al"
  by (induction al) (auto split: if_splits)

lemma list_ex_update_weaker:
  "map_of al k = Some c \<Longrightarrow> (P (k, c') \<longrightarrow> P (k, c)) \<Longrightarrow> list_ex P (AList.update k c' al) \<Longrightarrow> list_ex P al"
  by (induction al) (auto split: if_splits)

lemma userKey_frame [simp]:
  "userKey env (s\<lparr>users := a\<rparr>) = userKey env s"
  "userKey env (s\<lparr>channels := b\<rparr>) = userKey env s"
  "userKey env (s\<lparr>typings := c\<rparr>) = userKey env s"
  by (simp_all add: userKey_def Casemap_def fun_eq_iff)

lemma inChannel_frame [simp]:
  "inChannel (s\<lparr>users := a\<rparr>) = inChannel s"
  "inChannel (s\<lparr>typings := c\<rparr>) = inChannel s"
  "inChannel (s\<lparr>store := d\<rparr>) = inChannel s"
  by (simp_all add: inChannel_def fun_eq_iff)

lemma cleanUser_eq:
  "cleanUser env s u =
     (if userKey env s u \<notin> monitors s \<and> \<not> inChannel s u
      then s\<lparr>users := (users s)(userKey env s u := None)\<rparr> else s)"
  by (simp add: cleanUser_def inChannel_def Let_def)

lemma cleanUser_frame [simp]:
  "channels (cleanUser env s u) = channels s"
  "monitors (cleanUser env s u) = monitors s"
  "store (cleanUser env s u) = store s"
  "userKey env (cleanUser env s u) = userKey env s"
  "inChannel (cleanUser env s u) = inChannel s"
  by (simp_all add: cleanUser_eq)

lemma cleanUser_users:
  "users (cleanUser env s u) k =
     (if k = userKey env s u \<and> k \<notin> monitors s \<and> \<not> inChannel s u then None else users s k)"
  by (auto simp: cleanUser_eq)

lemma foldl_cleanUser_frame [simp]:
  "channels (foldl (cleanUser env) s us) = channels s"
  "monitors (foldl (cleanUser env) s us) = monitors s"
  "store (foldl (cleanUser env) s us) = store s"
  "userKey env (foldl (cleanUser env) s us) = userKey env s"
  "inChannel (foldl (cleanUser env) s us) = inChannel s"
  by (induction us arbitrary: s) simp_all

lemma delMember_frame [simp]:
  "users (delMember k u s) = users s"
  "monitors (delMember k u s) = monitors s"
  "store (delMember k u s) = store s"
  "userKey env (delMember k u s) = userKey env s"
  by (simp_all add: delMember_def split: option.splits)

lemma delMember_inChannel_other:
  assumes "u \<noteq> u0"
  shows "inChannel (delMember k u0 s) u = inChannel s u"
proof (cases "map_of (channels s) k")
  case None
  then show ?thesis by (simp add: delMember_def)
next
  case (Some c)
  have "list_ex (\<lambda>(k, c). isMember c u) (AList.update k (c\<lparr>Members := AList.delete u0 (Members c)\<rparr>) (channels s))
      = list_ex (\<lambda>(k, c). isMember c u) (channels s)"
    using Some assms by (intro list_ex_update_same) (simp_all add: isMember_delete)
  with Some show ?thesis by (simp add: delMember_def inChannel_def)
qed

lemma delMember_inChannel_weaker:
  assumes "inChannel (delMember k u0 s) u"
  shows "inChannel s u"
proof (cases "map_of (channels s) k")
  case None
  with assms show ?thesis by (simp add: delMember_def)
next
  case (Some c)
  from assms Some
  have "list_ex (\<lambda>(k, c). isMember c u) (AList.update k (c\<lparr>Members := AList.delete u0 (Members c)\<rparr>) (channels s))"
    by (simp add: delMember_def inChannel_def)
  with Some have "list_ex (\<lambda>(k, c). isMember c u) (channels s)"
    by (elim list_ex_update_weaker[rotated 2]) (auto simp: isMember_delete)
  then show ?thesis by (simp add: inChannel_def)
qed

lemma delete_channel_member:
  assumes d: "distinct (map fst (channels s))" and c: "map_of (channels s) k = Some c"
    and i: "inChannel s u" and n: "\<not> inChannel (s\<lparr>channels := AList.delete k (channels s)\<rparr>) u"
  shows "isMember c u"
proof -
  from i obtain k' c' where kc: "(k', c') \<in> set (channels s)" "isMember c' u"
    by (auto simp: inChannel_iff)
  have "k' = k"
  proof (rule ccontr)
    assume "k' \<noteq> k"
    with kc have "(k', c') \<in> set (AList.delete k (channels s))" by (auto simp: AList.delete_eq)
    with kc(2) n show False by (auto simp: inChannel_iff)
  qed
  moreover from d kc(1) have "map_of (channels s) k' = Some c'" by simp
  ultimately have "c' = c" using c by simp
  with kc(2) show ?thesis by simp
qed

lemma foldl_cleanUser_users:
  "users (foldl (cleanUser env) s us) k =
     (if k \<notin> monitors s \<and> (\<exists>u \<in> set us. userKey env s u = k \<and> \<not> inChannel s u) then None
      else users s k)"
proof (induction us arbitrary: s)
  case Nil
  show ?case by simp
next
  case (Cons u us)
  show ?case by (auto simp: Cons.IH cleanUser_users)
qed

lemma partChannel_monitored:
  assumes run: "partChannel env n k who tm s = Returned (s', r)" and key: "key \<in> monitors s"
  shows "users s' key = users s key"
  using run key
  by (auto simp: partChannel_def ret_def Let_def foldl_cleanUser_users cleanUser_users
      split: if_splits option.splits)

lemma partChannel_last:
  assumes run: "partChannel env n k who tm s = Returned (s', r)"
    and d: "distinct (map fst (channels s))"
    and i: "inChannel s u" and ni: "\<not> inChannel s' u" and nm: "userKey env s u \<notin> monitors s"
  shows "users s' (userKey env s u) = None"
proof (cases "map_of (channels s) k")
  case None
  with run i ni show ?thesis by (auto simp: partChannel_def ret_def split: if_splits)
next
  case (Some c)
  show ?thesis
  proof (cases "IsMe env s n")
    case True
    let ?s1 = "s\<lparr>channels := AList.delete k (channels s)\<rparr>"
    from run Some True have s': "s' = foldl (cleanUser env) ?s1 (map fst (Members c))"
      by (simp add: partChannel_def ret_def Let_def)
    with ni have n1: "\<not> inChannel ?s1 u" by simp
    from delete_channel_member[OF d Some i n1] have "u \<in> set (map fst (Members c))"
      by (simp add: isMember_set)
    with n1 nm show ?thesis unfolding s' by (auto simp: foldl_cleanUser_users)
  next
    case False
    show ?thesis
    proof (cases "users s n")
      case None
      with run Some False i ni show ?thesis by (simp add: partChannel_def ret_def)
    next
      case (Some u0)
      let ?s1 = "delMember k u0 s"
      from run \<open>map_of (channels s) k = Some c\<close> False Some
      have s': "s' = (cleanUser env ?s1 u0)\<lparr>typings := typingsDone env (typings (cleanUser env ?s1 u0)) k n\<rparr>"
        by (simp add: partChannel_def ret_def Let_def)
      with ni have n1: "\<not> inChannel ?s1 u" by simp
      with i delMember_inChannel_other[of u u0 k s] have "u = u0" by auto
      with n1 nm show ?thesis unfolding s' by (simp add: cleanUser_users)
    qed
  qed
qed

lemma quitLoop_frame:
  "quitLoop env u0 n ks (s, chans) = (s', chans') \<Longrightarrow>
   monitors s' = monitors s \<and> store s' = store s \<and> userKey env s' = userKey env s"
proof (induction ks arbitrary: s chans)
  case Nil
  then show ?case by simp
next
  case (Cons k ks)
  show ?case
  proof (cases "map_of (channels s) k")
    case None
    with Cons.prems Cons.IH show ?thesis by simp
  next
    case (Some c)
    show ?thesis
    proof (cases "isMember c u0")
      case True
      with Cons.prems Some Cons.IH[of "(cleanUser env (delMember k u0 s) u0)\<lparr>typings :=
              typingsDone env (typings (cleanUser env (delMember k u0 s) u0)) k n\<rparr>" "chans @ [CName c]"]
      show ?thesis by (simp add: Let_def)
    next
      case False
      with Cons.prems Some Cons.IH show ?thesis by simp
    qed
  qed
qed

lemma quitLoop_monitored:
  "quitLoop env u0 n ks (s, chans) = (s', chans') \<Longrightarrow> key \<in> monitors s \<Longrightarrow> users s' key = users s key"
proof (induction ks arbitrary: s chans)
  case Nil
  then show ?case by simp
next
  case (Cons k ks)
  show ?case
  proof (cases "map_of (channels s) k")
    case None
    with Cons.prems Cons.IH show ?thesis by simp
  next
    case (Some c)
    show ?thesis
    proof (cases "isMember c u0")
      case True
      with Cons.prems Some Cons.IH[of "(cleanUser env (delMember k u0 s) u0)\<lparr>typings :=
              typingsDone env (typings (cleanUser env (delMember k u0 s) u0)) k n\<rparr>" "chans @ [CName c]"]
      show ?thesis by (simp add: Let_def cleanUser_users)
    next
      case False
      with Cons.prems Some Cons.IH show ?thesis by simp
    qed
  qed
qed

lemma quitLoop_other:
  "quitLoop env u0 n ks (s, chans) = (s', chans') \<Longrightarrow> u \<noteq> u0 \<Longrightarrow> inChannel s' u = inChannel s u"
proof (induction ks arbitrary: s chans)
  case Nil
  then show ?case by simp
next
  case (Cons k ks)
  show ?case
  proof (cases "map_of (channels s) k")
    case None
    with Cons.prems Cons.IH show ?thesis by simp
  next
    case (Some c)
    show ?thesis
    proof (cases "isMember c u0")
      case True
      with Cons.prems Some Cons.IH[of "(cleanUser env (delMember k u0 s) u0)\<lparr>typings :=
              typingsDone env (typings (cleanUser env (delMember k u0 s) u0)) k n\<rparr>" "chans @ [CName c]"]
      show ?thesis by (simp add: Let_def delMember_inChannel_other)
    next
      case False
      with Cons.prems Some Cons.IH show ?thesis by simp
    qed
  qed
qed

lemma settled_step:
  "settled env ((cleanUser env (delMember k u0 s) u0)\<lparr>typings := ty\<rparr>) u0"
  by (auto simp: settled_def cleanUser_users)

lemma quitLoop_settled:
  "quitLoop env u0 n ks (s, chans) = (s', chans') \<Longrightarrow> settled env s u0 \<Longrightarrow> settled env s' u0"
proof (induction ks arbitrary: s chans)
  case Nil
  then show ?case by simp
next
  case (Cons k ks)
  show ?case
  proof (cases "map_of (channels s) k")
    case None
    with Cons.prems Cons.IH show ?thesis by simp
  next
    case (Some c)
    show ?thesis
    proof (cases "isMember c u0")
      case True
      with Cons.prems Some Cons.IH[of "(cleanUser env (delMember k u0 s) u0)\<lparr>typings :=
              typingsDone env (typings (cleanUser env (delMember k u0 s) u0)) k n\<rparr>" "chans @ [CName c]"]
      show ?thesis by (simp add: Let_def settled_step)
    next
      case False
      with Cons.prems Some Cons.IH show ?thesis by simp
    qed
  qed
qed

lemma ret_Returned [simp]: "ret s ev = Returned (s', r) \<longleftrightarrow> s' = s \<and> r = Inr ev"
  by (auto simp: ret_def)

lemma fail_Returned [simp]: "fail s e = Returned (s', r) \<longleftrightarrow> s' = s \<and> r = Inl e"
  by (auto simp: fail_def)

lemma casePART_cases:
  assumes "casePART env msg playback now s = Returned (s', r)"
  shows "s' = s \<or> (\<exists>n k who tm. partChannel env n k who tm s = Returned (s', r))"
  using assms by (auto simp: casePART_def Let_def split: option.splits if_splits)

lemma caseKICK_cases:
  assumes "caseKICK env msg playback now s = Returned (s', r)"
  shows "s' = s \<or> (\<exists>n k who tm. partChannel env n k who tm s = Returned (s', r))"
  using assms by (auto simp: caseKICK_def Let_def split: option.splits if_splits)

lemma caseQUIT_cases:
  assumes "caseQUIT env msg playback now s = Returned (s', r)"
  shows "s' = s \<or> (\<exists>u0 n chans.
           quitLoop env u0 n (map fst (channels s))
             (s\<lparr>store := (store s)(u0 := (store s u0)\<lparr>Disconnected := True\<rparr>)\<rparr>, []) = (s', chans))"
  using assms by (auto simp: caseQUIT_def Let_def split: option.splits if_splits prod.splits)

lemma userKey_Disconnected [simp]:
  "userKey env (s\<lparr>store := (store s)(u0 := (store s u0)\<lparr>Disconnected := b\<rparr>)\<rparr>) = userKey env s"
  by (auto simp: userKey_def Casemap_def fun_eq_iff split: casemapping.splits)

lemma handle_roster_cases:
  assumes cmd: "Command msg \<in> {''PART'', ''KICK'', ''QUIT''}"
    and run: "handleMessageRegistered env msg playback now s = Returned (s', r)"
  shows "s' = s \<or> (\<exists>n k who tm. partChannel env n k who tm s = Returned (s', r)) \<or>
         (\<exists>u0 n chans.
           quitLoop env u0 n (map fst (channels s))
             (s\<lparr>store := (store s)(u0 := (store s u0)\<lparr>Disconnected := True\<rparr>)\<rparr>, []) = (s', chans))"
proof -
  from cmd consider "Command msg = ''PART''" | "Command msg = ''KICK''" | "Command msg = ''QUIT''" by auto
  then show ?thesis
  proof cases
    case 1
    with run have "casePART env msg playback now s = Returned (s', r)"
      by (simp add: handleMessageRegistered_def numerics)
    from casePART_cases[OF this] show ?thesis by blast
  next
    case 2
    with run have "caseKICK env msg playback now s = Returned (s', r)"
      by (simp add: handleMessageRegistered_def numerics)
    from caseKICK_cases[OF this] show ?thesis by blast
  next
    case 3
    with run have "caseQUIT env msg playback now s = Returned (s', r)"
      by (simp add: handleMessageRegistered_def numerics)
    from caseQUIT_cases[OF this] show ?thesis by blast
  qed
qed

text \<open>
  After PART, KICK or QUIT no entry of the roster under a monitored key has changed, and
  for every user that was in some channel before and is in none after, the entry under the
  casemapped form of its name is gone when that name is not monitored.
\<close>

lemma roster_cleanup_key:
  assumes cmd: "Command msg \<in> {''PART'', ''KICK'', ''QUIT''}"
    and run: "handleMessageRegistered env msg playback now s = Returned (s', r)"
    and kd: "keysDistinct s"
  shows "(\<forall>k \<in> monitors s. users s' k = users s k) \<and>
         (\<forall>u. inChannel s u \<and> \<not> inChannel s' u \<and> userKey env s u \<notin> monitors s \<longrightarrow>
              users s' (userKey env s u) = None) \<and>
         (\<forall>u. inChannel s u \<and> \<not> inChannel s' u \<and> users s (userKey env s u) = Some u \<longrightarrow>
              (users s' (userKey env s u) = None \<longleftrightarrow> userKey env s u \<notin> monitors s))"
proof -
  note cases = handle_roster_cases[OF cmd run]
  from kd have d: "distinct (map fst (channels s))" by (simp add: keysDistinct_def)
  have mon: "\<forall>k \<in> monitors s. users s' k = users s k"
  proof -
    from cases consider (same) "s' = s"
      | (part) n k who tm where "partChannel env n k who tm s = Returned (s', r)"
      | (quit) u0 n chans where "quitLoop env u0 n (map fst (channels s))
               (s\<lparr>store := (store s)(u0 := (store s u0)\<lparr>Disconnected := True\<rparr>)\<rparr>, []) = (s', chans)"
      by blast
    then show ?thesis
    proof cases
      case same
      then show ?thesis by simp
    next
      case part
      from partChannel_monitored[OF part] show ?thesis by blast
    next
      case quit
      from quitLoop_monitored[OF quit] show ?thesis by simp
    qed
  qed
  have last: "users s' (userKey env s u) = None"
    if h: "inChannel s u \<and> \<not> inChannel s' u \<and> userKey env s u \<notin> monitors s" for u
  proof -
    from cases consider (same) "s' = s"
      | (part) n k who tm where "partChannel env n k who tm s = Returned (s', r)"
      | (quit) u0 n chans where "quitLoop env u0 n (map fst (channels s))
               (s\<lparr>store := (store s)(u0 := (store s u0)\<lparr>Disconnected := True\<rparr>)\<rparr>, []) = (s', chans)"
      by blast
    then show ?thesis
    proof cases
      case same
      with h show ?thesis by blast
    next
      case part
      from partChannel_last[OF part d] h show ?thesis by blast
    next
      case quit
      let ?s1 = "s\<lparr>store := (store s)(u0 := (store s u0)\<lparr>Disconnected := True\<rparr>)\<rparr>"
      have "u = u0"
      proof (rule ccontr)
        assume "u \<noteq> u0"
        from quitLoop_other[OF quit this] h show False by simp
      qed
      moreover from h have "settled env ?s1 u" by (simp add: settled_def)
      ultimately have "settled env s' u0" using quitLoop_settled[OF quit] by simp
      moreover from quitLoop_frame[OF quit] have "userKey env s' = userKey env s" "monitors s' = monitors s"
        by simp_all
      ultimately show ?thesis using h \<open>u = u0\<close> by (simp add: settled_def)
    qed
  qed
  from mon last show ?thesis by auto
qed

text \<open>The three commands only ever remove entries from the roster.\<close>

lemma partChannel_shrinks:
  assumes run: "partChannel env n k who tm s = Returned (s', r)"
  shows "users s' key = users s key \<or> users s' key = None"
  using run
  by (auto simp: partChannel_def ret_def Let_def foldl_cleanUser_users cleanUser_users
      split: if_splits option.splits)

lemma quitLoop_shrinks:
  "quitLoop env u0 n ks (s, chans) = (s', chans') \<Longrightarrow> users s' key = users s key \<or> users s' key = None"
proof (induction ks arbitrary: s chans)
  case Nil
  then show ?case by simp
next
  case (Cons k ks)
  show ?case
  proof (cases "map_of (channels s) k")
    case None
    with Cons.prems Cons.IH show ?thesis by simp
  next
    case (Some c)
    show ?thesis
    proof (cases "isMember c u0")
      case True
      with Cons.prems Some Cons.IH[of "(cleanUser env (delMember k u0 s) u0)\<lparr>typings :=
              typingsDone env (typings (cleanUser env (delMember k u0 s) u0)) k n\<rparr>" "chans @ [CName c]"]
      show ?thesis by (auto simp: Let_def cleanUser_users split: if_splits)
    next
      case False
      with Cons.prems Some Cons.IH show ?thesis by simp
    qed
  qed
qed

lemma roster_shrinks:
  assumes cmd: "Command msg \<in> {''PART'', ''KICK'', ''QUIT''}"
    and run: "handleMessageRegistered env msg playback now s = Returned (s', r)"
  shows "users s' key = users s key \<or> users s' key = None"
proof -
  from handle_roster_cases[OF cmd run] consider (same) "s' = s"
    | (part) n k who tm where "partChannel env n k who tm s = Returned (s', r)"
    | (quit) u0 n chans where "quitLoop env u0 n (map fst (channels s))
             (s\<lparr>store := (store s)(u0 := (store s u0)\<lparr>Disconnected := True\<rparr>)\<rparr>, []) = (s', chans)"
    by blast
  then show ?thesis
  proof cases
    case same
    then show ?thesis by simp
  next
    case part
    from partChannel_shrinks[OF part] show ?thesis .
  next
    case quit
    from quitLoop_shrinks[OF quit, of key] show ?thesis by simp
  qed
qed

text \<open>
  Claim C2, as amended. For every user record that the roster holds under the casemapped
  form of its name and under no other key, in a session whose channel list holds each key
  once: whenever the handling of PART, KICK or QUIT removes the user's last remaining
  channel membership, the user is deleted from the users map (no key leads to it any more)
  if and only if its casemapped name is not in the monitor set; and no entry of the users
  map under a key of the monitor set is changed by this cleanup, whatever the channel
  memberships. A Go map holds each key once, and \<open>handleMessageRegistered_keysDistinct\<close>
  below shows that the channel list does too; \<open>handleMessageRegistered_rosterKeyed\<close>
  below shows that the roster holds every record under its casemapped name, and only there,
  as long as no message has changed the casemapping.
\<close>

theorem last_membership_cleanup_amended:
  assumes cmd: "Command msg \<in> {''PART'', ''KICK'', ''QUIT''}"
    and run: "handleMessageRegistered env msg playback now s = Returned (s', r)"
    and kd: "keysDistinct s"
    and rec: "\<forall>k. users s k = Some u \<longleftrightarrow> k = userKey env s u"
    and i: "inChannel s u" and ni: "\<not> inChannel s' u"
  shows "((\<forall>k. users s' k \<noteq> Some u) \<longleftrightarrow> userKey env s u \<notin> monitors s) \<and>
         (\<forall>k \<in> monitors s. users s' k = users s k)"
proof -
  from roster_cleanup_key[OF cmd run kd]
  have mon: "\<forall>k \<in> monitors s. users s' k = users s k"
    and gone: "userKey env s u \<notin> monitors s \<Longrightarrow> users s' (userKey env s u) = None"
    using i ni by blast+
  have "\<forall>k. users s' k \<noteq> Some u" if nm: "userKey env s u \<notin> monitors s"
  proof (intro allI notI)
    fix k assume a: "users s' k = Some u"
    with roster_shrinks[OF cmd run, of k] have "users s k = Some u" by auto
    with rec have "k = userKey env s u" by blast
    with gone[OF nm] a show False by simp
  qed
  moreover have "users s' (userKey env s u) = Some u" if m: "userKey env s u \<in> monitors s"
  proof -
    from rec have "users s (userKey env s u) = Some u" by blast
    with mon m show ?thesis by simp
  qed
  ultimately show ?thesis using mon by blast
qed

text \<open>An instance: a user leaves the only channel it was in.\<close>

theorem last_membership_cleanup_amended_witness:
  "\<exists>s'. handleMessageRegistered sampleExterns
           \<lparr>Tags = [], Prefix = Some \<lparr>Name = ''alice'', User = [], Host = []\<rparr>,
            Command = ''PART'', Params = [''#chan'']\<rparr> False 0
           (sampleSession\<lparr>users := [''alice'' \<mapsto> 0],
              channels := [(''#chan'', (emptyChannel ''#chan'')\<lparr>Members := [(0, [])]\<rparr>)],
              store := (\<lambda>_. zeroUser)(0 := zeroUser\<lparr>UName := \<lparr>Name = ''alice'', User = [], Host = []\<rparr>\<rparr>),
              nextRef := 1\<rparr>)
         = Returned (s', Inr (Some (UserPartEvent ''alice'' ''#chan'' 0))) \<and>
       inChannel (sampleSession\<lparr>users := [''alice'' \<mapsto> 0],
              channels := [(''#chan'', (emptyChannel ''#chan'')\<lparr>Members := [(0, [])]\<rparr>)],
              store := (\<lambda>_. zeroUser)(0 := zeroUser\<lparr>UName := \<lparr>Name = ''alice'', User = [], Host = []\<rparr>\<rparr>),
              nextRef := 1\<rparr>) 0 \<and>
       \<not> inChannel s' 0 \<and> (\<forall>k. users s' k \<noteq> Some 0)"
proof -
  let ?s = "sampleSession\<lparr>users := [''alice'' \<mapsto> 0],
              channels := [(''#chan'', (emptyChannel ''#chan'')\<lparr>Members := [(0, [])]\<rparr>)],
              store := (\<lambda>_. zeroUser)(0 := zeroUser\<lparr>UName := \<lparr>Name = ''alice'', User = [], Host = []\<rparr>\<rparr>),
              nextRef := 1\<rparr>"
  let ?m = "\<lparr>Tags = [], Prefix = Some \<lparr>Name = ''alice'', User = [], Host = []\<rparr>,
            Command = ''PART'', Params = [''#chan'']\<rparr>"
  have k: "userKey sampleExterns ?s 0 = ''alice''"
    by (simp add: userKey_def sample_defs zeroUser_def char_of_eq_iff)
  have i: "inChannel ?s 0" "keysDistinct ?s" "monitors ?s = {}"
    by (simp_all add: inChannel_def keysDistinct_def isMember_def emptyChannel_def sampleSession_def
        newSessionValue_def)
  have u: "\<forall>k. users ?s k = Some 0 \<longleftrightarrow> k = userKey sampleExterns ?s 0"
    unfolding k by (simp add: sampleSession_def newSessionValue_def)
  have "\<exists>s'. handleMessageRegistered sampleExterns ?m False 0 ?s
         = Returned (s', Inr (Some (UserPartEvent ''alice'' ''#chan'' 0))) \<and> \<not> inChannel s' 0"
    by (simp add: handleMessageRegistered_def numerics casePART_def partChannel_def ParseParams_def
        IsMe_def delMember_def cleanUser_def userKey_def inChannel_def isMember_def emptyChannel_def
        Let_def sample_defs zeroUser_def char_of_eq_iff)
  then obtain s' where s': "handleMessageRegistered sampleExterns ?m False 0 ?s
         = Returned (s', Inr (Some (UserPartEvent ''alice'' ''#chan'' 0)))" "\<not> inChannel s' 0" by blast
  from last_membership_cleanup_amended[OF _ s'(1) i(2) u i(1) s'(2)] i(3)
  have "\<forall>k. users s' k \<noteq> Some 0" by simp
  with s' i(1) show ?thesis by blast
qed

text \<open>
  Claim C2 as stated fails when the server changes the casemapping after a user has been
  recorded. The session joins \<open>#c\<close>, \<open>alice[\<close> joins it and is recorded under \<open>alice{\<close>
  (RFC 1459 casemapping), the server announces \<open>CASEMAPPING=ascii\<close>, and the session
  leaves \<open>#c\<close>. That removes the last channel membership of \<open>alice[\<close>, whose casemapped
  name \<open>alice[\<close> is not monitored; \<open>cleanUser\<close> deletes the key \<open>alice[\<close>, which the
  roster does not hold, and the record stays in the users map under \<open>alice{\<close>.
\<close>

theorem stale_key_survives_cleanup:
  "handleMessageRegistered sampleExterns
     \<lparr>Tags = [], Prefix = Some \<lparr>Name = ''Me'', User = [], Host = []\<rparr>, Command = ''JOIN'', Params = [''#c'']\<rparr>
     False 0 sampleSession
   = Returned (sampleSession\<lparr>channels := [(''#c'', emptyChannel ''#c'')]\<rparr>, Inr None) \<and>
   handleMessageRegistered sampleExterns
     \<lparr>Tags = [], Prefix = Some \<lparr>Name = ''alice['', User = [], Host = []\<rparr>, Command = ''JOIN'', Params = [''#c'']\<rparr>
     False 0 (sampleSession\<lparr>channels := [(''#c'', emptyChannel ''#c'')]\<rparr>)
   = Returned (sampleSession\<lparr>users := [''alice{'' \<mapsto> 0],
        channels := [(''#c'', (emptyChannel ''#c'')\<lparr>Members := [(0, [])]\<rparr>)],
        store := (\<lambda>_. zeroUser)(0 := \<lparr>UName = \<lparr>Name = ''alice['', User = [], Host = []\<rparr>,
                                        Away = False, Disconnected = False\<rparr>),
        nextRef := 1\<rparr>, Inr (Some (UserJoinEvent ''alice['' ''#c'' 0))) \<and>
   handleMessageRegistered sampleExterns
     \<lparr>Tags = [], Prefix = None, Command = ''005'', Params = [''Me'', ''CASEMAPPING=ascii'', ''are supported'']\<rparr>
     False 0 (sampleSession\<lparr>users := [''alice{'' \<mapsto> 0],
        channels := [(''#c'', (emptyChannel ''#c'')\<lparr>Members := [(0, [])]\<rparr>)],
        store := (\<lambda>_. zeroUser)(0 := \<lparr>UName = \<lparr>Name = ''alice['', User = [], Host = []\<rparr>,
                                        Away = False, Disconnected = False\<rparr>),
        nextRef := 1\<rparr>)
   = Returned (sampleSession\<lparr>casemap := CasemapASCII, users := [''alice{'' \<mapsto> 0],
        channels := [(''#c'', (emptyChannel ''#c'')\<lparr>Members := [(0, [])]\<rparr>)],
        store := (\<lambda>_. zeroUser)(0 := \<lparr>UName = \<lparr>Name = ''alice['', User = [], Host = []\<rparr>,
                                        Away = False, Disconnected = False\<rparr>),
        nextRef := 1\<rparr>, Inr (Some RegisteredEvent)) \<and>
   handleMessageRegistered sampleExterns
     \<lparr>Tags = [], Prefix = Some \<lparr>Name = ''Me'', User = [], Host = []\<rparr>, Command = ''PART'', Params = [''#c'']\<rparr>
     False 0 (sampleSession\<lparr>casemap := CasemapASCII, users := [''alice{'' \<mapsto> 0],
        channels := [(''#c'', (emptyChannel ''#c'')\<lparr>Members := [(0, [])]\<rparr>)],
        store := (\<lambda>_. zeroUser)(0 := \<lparr>UName = \<lparr>Name = ''alice['', User = [], Host = []\<rparr>,
                                        Away = False, Disconnected = False\<rparr>),
        nextRef := 1\<rparr>)
   = Returned (sampleSession\<lparr>casemap := CasemapASCII, users := [''alice{'' \<mapsto> 0],
        channels := [],
        store := (\<lambda>_. zeroUser)(0 := \<lparr>UName = \<lparr>Name = ''alice['', User = [], Host = []\<rparr>,
                                        Away = False, Disconnected = False\<rparr>),
        nextRef := 1\<rparr>, Inr (Some (SelfPartEvent ''#c''))) \<and>
   users
     (sampleSession\<lparr>casemap := CasemapASCII, users := [''alice{'' \<mapsto> 0],
        channels := [(''#c'', (emptyChannel ''#c'')\<lparr>Members := [(0, [])]\<rparr>)],
        store := (\<lambda>_. zeroUser)(0 := \<lparr>UName = \<lparr>Name = ''alice['', User = [], Host = []\<rparr>,
                                        Away = False, Disconnected = False\<rparr>),
        nextRef := 1\<rparr>) ''alice{'' = Some 0 \<and>
   inChannel
     (sampleSession\<lparr>casemap := CasemapASCII, users := [''alice{'' \<mapsto> 0],
        channels := [(''#c'', (emptyChannel ''#c'')\<lparr>Members := [(0, [])]\<rparr>)],
        store := (\<lambda>_. zeroUser)(0 := \<lparr>UName = \<lparr>Name = ''alice['', User = [], Host = []\<rparr>,
                                        Away = False, Disconnected = False\<rparr>),
        nextRef := 1\<rparr>) 0 \<and>
   userKey sampleExterns
     (sampleSession\<lparr>casemap := CasemapASCII, users := [''alice{'' \<mapsto> 0],
        channels := [(''#c'', (emptyChannel ''#c'')\<lparr>Members := [(0, [])]\<rparr>)],
        store := (\<lambda>_. zeroUser)(0 := \<lparr>UName = \<lparr>Name = ''alice['', User = [], Host = []\<rparr>,
                                        Away = False, Disconnected = False\<rparr>),
        nextRef := 1\<rparr>) 0 = ''alice['' \<and>
   ''alice['' \<notin> monitors
     (sampleSession\<lparr>casemap := CasemapASCII, users := [''alice{'' \<mapsto> 0],
        channels := [(''#c'', (emptyChannel ''#c'')\<lparr>Members := [(0, [])]\<rparr>)],
        store := (\<lambda>_. zeroUser)(0 := \<lparr>UName = \<lparr>Name = ''alice['', User = [], Host = []\<rparr>,
                                        Away = False, Disconnected = False\<rparr>),
        nextRef := 1\<rparr>) \<and>
   keysDistinct
     (sampleSession\<lparr>casemap := CasemapASCII, users := [''alice{'' \<mapsto> 0],
        channels := [(''#c'', (emptyChannel ''#c'')\<lparr>Members := [(0, [])]\<rparr>)],
        store := (\<lambda>_. zeroUser)(0 := \<lparr>UName = \<lparr>Name = ''alice['', User = [], Host = []\<rparr>,
                                        Away = False, Disconnected = False\<rparr>),
        nextRef := 1\<rparr>) \<and>
   \<not> inChannel
     (sampleSession\<lparr>casemap := CasemapASCII, users := [''alice{'' \<mapsto> 0],
        channels := [],
        store := (\<lambda>_. zeroUser)(0 := \<lparr>UName = \<lparr>Name = ''alice['', User = [], Host = []\<rparr>,
                                        Away = False, Disconnected = False\<rparr>),
        nextRef := 1\<rparr>) 0 \<and>
   users
     (sampleSession\<lparr>casemap := CasemapASCII, users := [''alice{'' \<mapsto> 0],
        channels := [],
        store := (\<lambda>_. zeroUser)(0 := \<lparr>UName = \<lparr>Name = ''alice['', User = [], Host = []\<rparr>,
                                        Away = False, Disconnected = False\<rparr>),
        nextRef := 1\<rparr>) ''alice{'' = Some 0"
proof -
  have mk: "rfc1459Byte CHR ''M'' = CHR ''m''" "lowerByte CHR ''M'' = CHR ''m''"
    "rfc1459Byte CHR ''e'' = CHR ''e''" "lowerByte CHR ''e'' = CHR ''e''"
    "rfc1459Byte CHR ''m'' = CHR ''m''" "lowerByte CHR ''m'' = CHR ''m''"
    "rfc1459Byte CHR ''#'' = CHR ''#''" "lowerByte CHR ''#'' = CHR ''#''"
    "rfc1459Byte CHR ''c'' = CHR ''c''" "lowerByte CHR ''c'' = CHR ''c''"
    "rfc1459Byte CHR ''a'' = CHR ''a''" "lowerByte CHR ''a'' = CHR ''a''"
    "rfc1459Byte CHR ''l'' = CHR ''l''" "lowerByte CHR ''l'' = CHR ''l''"
    "rfc1459Byte CHR ''i'' = CHR ''i''" "lowerByte CHR ''i'' = CHR ''i''"
    "rfc1459Byte CHR ''['' = CHR ''{''" "lowerByte CHR ''['' = CHR ''[''"
    "rfc1459Byte CHR ''{'' = CHR ''{''" "lowerByte CHR ''{'' = CHR ''{''"
    by (simp_all add: rfc1459Byte_def lowerByte_def byteval_def char_of_eq_iff)
  have j1: "handleMessageRegistered sampleExterns
     \<lparr>Tags = [], Prefix = Some \<lparr>Name = ''Me'', User = [], Host = []\<rparr>, Command = ''JOIN'', Params = [''#c'']\<rparr>
     False 0 sampleSession
   = Returned (sampleSession\<lparr>channels := [(''#c'', emptyChannel ''#c'')]\<rparr>, Inr None)"
    by (simp add: handleMessageRegistered_def numerics caseJOIN_def ParseParams_def IsMe_def Let_def
        ret_def Casemap_def sampleSession_def newSessionValue_def sampleExterns_def mk)
  have j2: "handleMessageRegistered sampleExterns
     \<lparr>Tags = [], Prefix = Some \<lparr>Name = ''alice['', User = [], Host = []\<rparr>, Command = ''JOIN'', Params = [''#c'']\<rparr>
     False 0 (sampleSession\<lparr>channels := [(''#c'', emptyChannel ''#c'')]\<rparr>)
   = Returned (sampleSession\<lparr>users := [''alice{'' \<mapsto> 0],
        channels := [(''#c'', (emptyChannel ''#c'')\<lparr>Members := [(0, [])]\<rparr>)],
        store := (\<lambda>_. zeroUser)(0 := \<lparr>UName = \<lparr>Name = ''alice['', User = [], Host = []\<rparr>,
                                        Away = False, Disconnected = False\<rparr>),
        nextRef := 1\<rparr>, Inr (Some (UserJoinEvent ''alice['' ''#c'' 0)))"
    by (simp add: handleMessageRegistered_def numerics caseJOIN_def ParseParams_def IsMe_def Let_def
        ret_def Casemap_def ensureUser_def newUser_def setMember_def emptyChannel_def
        sampleSession_def newSessionValue_def sampleExterns_def mk)
  have j3: "handleMessageRegistered sampleExterns
     \<lparr>Tags = [], Prefix = None, Command = ''005'', Params = [''Me'', ''CASEMAPPING=ascii'', ''are supported'']\<rparr>
     False 0 (sampleSession\<lparr>users := [''alice{'' \<mapsto> 0],
        channels := [(''#c'', (emptyChannel ''#c'')\<lparr>Members := [(0, [])]\<rparr>)],
        store := (\<lambda>_. zeroUser)(0 := \<lparr>UName = \<lparr>Name = ''alice['', User = [], Host = []\<rparr>,
                                        Away = False, Disconnected = False\<rparr>),
        nextRef := 1\<rparr>)
   = Returned (sampleSession\<lparr>casemap := CasemapASCII, users := [''alice{'' \<mapsto> 0],
        channels := [(''#c'', (emptyChannel ''#c'')\<lparr>Members := [(0, [])]\<rparr>)],
        store := (\<lambda>_. zeroUser)(0 := \<lparr>UName = \<lparr>Name = ''alice['', User = [], Host = []\<rparr>,
                                        Away = False, Disconnected = False\<rparr>),
        nextRef := 1\<rparr>, Inr (Some RegisteredEvent))"
    by (simp add: handleMessageRegistered_def numerics caseIsupport_def updateFeature_def SplitN_2
        HasPrefix_def ToUpper_def upperByte_def byteval_def Let_def ret_def
        sampleSession_def newSessionValue_def sampleExterns_def)
  have j4: "handleMessageRegistered sampleExterns
     \<lparr>Tags = [], Prefix = Some \<lparr>Name = ''Me'', User = [], Host = []\<rparr>, Command = ''PART'', Params = [''#c'']\<rparr>
     False 0 (sampleSession\<lparr>casemap := CasemapASCII, users := [''alice{'' \<mapsto> 0],
        channels := [(''#c'', (emptyChannel ''#c'')\<lparr>Members := [(0, [])]\<rparr>)],
        store := (\<lambda>_. zeroUser)(0 := \<lparr>UName = \<lparr>Name = ''alice['', User = [], Host = []\<rparr>,
                                        Away = False, Disconnected = False\<rparr>),
        nextRef := 1\<rparr>)
   = Returned (sampleSession\<lparr>casemap := CasemapASCII, users := [''alice{'' \<mapsto> 0],
        channels := [],
        store := (\<lambda>_. zeroUser)(0 := \<lparr>UName = \<lparr>Name = ''alice['', User = [], Host = []\<rparr>,
                                        Away = False, Disconnected = False\<rparr>),
        nextRef := 1\<rparr>, Inr (Some (SelfPartEvent ''#c'')))"
    by (simp add: handleMessageRegistered_def numerics casePART_def partChannel_def ParseParams_def
        IsMe_def Let_def ret_def Casemap_def cleanUser_def userKey_def inChannel_def emptyChannel_def
        sampleSession_def newSessionValue_def sampleExterns_def mk)
  have f: "users
     (sampleSession\<lparr>casemap := CasemapASCII, users := [''alice{'' \<mapsto> 0],
        channels := [(''#c'', (emptyChannel ''#c'')\<lparr>Members := [(0, [])]\<rparr>)],
        store := (\<lambda>_. zeroUser)(0 := \<lparr>UName = \<lparr>Name = ''alice['', User = [], Host = []\<rparr>,
                                        Away = False, Disconnected = False\<rparr>),
        nextRef := 1\<rparr>) ''alice{'' = Some 0"
    "inChannel
     (sampleSession\<lparr>casemap := CasemapASCII, users := [''alice{'' \<mapsto> 0],
        channels := [(''#c'', (emptyChannel ''#c'')\<lparr>Members := [(0, [])]\<rparr>)],
        store := (\<lambda>_. zeroUser)(0 := \<lparr>UName = \<lparr>Name = ''alice['', User = [], Host = []\<rparr>,
                                        Away = False, Disconnected = False\<rparr>),
        nextRef := 1\<rparr>) 0"
    "userKey sampleExterns
     (sampleSession\<lparr>casemap := CasemapASCII, users := [''alice{'' \<mapsto> 0],
        channels := [(''#c'', (emptyChannel ''#c'')\<lparr>Members := [(0, [])]\<rparr>)],
        store := (\<lambda>_. zeroUser)(0 := \<lparr>UName = \<lparr>Name = ''alice['', User = [], Host = []\<rparr>,
                                        Away = False, Disconnected = False\<rparr>),
        nextRef := 1\<rparr>) 0 = ''alice[''"
    "''alice['' \<notin> monitors
     (sampleSession\<lparr>casemap := CasemapASCII, users := [''alice{'' \<mapsto> 0],
        channels := [(''#c'', (emptyChannel ''#c'')\<lparr>Members := [(0, [])]\<rparr>)],
        store := (\<lambda>_. zeroUser)(0 := \<lparr>UName = \<lparr>Name = ''alice['', User = [], Host = []\<rparr>,
                                        Away = False, Disconnected = False\<rparr>),
        nextRef := 1\<rparr>)"
    "keysDistinct
     (sampleSession\<lparr>casemap := CasemapASCII, users := [''alice{'' \<mapsto> 0],
        channels := [(''#c'', (emptyChannel ''#c'')\<lparr>Members := [(0, [])]\<rparr>)],
        store := (\<lambda>_. zeroUser)(0 := \<lparr>UName = \<lparr>Name = ''alice['', User = [], Host = []\<rparr>,
                                        Away = False, Disconnected = False\<rparr>),
        nextRef := 1\<rparr>)"
    "\<not> inChannel
     (sampleSession\<lparr>casemap := CasemapASCII, users := [''alice{'' \<mapsto> 0],
        channels := [],
        store := (\<lambda>_. zeroUser)(0 := \<lparr>UName = \<lparr>Name = ''alice['', User = [], Host = []\<rparr>,
                                        Away = False, Disconnected = False\<rparr>),
        nextRef := 1\<rparr>) 0"
    "users
     (sampleSession\<lparr>casemap := CasemapASCII, users := [''alice{'' \<mapsto> 0],
        channels := [],
        store := (\<lambda>_. zeroUser)(0 := \<lparr>UName = \<lparr>Name = ''alice['', User = [], Host = []\<rparr>,
                                        Away = False, Disconnected = False\<rparr>),
        nextRef := 1\<rparr>) ''alice{'' = Some 0"
    by (simp_all add: inChannel_def isMember_def emptyChannel_def keysDistinct_def userKey_def
        Casemap_def sampleSession_def newSessionValue_def sampleExterns_def mk)
  from j1 j2 j3 j4 f show ?thesis by (intro conjI)
qed


section \<open>Channel keys stay distinct\<close>

text \<open>
  A new session has no channel, and no message handled by \<open>handleMessageRegistered\<close>
  makes a key of the channel list occur twice.
\<close>

lemma keysDistinct_new: "keysDistinct (newSessionValue env params)"
  by (simp add: keysDistinct_def newSessionValue_def)

lemma keysDistinct_frame [simp]:
  "keysDistinct (s\<lparr>users := a\<rparr>) = keysDistinct s"
  "keysDistinct (s\<lparr>typings := b\<rparr>) = keysDistinct s"
  "keysDistinct (s\<lparr>store := c\<rparr>) = keysDistinct s"
  "keysDistinct (s\<lparr>out := d\<rparr>) = keysDistinct s"
  "keysDistinct (s\<lparr>enabledCaps := e\<rparr>) = keysDistinct s"
  "keysDistinct (s\<lparr>availableCaps := f\<rparr>) = keysDistinct s"
  "keysDistinct (s\<lparr>nextRef := g\<rparr>) = keysDistinct s"
  "keysDistinct (s\<lparr>chBatches := h\<rparr>) = keysDistinct s"
  "keysDistinct (s\<lparr>chReqs := i\<rparr>) = keysDistinct s"
  "keysDistinct (s\<lparr>targetsBatchID := j\<rparr>) = keysDistinct s"
  "keysDistinct (s\<lparr>targetsBatch := k\<rparr>) = keysDistinct s"
  "keysDistinct (s\<lparr>searchBatchID := l\<rparr>) = keysDistinct s"
  "keysDistinct (s\<lparr>searchBatch := m\<rparr>) = keysDistinct s"
  "keysDistinct (s\<lparr>nick := n\<rparr>) = keysDistinct s"
  "keysDistinct (s\<lparr>nickCf := o'\<rparr>) = keysDistinct s"
  "keysDistinct (s\<lparr>user := p\<rparr>) = keysDistinct s"
  "keysDistinct (s\<lparr>host := q\<rparr>) = keysDistinct s"
  "keysDistinct (s\<lparr>acct := r\<rparr>) = keysDistinct s"
  "keysDistinct (s\<lparr>registered := t\<rparr>) = keysDistinct s"
  "keysDistinct (s\<lparr>closed := u\<rparr>) = keysDistinct s"
  by (simp_all add: keysDistinct_def)

lemma keysDistinct_update [simp]:
  "keysDistinct s \<Longrightarrow> keysDistinct (s\<lparr>channels := AList.update k c (channels s)\<rparr>)"
  "keysDistinct s \<Longrightarrow> keysDistinct (s\<lparr>channels := AList.delete k (channels s)\<rparr>)"
  by (simp_all add: keysDistinct_def distinct_update distinct_delete)

lemma keysDistinct_send: "send m s = Returned s' \<Longrightarrow> keysDistinct s' = keysDistinct s"
  by (auto simp: send_def split: if_splits)

lemma keysDistinct_endRegistration: "endRegistration s = Returned s' \<Longrightarrow> keysDistinct s' = keysDistinct s"
  by (auto simp: endRegistration_def obind_Returned split: if_splits dest!: keysDistinct_send)

lemma channels_featurePREFIX: "featurePREFIX v s = Returned s' \<Longrightarrow> channels s' = channels s"
  by (auto simp: featurePREFIX_def Let_def obind_Returned split: if_splits)

lemma channels_updateFeature: "updateFeature env f s = Returned s' \<Longrightarrow> channels s' = channels s"
  by (auto simp: updateFeature_def Let_def split: if_splits option.splits dest: channels_featurePREFIX)

lemma channels_updateFeatures: "updateFeatures env fs s = Returned s' \<Longrightarrow> channels s' = channels s"
  by (induction fs arbitrary: s) (auto simp: obind_Returned dest: channels_updateFeature)

lemma keysDistinct_sendNames: "sendNames cs s = Returned s' \<Longrightarrow> keysDistinct s' = keysDistinct s"
  by (induction cs arbitrary: s) (auto simp: obind_Returned dest: keysDistinct_send)

lemma keysDistinct_capACK: "capACK cs s = Returned s' \<Longrightarrow> keysDistinct s' = keysDistinct s"
proof (induction cs arbitrary: s)
  case Nil
  then show ?case by simp
next
  case (Cons c cs)
  from Cons.prems obtain s1 where
    a: "(case auth (if Enable c then s\<lparr>enabledCaps := insert (CapName c) (enabledCaps s)\<rparr>
                else s\<lparr>enabledCaps := enabledCaps s - {CapName c}\<rparr>) of
              Some a \<Rightarrow>
                if CapName c = ''sasl'' then send (NewMessage ''AUTHENTICATE'' [Handshake a])
                   (if Enable c then s\<lparr>enabledCaps := insert (CapName c) (enabledCaps s)\<rparr>
                    else s\<lparr>enabledCaps := enabledCaps s - {CapName c}\<rparr>)
                else if channels (if Enable c then s\<lparr>enabledCaps := insert (CapName c) (enabledCaps s)\<rparr>
                    else s\<lparr>enabledCaps := enabledCaps s - {CapName c}\<rparr>) \<noteq> [] \<and> CapName c = ''multi-prefix''
                then sendNames (map fst (channels (if Enable c then s\<lparr>enabledCaps := insert (CapName c) (enabledCaps s)\<rparr>
                    else s\<lparr>enabledCaps := enabledCaps s - {CapName c}\<rparr>)))
                    (if Enable c then s\<lparr>enabledCaps := insert (CapName c) (enabledCaps s)\<rparr>
                    else s\<lparr>enabledCaps := enabledCaps s - {CapName c}\<rparr>)
                else Returned (if Enable c then s\<lparr>enabledCaps := insert (CapName c) (enabledCaps s)\<rparr>
                    else s\<lparr>enabledCaps := enabledCaps s - {CapName c}\<rparr>)
            | None \<Rightarrow>
                if channels (if Enable c then s\<lparr>enabledCaps := insert (CapName c) (enabledCaps s)\<rparr>
                    else s\<lparr>enabledCaps := enabledCaps s - {CapName c}\<rparr>) \<noteq> [] \<and> CapName c = ''multi-prefix''
                then sendNames (map fst (channels (if Enable c then s\<lparr>enabledCaps := insert (CapName c) (enabledCaps s)\<rparr>
                    else s\<lparr>enabledCaps := enabledCaps s - {CapName c}\<rparr>)))
                    (if Enable c then s\<lparr>enabledCaps := insert (CapName c) (enabledCaps s)\<rparr>
                    else s\<lparr>enabledCaps := enabledCaps s - {CapName c}\<rparr>)
                else Returned (if Enable c then s\<lparr>enabledCaps := insert (CapName c) (enabledCaps s)\<rparr>
                    else s\<lparr>enabledCaps := enabledCaps s - {CapName c}\<rparr>)) = Returned s1"
    and b: "capACK cs s1 = Returned s'"
    by (auto simp: Let_def obind_Returned)
  from a have "keysDistinct s1 = keysDistinct s"
    by (auto split: option.splits if_splits dest: keysDistinct_send keysDistinct_sendNames)
  with Cons.IH[OF b] show ?case by simp
qed

lemma keysDistinct_capNEW: "capNEW cs s = Returned s' \<Longrightarrow> keysDistinct s' = keysDistinct s"
  by (induction cs arbitrary: s) (auto simp: Let_def obind_Returned split: if_splits dest!: keysDistinct_send)

lemma keysDistinct_capDEL [simp]: "keysDistinct (capDEL cs s) = keysDistinct s"
  by (induction cs arbitrary: s) simp_all

lemma keysDistinct_ensureUser [simp]: "keysDistinct (ensureUser k p s) = keysDistinct s"
  by (simp add: ensureUser_def newUser_def keysDistinct_def split: option.splits)

lemma keysDistinct_setMember [simp]: "keysDistinct s \<Longrightarrow> keysDistinct (setMember k u pl s)"
  by (simp add: setMember_def split: option.splits)

lemma keysDistinct_delMember [simp]: "keysDistinct s \<Longrightarrow> keysDistinct (delMember k u s)"
  by (simp add: delMember_def split: option.splits)

lemma keysDistinct_cleanUser [simp]: "keysDistinct (cleanUser env s u) = keysDistinct s"
  by (simp add: keysDistinct_def)

lemma keysDistinct_foldl_cleanUser [simp]: "keysDistinct (foldl (cleanUser env) s us) = keysDistinct s"
  by (simp add: keysDistinct_def)

lemma keysDistinct_quitLoop:
  "quitLoop env u0 n ks (s, chans) = (s', chans') \<Longrightarrow> keysDistinct s \<Longrightarrow> keysDistinct s'"
proof (induction ks arbitrary: s chans)
  case Nil
  then show ?case by simp
next
  case (Cons k ks)
  show ?case
  proof (cases "map_of (channels s) k")
    case None
    with Cons.prems Cons.IH show ?thesis by simp
  next
    case (Some c)
    show ?thesis
    proof (cases "isMember c u0")
      case True
      with Cons.prems Some Cons.IH[of "(cleanUser env (delMember k u0 s) u0)\<lparr>typings :=
              typingsDone env (typings (cleanUser env (delMember k u0 s) u0)) k n\<rparr>" "chans @ [CName c]"]
      show ?thesis by (simp add: Let_def)
    next
      case False
      with Cons.prems Some Cons.IH show ?thesis by simp
    qed
  qed
qed

lemma keysDistinct_monLoop:
  "monLoop env off ts s = (s', ev) \<Longrightarrow> keysDistinct s' = keysDistinct s"
  by (induction ts arbitrary: s) (auto simp: Let_def split: option.splits if_splits)

lemma keysDistinct_namesLoop: "keysDistinct s \<Longrightarrow> keysDistinct (namesLoop env k ns s)"
  by (induction ns arbitrary: s) (simp_all add: Let_def)

lemma keysDistinct_Close [simp]: "keysDistinct (Close env s) = keysDistinct s"
  by (simp add: Close_def)

named_theorems keys_kept

lemma ret_keys: "ret s ev = Returned (s', r) \<Longrightarrow> s' = s"
  by (auto simp: ret_def)

lemma fail_keys: "fail s e = Returned (s', r) \<Longrightarrow> s' = s"
  by (auto simp: fail_def)

lemma retMessage_keys: "retMessage s r = Returned (s', r') \<Longrightarrow> s' = s"
  by (cases r) (auto simp: retMessage_def ret_def fail_def)

lemma keysDistinct_updateFeatures:
  "updateFeatures env fs s = Returned s' \<Longrightarrow> keysDistinct s' = keysDistinct s"
  by (simp add: keysDistinct_def channels_updateFeatures)

lemma keysDistinct_newUser: "newUser u s = (r, s') \<Longrightarrow> keysDistinct s' = keysDistinct s"
  by (auto simp: newUser_def)

lemma keysDistinct_partChannel:
  "partChannel env n c who tm s = Returned (s', r) \<Longrightarrow> keysDistinct s \<Longrightarrow> keysDistinct s'"
  by (auto simp: partChannel_def Let_def ret_def split: option.splits if_splits)

lemma keys_AUTHENTICATE [keys_kept]:
  "caseAUTHENTICATE msg s = Returned (s', r) \<Longrightarrow> keysDistinct s \<Longrightarrow> keysDistinct s'"
  by (auto simp: caseAUTHENTICATE_def Let_def obind_Returned ret_def fail_def keysDistinct_namesLoop split: option.splits if_splits prod.splits sum.splits
      dest: keysDistinct_updateFeatures keysDistinct_newUser keysDistinct_partChannel keysDistinct_send keysDistinct_endRegistration channels_updateFeatures keysDistinct_sendNames
        keysDistinct_capACK keysDistinct_capNEW keysDistinct_quitLoop keysDistinct_monLoop retMessage_keys)

lemma keys_Loggedin [keys_kept]:
  "caseLoggedin env msg s = Returned (s', r) \<Longrightarrow> keysDistinct s \<Longrightarrow> keysDistinct s'"
  by (auto simp: caseLoggedin_def Let_def obind_Returned ret_def fail_def keysDistinct_namesLoop split: option.splits if_splits prod.splits sum.splits
      dest: keysDistinct_updateFeatures keysDistinct_newUser keysDistinct_partChannel keysDistinct_send keysDistinct_endRegistration channels_updateFeatures keysDistinct_sendNames
        keysDistinct_capACK keysDistinct_capNEW keysDistinct_quitLoop keysDistinct_monLoop retMessage_keys)

lemma keys_SaslFailure [keys_kept]:
  "caseSaslFailure msg s = Returned (s', r) \<Longrightarrow> keysDistinct s \<Longrightarrow> keysDistinct s'"
  by (auto simp: caseSaslFailure_def Let_def obind_Returned ret_def fail_def keysDistinct_namesLoop split: option.splits if_splits prod.splits sum.splits
      dest: keysDistinct_updateFeatures keysDistinct_newUser keysDistinct_partChannel keysDistinct_send keysDistinct_endRegistration channels_updateFeatures keysDistinct_sendNames
        keysDistinct_capACK keysDistinct_capNEW keysDistinct_quitLoop keysDistinct_monLoop retMessage_keys)

lemma keys_Welcome [keys_kept]:
  "caseWelcome env msg s = Returned (s', r) \<Longrightarrow> keysDistinct s \<Longrightarrow> keysDistinct s'"
  by (auto simp: caseWelcome_def Let_def obind_Returned ret_def fail_def newUser_def
      split: option.splits if_splits dest!: keysDistinct_send)

lemma keys_Isupport [keys_kept]:
  "caseIsupport env msg s = Returned (s', r) \<Longrightarrow> keysDistinct s \<Longrightarrow> keysDistinct s'"
  by (auto simp: caseIsupport_def Let_def obind_Returned ret_def fail_def keysDistinct_namesLoop split: option.splits if_splits prod.splits sum.splits
      dest: keysDistinct_updateFeatures keysDistinct_newUser keysDistinct_partChannel keysDistinct_send keysDistinct_endRegistration channels_updateFeatures keysDistinct_sendNames
        keysDistinct_capACK keysDistinct_capNEW keysDistinct_quitLoop keysDistinct_monLoop retMessage_keys)

lemma keys_Whoreply [keys_kept]:
  "caseWhoreply env msg s = Returned (s', r) \<Longrightarrow> keysDistinct s \<Longrightarrow> keysDistinct s'"
  by (auto simp: caseWhoreply_def Let_def obind_Returned ret_def fail_def keysDistinct_namesLoop split: option.splits if_splits prod.splits sum.splits
      dest: keysDistinct_updateFeatures keysDistinct_newUser keysDistinct_partChannel keysDistinct_send keysDistinct_endRegistration channels_updateFeatures keysDistinct_sendNames
        keysDistinct_capACK keysDistinct_capNEW keysDistinct_quitLoop keysDistinct_monLoop retMessage_keys)

lemma keys_CAP [keys_kept]:
  "caseCAP env msg s = Returned (s', r) \<Longrightarrow> keysDistinct s \<Longrightarrow> keysDistinct s'"
  by (auto simp: caseCAP_def Let_def obind_Returned ret_def fail_def keysDistinct_namesLoop split: option.splits if_splits prod.splits sum.splits
      dest: keysDistinct_updateFeatures keysDistinct_newUser keysDistinct_partChannel keysDistinct_send keysDistinct_endRegistration channels_updateFeatures keysDistinct_sendNames
        keysDistinct_capACK keysDistinct_capNEW keysDistinct_quitLoop keysDistinct_monLoop retMessage_keys)

lemma keys_JOIN [keys_kept]:
  "caseJOIN env msg playback now s = Returned (s', r) \<Longrightarrow> keysDistinct s \<Longrightarrow> keysDistinct s'"
  by (auto simp: caseJOIN_def Let_def obind_Returned ret_def fail_def keysDistinct_namesLoop split: option.splits if_splits prod.splits sum.splits
      dest: keysDistinct_updateFeatures keysDistinct_newUser keysDistinct_partChannel keysDistinct_send keysDistinct_endRegistration channels_updateFeatures keysDistinct_sendNames
        keysDistinct_capACK keysDistinct_capNEW keysDistinct_quitLoop keysDistinct_monLoop retMessage_keys)

lemma keys_PART [keys_kept]:
  "casePART env msg playback now s = Returned (s', r) \<Longrightarrow> keysDistinct s \<Longrightarrow> keysDistinct s'"
  by (auto simp: casePART_def Let_def obind_Returned ret_def fail_def keysDistinct_namesLoop split: option.splits if_splits prod.splits sum.splits
      dest: keysDistinct_updateFeatures keysDistinct_newUser keysDistinct_partChannel keysDistinct_send keysDistinct_endRegistration channels_updateFeatures keysDistinct_sendNames
        keysDistinct_capACK keysDistinct_capNEW keysDistinct_quitLoop keysDistinct_monLoop retMessage_keys)

lemma keys_KICK [keys_kept]:
  "caseKICK env msg playback now s = Returned (s', r) \<Longrightarrow> keysDistinct s \<Longrightarrow> keysDistinct s'"
  by (auto simp: caseKICK_def Let_def obind_Returned ret_def fail_def keysDistinct_namesLoop split: option.splits if_splits prod.splits sum.splits
      dest: keysDistinct_updateFeatures keysDistinct_newUser keysDistinct_partChannel keysDistinct_send keysDistinct_endRegistration channels_updateFeatures keysDistinct_sendNames
        keysDistinct_capACK keysDistinct_capNEW keysDistinct_quitLoop keysDistinct_monLoop retMessage_keys)

lemma keys_QUIT [keys_kept]:
  "caseQUIT env msg playback now s = Returned (s', r) \<Longrightarrow> keysDistinct s \<Longrightarrow> keysDistinct s'"
  by (auto simp: caseQUIT_def Let_def obind_Returned ret_def fail_def keysDistinct_namesLoop split: option.splits if_splits prod.splits sum.splits
      dest: keysDistinct_updateFeatures keysDistinct_newUser keysDistinct_partChannel keysDistinct_send keysDistinct_endRegistration channels_updateFeatures keysDistinct_sendNames
        keysDistinct_capACK keysDistinct_capNEW keysDistinct_quitLoop keysDistinct_monLoop retMessage_keys)

lemma keys_Monitor [keys_kept]:
  "caseMonitor env off msg s = Returned (s', r) \<Longrightarrow> keysDistinct s \<Longrightarrow> keysDistinct s'"
  by (auto simp: caseMonitor_def Let_def obind_Returned ret_def fail_def keysDistinct_namesLoop split: option.splits if_splits prod.splits sum.splits
      dest: keysDistinct_updateFeatures keysDistinct_newUser keysDistinct_partChannel keysDistinct_send keysDistinct_endRegistration channels_updateFeatures keysDistinct_sendNames
        keysDistinct_capACK keysDistinct_capNEW keysDistinct_quitLoop keysDistinct_monLoop retMessage_keys)

lemma keys_Namreply [keys_kept]:
  "caseNamreply env msg s = Returned (s', r) \<Longrightarrow> keysDistinct s \<Longrightarrow> keysDistinct s'"
  by (auto simp: caseNamreply_def Let_def obind_Returned ret_def fail_def keysDistinct_namesLoop split: option.splits if_splits prod.splits sum.splits
      dest: keysDistinct_updateFeatures keysDistinct_newUser keysDistinct_partChannel keysDistinct_send keysDistinct_endRegistration channels_updateFeatures keysDistinct_sendNames
        keysDistinct_capACK keysDistinct_capNEW keysDistinct_quitLoop keysDistinct_monLoop retMessage_keys)

lemma keys_Endofnames [keys_kept]:
  "caseEndofnames env msg now s = Returned (s', r) \<Longrightarrow> keysDistinct s \<Longrightarrow> keysDistinct s'"
  by (auto simp: caseEndofnames_def Let_def obind_Returned ret_def fail_def keysDistinct_namesLoop split: option.splits if_splits prod.splits sum.splits
      dest: keysDistinct_updateFeatures keysDistinct_newUser keysDistinct_partChannel keysDistinct_send keysDistinct_endRegistration channels_updateFeatures keysDistinct_sendNames
        keysDistinct_capACK keysDistinct_capNEW keysDistinct_quitLoop keysDistinct_monLoop retMessage_keys)

lemma keys_Topic [keys_kept]:
  "caseTopic env msg s = Returned (s', r) \<Longrightarrow> keysDistinct s \<Longrightarrow> keysDistinct s'"
  by (auto simp: caseTopic_def Let_def obind_Returned ret_def fail_def keysDistinct_namesLoop split: option.splits if_splits prod.splits sum.splits
      dest: keysDistinct_updateFeatures keysDistinct_newUser keysDistinct_partChannel keysDistinct_send keysDistinct_endRegistration channels_updateFeatures keysDistinct_sendNames
        keysDistinct_capACK keysDistinct_capNEW keysDistinct_quitLoop keysDistinct_monLoop retMessage_keys)

lemma keys_Topicwhotime [keys_kept]:
  "caseTopicwhotime env msg s = Returned (s', r) \<Longrightarrow> keysDistinct s \<Longrightarrow> keysDistinct s'"
  by (auto simp: caseTopicwhotime_def Let_def obind_Returned ret_def fail_def keysDistinct_namesLoop split: option.splits if_splits prod.splits sum.splits
      dest: keysDistinct_updateFeatures keysDistinct_newUser keysDistinct_partChannel keysDistinct_send keysDistinct_endRegistration channels_updateFeatures keysDistinct_sendNames
        keysDistinct_capACK keysDistinct_capNEW keysDistinct_quitLoop keysDistinct_monLoop retMessage_keys)

lemma keys_Notopic [keys_kept]:
  "caseNotopic env msg s = Returned (s', r) \<Longrightarrow> keysDistinct s \<Longrightarrow> keysDistinct s'"
  by (auto simp: caseNotopic_def Let_def obind_Returned ret_def fail_def keysDistinct_namesLoop split: option.splits if_splits prod.splits sum.splits
      dest: keysDistinct_updateFeatures keysDistinct_newUser keysDistinct_partChannel keysDistinct_send keysDistinct_endRegistration channels_updateFeatures keysDistinct_sendNames
        keysDistinct_capACK keysDistinct_capNEW keysDistinct_quitLoop keysDistinct_monLoop retMessage_keys)

lemma keys_TOPIC [keys_kept]:
  "caseTOPIC env msg playback now s = Returned (s', r) \<Longrightarrow> keysDistinct s \<Longrightarrow> keysDistinct s'"
  by (auto simp: caseTOPIC_def Let_def obind_Returned ret_def fail_def keysDistinct_namesLoop split: option.splits if_splits prod.splits sum.splits
      dest: keysDistinct_updateFeatures keysDistinct_newUser keysDistinct_partChannel keysDistinct_send keysDistinct_endRegistration channels_updateFeatures keysDistinct_sendNames
        keysDistinct_capACK keysDistinct_capNEW keysDistinct_quitLoop keysDistinct_monLoop retMessage_keys)

lemma keys_MODE [keys_kept]:
  "caseMODE env msg playback now s = Returned (s', r) \<Longrightarrow> keysDistinct s \<Longrightarrow> keysDistinct s'"
  by (auto simp: caseMODE_def Let_def obind_Returned ret_def fail_def keysDistinct_namesLoop split: option.splits if_splits prod.splits sum.splits
      dest: keysDistinct_updateFeatures keysDistinct_newUser keysDistinct_partChannel keysDistinct_send keysDistinct_endRegistration channels_updateFeatures keysDistinct_sendNames
        keysDistinct_capACK keysDistinct_capNEW keysDistinct_quitLoop keysDistinct_monLoop retMessage_keys)

lemma keys_INVITE [keys_kept]:
  "caseINVITE msg s = Returned (s', r) \<Longrightarrow> keysDistinct s \<Longrightarrow> keysDistinct s'"
  by (auto simp: caseINVITE_def Let_def obind_Returned ret_def fail_def keysDistinct_namesLoop split: option.splits if_splits prod.splits sum.splits
      dest: keysDistinct_updateFeatures keysDistinct_newUser keysDistinct_partChannel keysDistinct_send keysDistinct_endRegistration channels_updateFeatures keysDistinct_sendNames
        keysDistinct_capACK keysDistinct_capNEW keysDistinct_quitLoop keysDistinct_monLoop retMessage_keys)

lemma keys_Inviting [keys_kept]:
  "caseInviting msg s = Returned (s', r) \<Longrightarrow> keysDistinct s \<Longrightarrow> keysDistinct s'"
  by (auto simp: caseInviting_def Let_def obind_Returned ret_def fail_def keysDistinct_namesLoop split: option.splits if_splits prod.splits sum.splits
      dest: keysDistinct_updateFeatures keysDistinct_newUser keysDistinct_partChannel keysDistinct_send keysDistinct_endRegistration channels_updateFeatures keysDistinct_sendNames
        keysDistinct_capACK keysDistinct_capNEW keysDistinct_quitLoop keysDistinct_monLoop retMessage_keys)

lemma keys_AWAY [keys_kept]:
  "caseAWAY env msg s = Returned (s', r) \<Longrightarrow> keysDistinct s \<Longrightarrow> keysDistinct s'"
  by (auto simp: caseAWAY_def Let_def obind_Returned ret_def fail_def keysDistinct_namesLoop split: option.splits if_splits prod.splits sum.splits
      dest: keysDistinct_updateFeatures keysDistinct_newUser keysDistinct_partChannel keysDistinct_send keysDistinct_endRegistration channels_updateFeatures keysDistinct_sendNames
        keysDistinct_capACK keysDistinct_capNEW keysDistinct_quitLoop keysDistinct_monLoop retMessage_keys)

lemma keys_PRIVMSG [keys_kept]:
  "casePRIVMSG env msg playback now s = Returned (s', r) \<Longrightarrow> keysDistinct s \<Longrightarrow> keysDistinct s'"
  by (auto simp: casePRIVMSG_def Let_def obind_Returned ret_def fail_def keysDistinct_namesLoop split: option.splits if_splits prod.splits sum.splits
      dest: keysDistinct_updateFeatures keysDistinct_newUser keysDistinct_partChannel keysDistinct_send keysDistinct_endRegistration channels_updateFeatures keysDistinct_sendNames
        keysDistinct_capACK keysDistinct_capNEW keysDistinct_quitLoop keysDistinct_monLoop retMessage_keys)

lemma keys_TAGMSG [keys_kept]:
  "caseTAGMSG env msg playback s = Returned (s', r) \<Longrightarrow> keysDistinct s \<Longrightarrow> keysDistinct s'"
  by (auto simp: caseTAGMSG_def Let_def obind_Returned ret_def fail_def keysDistinct_namesLoop split: option.splits if_splits prod.splits sum.splits
      dest: keysDistinct_updateFeatures keysDistinct_newUser keysDistinct_partChannel keysDistinct_send keysDistinct_endRegistration channels_updateFeatures keysDistinct_sendNames
        keysDistinct_capACK keysDistinct_capNEW keysDistinct_quitLoop keysDistinct_monLoop retMessage_keys)

lemma keys_BATCH [keys_kept]:
  "caseBATCH env msg s = Returned (s', r) \<Longrightarrow> keysDistinct s \<Longrightarrow> keysDistinct s'"
  by (auto simp: caseBATCH_def Let_def obind_Returned ret_def fail_def keysDistinct_namesLoop split: option.splits if_splits prod.splits sum.splits
      dest: keysDistinct_updateFeatures keysDistinct_newUser keysDistinct_partChannel keysDistinct_send keysDistinct_endRegistration channels_updateFeatures keysDistinct_sendNames
        keysDistinct_capACK keysDistinct_capNEW keysDistinct_quitLoop keysDistinct_monLoop retMessage_keys)

lemma keys_NICK [keys_kept]:
  "caseNICK env msg playback now s = Returned (s', r) \<Longrightarrow> keysDistinct s \<Longrightarrow> keysDistinct s'"
  by (auto simp: caseNICK_def Let_def obind_Returned ret_def fail_def keysDistinct_namesLoop split: option.splits if_splits prod.splits sum.splits
      dest: keysDistinct_updateFeatures keysDistinct_newUser keysDistinct_partChannel keysDistinct_send keysDistinct_endRegistration channels_updateFeatures keysDistinct_sendNames
        keysDistinct_capACK keysDistinct_capNEW keysDistinct_quitLoop keysDistinct_monLoop retMessage_keys)

lemma keys_READ [keys_kept]:
  "caseREAD env msg s = Returned (s', r) \<Longrightarrow> keysDistinct s \<Longrightarrow> keysDistinct s'"
  by (auto simp: caseREAD_def Let_def obind_Returned ret_def fail_def keysDistinct_namesLoop split: option.splits if_splits prod.splits sum.splits
      dest: keysDistinct_updateFeatures keysDistinct_newUser keysDistinct_partChannel keysDistinct_send keysDistinct_endRegistration channels_updateFeatures keysDistinct_sendNames
        keysDistinct_capACK keysDistinct_capNEW keysDistinct_quitLoop keysDistinct_monLoop retMessage_keys)

lemma keys_BOUNCER [keys_kept]:
  "caseBOUNCER env msg s = Returned (s', r) \<Longrightarrow> keysDistinct s \<Longrightarrow> keysDistinct s'"
  by (auto simp: caseBOUNCER_def Let_def obind_Returned ret_def fail_def keysDistinct_namesLoop split: option.splits if_splits prod.splits sum.splits
      dest: keysDistinct_updateFeatures keysDistinct_newUser keysDistinct_partChannel keysDistinct_send keysDistinct_endRegistration channels_updateFeatures keysDistinct_sendNames
        keysDistinct_capACK keysDistinct_capNEW keysDistinct_quitLoop keysDistinct_monLoop retMessage_keys)

lemma keys_PING [keys_kept]:
  "casePING msg s = Returned (s', r) \<Longrightarrow> keysDistinct s \<Longrightarrow> keysDistinct s'"
  by (auto simp: casePING_def Let_def obind_Returned ret_def fail_def keysDistinct_namesLoop split: option.splits if_splits prod.splits sum.splits
      dest: keysDistinct_updateFeatures keysDistinct_newUser keysDistinct_partChannel keysDistinct_send keysDistinct_endRegistration channels_updateFeatures keysDistinct_sendNames
        keysDistinct_capACK keysDistinct_capNEW keysDistinct_quitLoop keysDistinct_monLoop retMessage_keys)

lemma keys_FAIL [keys_kept]:
  "caseFAIL msg s = Returned (s', r) \<Longrightarrow> keysDistinct s \<Longrightarrow> keysDistinct s'"
  by (auto simp: caseFAIL_def Let_def obind_Returned ret_def fail_def keysDistinct_namesLoop split: option.splits if_splits prod.splits sum.splits
      dest: keysDistinct_updateFeatures keysDistinct_newUser keysDistinct_partChannel keysDistinct_send keysDistinct_endRegistration channels_updateFeatures keysDistinct_sendNames
        keysDistinct_capACK keysDistinct_capNEW keysDistinct_quitLoop keysDistinct_monLoop retMessage_keys)

lemma keys_Default [keys_kept]:
  "caseDefault env msg s = Returned (s', r) \<Longrightarrow> keysDistinct s \<Longrightarrow> keysDistinct s'"
  by (auto simp: caseDefault_def Let_def obind_Returned ret_def fail_def keysDistinct_namesLoop split: option.splits if_splits prod.splits sum.splits
      dest: keysDistinct_updateFeatures keysDistinct_newUser keysDistinct_partChannel keysDistinct_send keysDistinct_endRegistration channels_updateFeatures keysDistinct_sendNames
        keysDistinct_capACK keysDistinct_capNEW keysDistinct_quitLoop keysDistinct_monLoop retMessage_keys)

text \<open>Every message keeps the keys of the channel list distinct.\<close>

lemma handleMessageRegistered_keysDistinct:
  assumes "handleMessageRegistered env msg playback now s = Returned (s', r)"
    and "keysDistinct s"
  shows "keysDistinct s'"
  using assms unfolding handleMessageRegistered_def Let_def
  by (auto split: if_splits dest: keys_kept)


section \<open>The roster is keyed by casemapped names\<close>

text \<open>
  A new session has an empty roster. Every message that leaves the casemapping as it is
  keeps each record of the roster under the casemapped form of its name; the ISUPPORT token
  \<open>CASEMAPPING\<close> changes the casemapping and leaves the keys as they were.
\<close>

lemma Casemap_frame [simp]:
  "Casemap env (s\<lparr>users := a\<rparr>) = Casemap env s"
  "Casemap env (s\<lparr>store := b\<rparr>) = Casemap env s"
  "Casemap env (s\<lparr>nextRef := c\<rparr>) = Casemap env s"
  "Casemap env (s\<lparr>typings := d\<rparr>) = Casemap env s"
  "Casemap env (s\<lparr>nick := e\<rparr>) = Casemap env s"
  "Casemap env (s\<lparr>nickCf := f\<rparr>) = Casemap env s"
  "Casemap env (s\<lparr>user := g\<rparr>) = Casemap env s"
  "Casemap env (s\<lparr>host := h\<rparr>) = Casemap env s"
  "Casemap env (s\<lparr>acct := i\<rparr>) = Casemap env s"
  "Casemap env (s\<lparr>registered := j\<rparr>) = Casemap env s"
  "Casemap env (s\<lparr>closed := k\<rparr>) = Casemap env s"
  "Casemap env (s\<lparr>auth := l\<rparr>) = Casemap env s"
  "Casemap env (s\<lparr>monitors := m\<rparr>) = Casemap env s"
  "Casemap env (s\<lparr>pendingChannels := n\<rparr>) = Casemap env s"
  "Casemap env (s\<lparr>enabledCaps := o'\<rparr>) = Casemap env s"
  "Casemap env (s\<lparr>availableCaps := p\<rparr>) = Casemap env s"
  "Casemap env (s\<lparr>targetsBatchID := q\<rparr>) = Casemap env s"
  "Casemap env (s\<lparr>targetsBatch := r\<rparr>) = Casemap env s"
  "Casemap env (s\<lparr>searchBatchID := t\<rparr>) = Casemap env s"
  "Casemap env (s\<lparr>searchBatch := u\<rparr>) = Casemap env s"
  by (simp_all add: Casemap_def fun_eq_iff)

lemma rosterKeyed_same:
  "users s' = users s \<Longrightarrow> store s' = store s \<Longrightarrow> casemap s' = casemap s \<Longrightarrow> nextRef s' = nextRef s \<Longrightarrow>
   rosterKeyed env s' = rosterKeyed env s"
  by (simp add: rosterKeyed_def userKey_def Casemap_def)

lemma rosterKeyed_frame [simp]:
  "rosterKeyed env (s\<lparr>channels := a\<rparr>) = rosterKeyed env s"
  "rosterKeyed env (s\<lparr>typings := b\<rparr>) = rosterKeyed env s"
  "rosterKeyed env (s\<lparr>out := d\<rparr>) = rosterKeyed env s"
  "rosterKeyed env (s\<lparr>enabledCaps := e\<rparr>) = rosterKeyed env s"
  "rosterKeyed env (s\<lparr>availableCaps := f\<rparr>) = rosterKeyed env s"
  "rosterKeyed env (s\<lparr>chBatches := h\<rparr>) = rosterKeyed env s"
  "rosterKeyed env (s\<lparr>chReqs := i\<rparr>) = rosterKeyed env s"
  "rosterKeyed env (s\<lparr>targetsBatchID := j\<rparr>) = rosterKeyed env s"
  "rosterKeyed env (s\<lparr>targetsBatch := k\<rparr>) = rosterKeyed env s"
  "rosterKeyed env (s\<lparr>searchBatchID := l\<rparr>) = rosterKeyed env s"
  "rosterKeyed env (s\<lparr>searchBatch := m\<rparr>) = rosterKeyed env s"
  "rosterKeyed env (s\<lparr>nick := n\<rparr>) = rosterKeyed env s"
  "rosterKeyed env (s\<lparr>nickCf := o'\<rparr>) = rosterKeyed env s"
  "rosterKeyed env (s\<lparr>user := p\<rparr>) = rosterKeyed env s"
  "rosterKeyed env (s\<lparr>host := q\<rparr>) = rosterKeyed env s"
  "rosterKeyed env (s\<lparr>acct := r\<rparr>) = rosterKeyed env s"
  "rosterKeyed env (s\<lparr>registered := t\<rparr>) = rosterKeyed env s"
  "rosterKeyed env (s\<lparr>closed := u\<rparr>) = rosterKeyed env s"
  "rosterKeyed env (s\<lparr>auth := v\<rparr>) = rosterKeyed env s"
  "rosterKeyed env (s\<lparr>monitors := w\<rparr>) = rosterKeyed env s"
  "rosterKeyed env (s\<lparr>pendingChannels := x\<rparr>) = rosterKeyed env s"
  "rosterKeyed env (s\<lparr>typingStamps := y\<rparr>) = rosterKeyed env s"
  by (simp_all add: rosterKeyed_def userKey_def)

lemma rosterKeyed_flags [simp]:
  "rosterKeyed env (s\<lparr>store := (store s)(u := (store s u)\<lparr>Away := a\<rparr>)\<rparr>) = rosterKeyed env s"
  "rosterKeyed env (s\<lparr>store := (store s)(u := (store s u)\<lparr>Disconnected := b\<rparr>)\<rparr>) = rosterKeyed env s"
  by (auto simp: rosterKeyed_def userKey_def)

lemma rosterKeyed_new: "rosterKeyed env (newSessionValue env params)"
  by (simp add: rosterKeyed_def newSessionValue_def)

lemma rosterKeyed_delete: "rosterKeyed env s \<Longrightarrow> rosterKeyed env (s\<lparr>users := (users s)(k := None)\<rparr>)"
  by (auto simp: rosterKeyed_def userKey_def)

lemma rosterKeyed_send: "send m s = Returned s' \<Longrightarrow> rosterKeyed env s' = rosterKeyed env s"
  by (auto simp: send_def split: if_splits)

lemma rosterKeyed_endRegistration: "endRegistration s = Returned s' \<Longrightarrow> rosterKeyed env s' = rosterKeyed env s"
  by (auto simp: endRegistration_def obind_Returned split: if_splits dest!: rosterKeyed_send[where env = env])

lemma roster_featurePREFIX:
  "featurePREFIX v s = Returned s' \<Longrightarrow>
     users s' = users s \<and> store s' = store s \<and> nextRef s' = nextRef s \<and> casemap s' = casemap s"
  by (auto simp: featurePREFIX_def Let_def obind_Returned split: if_splits)

lemma roster_updateFeature:
  "updateFeature env f s = Returned s' \<Longrightarrow> users s' = users s \<and> store s' = store s \<and> nextRef s' = nextRef s"
  by (auto simp: updateFeature_def Let_def split: if_splits option.splits dest: roster_featurePREFIX)

lemma roster_updateFeatures:
  "updateFeatures env fs s = Returned s' \<Longrightarrow> users s' = users s \<and> store s' = store s \<and> nextRef s' = nextRef s"
  by (induction fs arbitrary: s) (auto simp: obind_Returned dest: roster_updateFeature)

lemma rosterKeyed_sendNames: "sendNames cs s = Returned s' \<Longrightarrow> rosterKeyed env s' = rosterKeyed env s"
  by (induction cs arbitrary: s) (auto simp: obind_Returned dest: rosterKeyed_send[where env = env])

lemma rosterKeyed_capNEW: "capNEW cs s = Returned s' \<Longrightarrow> rosterKeyed env s' = rosterKeyed env s"
  by (induction cs arbitrary: s)
     (auto simp: Let_def obind_Returned split: if_splits dest!: rosterKeyed_send[where env = env])

lemma rosterKeyed_capDEL [simp]: "rosterKeyed env (capDEL cs s) = rosterKeyed env s"
  by (induction cs arbitrary: s) simp_all

lemma rosterKeyed_Close [simp]: "rosterKeyed env (Close env' s) = rosterKeyed env s"
  by (simp add: Close_def)

lemma rosterKeyed_setMember [simp]: "rosterKeyed env (setMember k u pl s) = rosterKeyed env s"
  by (simp add: setMember_def split: option.splits)

lemma rosterKeyed_delMember [simp]: "rosterKeyed env (delMember k u s) = rosterKeyed env s"
  by (simp add: delMember_def split: option.splits)

lemma rosterKeyed_cleanUser: "rosterKeyed env s \<Longrightarrow> rosterKeyed env (cleanUser env s u)"
  by (simp add: cleanUser_def Let_def rosterKeyed_delete)

lemma rosterKeyed_foldl_cleanUser: "rosterKeyed env s \<Longrightarrow> rosterKeyed env (foldl (cleanUser env) s us)"
  by (induction us arbitrary: s) (simp_all add: rosterKeyed_cleanUser)

lemma rosterKeyed_ensureUser:
  "rosterKeyed env s \<Longrightarrow> rosterKeyed env (ensureUser (Casemap env s (Name p)) p s)"
  by (auto simp: ensureUser_def newUser_def rosterKeyed_def userKey_def less_Suc_eq
      split: option.splits)

lemma Casemap_ensureUser [simp]: "Casemap env (ensureUser k p s) = Casemap env s"
  by (simp add: ensureUser_def newUser_def split: option.splits)

lemma Casemap_setMember [simp]: "Casemap env (setMember k u pl s) = Casemap env s"
  by (simp add: setMember_def split: option.splits)

lemma rosterKeyed_namesLoop: "rosterKeyed env s \<Longrightarrow> rosterKeyed env (namesLoop env k ns s)"
proof (induction ns arbitrary: s)
  case Nil
  then show ?case by simp
next
  case (Cons n ns)
  from Cons.prems have "rosterKeyed env (ensureUser (Casemap env s (Name (MName n))) (MName n) s)"
    by (rule rosterKeyed_ensureUser)
  then show ?case by (simp add: Let_def Cons.IH)
qed

lemma rosterKeyed_monLoop:
  "monLoop env off ts s = (s', ev) \<Longrightarrow> rosterKeyed env s \<Longrightarrow> rosterKeyed env s'"
proof (induction ts arbitrary: s)
  case Nil
  then show ?case by simp
next
  case (Cons t ts)
  show ?case
  proof (cases "ParsePrefix env t")
    case None
    with Cons show ?thesis by simp
  next
    case (Some p)
    from Cons.prems(2) have e: "rosterKeyed env (ensureUser (Casemap env s (Name p)) p s)"
      by (rule rosterKeyed_ensureUser)
    from Cons.prems Some e Cons.IH show ?thesis
      by (auto simp: Let_def split: if_splits)
  qed
qed

lemma rosterKeyed_quitLoop:
  "quitLoop env u0 n ks (s, chans) = (s', chans') \<Longrightarrow> rosterKeyed env s \<Longrightarrow> rosterKeyed env s'"
proof (induction ks arbitrary: s chans)
  case Nil
  then show ?case by simp
next
  case (Cons k ks)
  show ?case
  proof (cases "map_of (channels s) k")
    case None
    with Cons.prems Cons.IH show ?thesis by simp
  next
    case (Some c)
    show ?thesis
    proof (cases "isMember c u0")
      case True
      from Cons.prems(2) have "rosterKeyed env (cleanUser env (delMember k u0 s) u0)"
        by (simp add: rosterKeyed_cleanUser)
      with True Cons.prems Some Cons.IH[of "(cleanUser env (delMember k u0 s) u0)\<lparr>typings :=
              typingsDone env (typings (cleanUser env (delMember k u0 s) u0)) k n\<rparr>" "chans @ [CName c]"]
      show ?thesis by (simp add: Let_def)
    next
      case False
      with Cons.prems Some Cons.IH show ?thesis by simp
    qed
  qed
qed

lemma rosterKeyed_capACK: "capACK cs s = Returned s' \<Longrightarrow> rosterKeyed env s' = rosterKeyed env s"
proof (induction cs arbitrary: s)
  case Nil
  then show ?case by simp
next
  case (Cons c cs)
  from Cons.prems obtain s1 where
    a: "(case auth (if Enable c then s\<lparr>enabledCaps := insert (CapName c) (enabledCaps s)\<rparr>
                else s\<lparr>enabledCaps := enabledCaps s - {CapName c}\<rparr>) of
              Some a \<Rightarrow>
                if CapName c = ''sasl'' then send (NewMessage ''AUTHENTICATE'' [Handshake a])
                   (if Enable c then s\<lparr>enabledCaps := insert (CapName c) (enabledCaps s)\<rparr>
                    else s\<lparr>enabledCaps := enabledCaps s - {CapName c}\<rparr>)
                else if channels (if Enable c then s\<lparr>enabledCaps := insert (CapName c) (enabledCaps s)\<rparr>
                    else s\<lparr>enabledCaps := enabledCaps s - {CapName c}\<rparr>) \<noteq> [] \<and> CapName c = ''multi-prefix''
                then sendNames (map fst (channels (if Enable c then s\<lparr>enabledCaps := insert (CapName c) (enabledCaps s)\<rparr>
                    else s\<lparr>enabledCaps := enabledCaps s - {CapName c}\<rparr>)))
                    (if Enable c then s\<lparr>enabledCaps := insert (CapName c) (enabledCaps s)\<rparr>
                    else s\<lparr>enabledCaps := enabledCaps s - {CapName c}\<rparr>)
                else Returned (if Enable c then s\<lparr>enabledCaps := insert (CapName c) (enabledCaps s)\<rparr>
                    else s\<lparr>enabledCaps := enabledCaps s - {CapName c}\<rparr>)
            | None \<Rightarrow>
                if channels (if Enable c then s\<lparr>enabledCaps := insert (CapName c) (enabledCaps s)\<rparr>
                    else s\<lparr>enabledCaps := enabledCaps s - {CapName c}\<rparr>) \<noteq> [] \<and> CapName c = ''multi-prefix''
                then sendNames (map fst (channels (if Enable c then s\<lparr>enabledCaps := insert (CapName c) (enabledCaps s)\<rparr>
                    else s\<lparr>enabledCaps := enabledCaps s - {CapName c}\<rparr>)))
                    (if Enable c then s\<lparr>enabledCaps := insert (CapName c) (enabledCaps s)\<rparr>
                    else s\<lparr>enabledCaps := enabledCaps s - {CapName c}\<rparr>)
                else Returned (if Enable c then s\<lparr>enabledCaps := insert (CapName c) (enabledCaps s)\<rparr>
                    else s\<lparr>enabledCaps := enabledCaps s - {CapName c}\<rparr>)) = Returned s1"
    and b: "capACK cs s1 = Returned s'"
    by (auto simp: Let_def obind_Returned)
  from a have "rosterKeyed env s1 = rosterKeyed env s"
    by (auto split: option.splits if_splits dest: rosterKeyed_send[where env = env] rosterKeyed_sendNames[where env = env])
  with Cons.IH[OF b] show ?case by simp
qed

named_theorems roster_kept

lemma rosterKeyed_partChannel:
  "partChannel env n c who tm s = Returned (s', r) \<Longrightarrow> rosterKeyed env s \<Longrightarrow> rosterKeyed env s'"
  by (auto simp: partChannel_def Let_def rosterKeyed_cleanUser rosterKeyed_foldl_cleanUser
      split: option.splits if_splits)

lemma roster_Isupport:
  assumes "caseIsupport env msg s = Returned (s', r)" and "casemap s' = casemap s"
  shows "rosterKeyed env s' = rosterKeyed env s"
proof (cases "length (Params msg) < 3")
  case True
  with assms show ?thesis by (simp add: caseIsupport_def)
next
  case False
  with assms(1) obtain s1 where "updateFeatures env (butlast (tl (Params msg))) s = Returned s1" "s' = s1"
    by (auto simp: caseIsupport_def obind_Returned)
  with roster_updateFeatures[of env _ s s'] assms(2) show ?thesis
    by (intro rosterKeyed_same) simp_all
qed

lemma roster_AUTHENTICATE [roster_kept]:
  "caseAUTHENTICATE msg s = Returned (s', r) \<Longrightarrow> rosterKeyed env s \<Longrightarrow> rosterKeyed env s'"
  by (auto simp: caseAUTHENTICATE_def Let_def obind_Returned rosterKeyed_namesLoop rosterKeyed_ensureUser
      split: option.splits if_splits prod.splits sum.splits
      dest: rosterKeyed_send[where env = env] rosterKeyed_endRegistration[where env = env]
        rosterKeyed_sendNames[where env = env] rosterKeyed_capACK[where env = env]
        rosterKeyed_capNEW[where env = env] rosterKeyed_quitLoop rosterKeyed_monLoop
        rosterKeyed_partChannel retMessage_keys)

lemma roster_Loggedin [roster_kept]:
  "caseLoggedin env msg s = Returned (s', r) \<Longrightarrow> rosterKeyed env s \<Longrightarrow> rosterKeyed env s'"
  by (auto simp: caseLoggedin_def Let_def obind_Returned rosterKeyed_namesLoop rosterKeyed_ensureUser
      split: option.splits if_splits prod.splits sum.splits
      dest: rosterKeyed_send[where env = env] rosterKeyed_endRegistration[where env = env]
        rosterKeyed_sendNames[where env = env] rosterKeyed_capACK[where env = env]
        rosterKeyed_capNEW[where env = env] rosterKeyed_quitLoop rosterKeyed_monLoop
        rosterKeyed_partChannel retMessage_keys)

lemma roster_SaslFailure [roster_kept]:
  "caseSaslFailure msg s = Returned (s', r) \<Longrightarrow> rosterKeyed env s \<Longrightarrow> rosterKeyed env s'"
  by (auto simp: caseSaslFailure_def Let_def obind_Returned rosterKeyed_namesLoop rosterKeyed_ensureUser
      split: option.splits if_splits prod.splits sum.splits
      dest: rosterKeyed_send[where env = env] rosterKeyed_endRegistration[where env = env]
        rosterKeyed_sendNames[where env = env] rosterKeyed_capACK[where env = env]
        rosterKeyed_capNEW[where env = env] rosterKeyed_quitLoop rosterKeyed_monLoop
        rosterKeyed_partChannel retMessage_keys)

lemma roster_Welcome [roster_kept]:
  assumes run: "caseWelcome env msg s = Returned (s', r)" and inv: "rosterKeyed env s"
  shows "rosterKeyed env s'"
proof -
  let ?s4 = "s\<lparr>nick := Params msg ! 0, nickCf := Casemap env s (Params msg ! 0), registered := True,
      store := (store s)(nextRef s := \<lparr>UName = \<lparr>Name = Params msg ! 0, User = user s, Host = host s\<rparr>,
                                        Away = False, Disconnected = False\<rparr>),
      nextRef := Suc (nextRef s),
      users := (users s)(Casemap env s (Params msg ! 0) \<mapsto> nextRef s)\<rparr>"
  from inv have k: "rosterKeyed env ?s4"
    by (auto simp: rosterKeyed_def userKey_def less_Suc_eq)
  from run have "s' = s \<or> s' = ?s4 \<or> send (NewMessage ''WHO'' [Params msg ! 0]) ?s4 = Returned s'"
    by (auto simp: caseWelcome_def Let_def newUser_def obind_Returned split: option.splits if_splits)
  with inv k rosterKeyed_send[of _ ?s4 s' env] show ?thesis by auto
qed

lemma roster_Whoreply [roster_kept]:
  "caseWhoreply env msg s = Returned (s', r) \<Longrightarrow> rosterKeyed env s \<Longrightarrow> rosterKeyed env s'"
  by (auto simp: caseWhoreply_def Let_def obind_Returned rosterKeyed_namesLoop rosterKeyed_ensureUser
      split: option.splits if_splits prod.splits sum.splits
      dest: rosterKeyed_send[where env = env] rosterKeyed_endRegistration[where env = env]
        rosterKeyed_sendNames[where env = env] rosterKeyed_capACK[where env = env]
        rosterKeyed_capNEW[where env = env] rosterKeyed_quitLoop rosterKeyed_monLoop
        rosterKeyed_partChannel retMessage_keys)

lemma roster_CAP [roster_kept]:
  "caseCAP env msg s = Returned (s', r) \<Longrightarrow> rosterKeyed env s \<Longrightarrow> rosterKeyed env s'"
  by (auto simp: caseCAP_def Let_def obind_Returned rosterKeyed_namesLoop rosterKeyed_ensureUser
      split: option.splits if_splits prod.splits sum.splits
      dest: rosterKeyed_send[where env = env] rosterKeyed_endRegistration[where env = env]
        rosterKeyed_sendNames[where env = env] rosterKeyed_capACK[where env = env]
        rosterKeyed_capNEW[where env = env] rosterKeyed_quitLoop rosterKeyed_monLoop
        rosterKeyed_partChannel retMessage_keys)

lemma roster_JOIN [roster_kept]:
  "caseJOIN env msg playback now s = Returned (s', r) \<Longrightarrow> rosterKeyed env s \<Longrightarrow> rosterKeyed env s'"
  by (auto simp: caseJOIN_def Let_def obind_Returned rosterKeyed_namesLoop rosterKeyed_ensureUser
      split: option.splits if_splits prod.splits sum.splits
      dest: rosterKeyed_send[where env = env] rosterKeyed_endRegistration[where env = env]
        rosterKeyed_sendNames[where env = env] rosterKeyed_capACK[where env = env]
        rosterKeyed_capNEW[where env = env] rosterKeyed_quitLoop rosterKeyed_monLoop
        rosterKeyed_partChannel retMessage_keys)

lemma roster_PART [roster_kept]:
  "casePART env msg playback now s = Returned (s', r) \<Longrightarrow> rosterKeyed env s \<Longrightarrow> rosterKeyed env s'"
  by (auto simp: casePART_def Let_def obind_Returned rosterKeyed_namesLoop rosterKeyed_ensureUser
      split: option.splits if_splits prod.splits sum.splits
      dest: rosterKeyed_send[where env = env] rosterKeyed_endRegistration[where env = env]
        rosterKeyed_sendNames[where env = env] rosterKeyed_capACK[where env = env]
        rosterKeyed_capNEW[where env = env] rosterKeyed_quitLoop rosterKeyed_monLoop
        rosterKeyed_partChannel retMessage_keys)

lemma roster_KICK [roster_kept]:
  "caseKICK env msg playback now s = Returned (s', r) \<Longrightarrow> rosterKeyed env s \<Longrightarrow> rosterKeyed env s'"
  by (auto simp: caseKICK_def Let_def obind_Returned rosterKeyed_namesLoop rosterKeyed_ensureUser
      split: option.splits if_splits prod.splits sum.splits
      dest: rosterKeyed_send[where env = env] rosterKeyed_endRegistration[where env = env]
        rosterKeyed_sendNames[where env = env] rosterKeyed_capACK[where env = env]
        rosterKeyed_capNEW[where env = env] rosterKeyed_quitLoop rosterKeyed_monLoop
        rosterKeyed_partChannel retMessage_keys)

lemma roster_QUIT [roster_kept]:
  "caseQUIT env msg playback now s = Returned (s', r) \<Longrightarrow> rosterKeyed env s \<Longrightarrow> rosterKeyed env s'"
  by (auto simp: caseQUIT_def Let_def obind_Returned rosterKeyed_namesLoop rosterKeyed_ensureUser
      split: option.splits if_splits prod.splits sum.splits
      dest: rosterKeyed_send[where env = env] rosterKeyed_endRegistration[where env = env]
        rosterKeyed_sendNames[where env = env] rosterKeyed_capACK[where env = env]
        rosterKeyed_capNEW[where env = env] rosterKeyed_quitLoop rosterKeyed_monLoop
        rosterKeyed_partChannel retMessage_keys)

lemma roster_Monitor [roster_kept]:
  "caseMonitor env off msg s = Returned (s', r) \<Longrightarrow> rosterKeyed env s \<Longrightarrow> rosterKeyed env s'"
  by (auto simp: caseMonitor_def Let_def obind_Returned rosterKeyed_namesLoop rosterKeyed_ensureUser
      split: option.splits if_splits prod.splits sum.splits
      dest: rosterKeyed_send[where env = env] rosterKeyed_endRegistration[where env = env]
        rosterKeyed_sendNames[where env = env] rosterKeyed_capACK[where env = env]
        rosterKeyed_capNEW[where env = env] rosterKeyed_quitLoop rosterKeyed_monLoop
        rosterKeyed_partChannel retMessage_keys)

lemma roster_Namreply [roster_kept]:
  "caseNamreply env msg s = Returned (s', r) \<Longrightarrow> rosterKeyed env s \<Longrightarrow> rosterKeyed env s'"
  by (auto simp: caseNamreply_def Let_def obind_Returned rosterKeyed_namesLoop rosterKeyed_ensureUser
      split: option.splits if_splits prod.splits sum.splits
      dest: rosterKeyed_send[where env = env] rosterKeyed_endRegistration[where env = env]
        rosterKeyed_sendNames[where env = env] rosterKeyed_capACK[where env = env]
        rosterKeyed_capNEW[where env = env] rosterKeyed_quitLoop rosterKeyed_monLoop
        rosterKeyed_partChannel retMessage_keys)

lemma roster_Endofnames [roster_kept]:
  "caseEndofnames env msg now s = Returned (s', r) \<Longrightarrow> rosterKeyed env s \<Longrightarrow> rosterKeyed env s'"
  by (auto simp: caseEndofnames_def Let_def obind_Returned rosterKeyed_namesLoop rosterKeyed_ensureUser
      split: option.splits if_splits prod.splits sum.splits
      dest: rosterKeyed_send[where env = env] rosterKeyed_endRegistration[where env = env]
        rosterKeyed_sendNames[where env = env] rosterKeyed_capACK[where env = env]
        rosterKeyed_capNEW[where env = env] rosterKeyed_quitLoop rosterKeyed_monLoop
        rosterKeyed_partChannel retMessage_keys)

lemma roster_Topic [roster_kept]:
  "caseTopic env msg s = Returned (s', r) \<Longrightarrow> rosterKeyed env s \<Longrightarrow> rosterKeyed env s'"
  by (auto simp: caseTopic_def Let_def obind_Returned rosterKeyed_namesLoop rosterKeyed_ensureUser
      split: option.splits if_splits prod.splits sum.splits
      dest: rosterKeyed_send[where env = env] rosterKeyed_endRegistration[where env = env]
        rosterKeyed_sendNames[where env = env] rosterKeyed_capACK[where env = env]
        rosterKeyed_capNEW[where env = env] rosterKeyed_quitLoop rosterKeyed_monLoop
        rosterKeyed_partChannel retMessage_keys)

lemma roster_Topicwhotime [roster_kept]:
  "caseTopicwhotime env msg s = Returned (s', r) \<Longrightarrow> rosterKeyed env s \<Longrightarrow> rosterKeyed env s'"
  by (auto simp: caseTopicwhotime_def Let_def obind_Returned rosterKeyed_namesLoop rosterKeyed_ensureUser
      split: option.splits if_splits prod.splits sum.splits
      dest: rosterKeyed_send[where env = env] rosterKeyed_endRegistration[where env = env]
        rosterKeyed_sendNames[where env = env] rosterKeyed_capACK[where env = env]
        rosterKeyed_capNEW[where env = env] rosterKeyed_quitLoop rosterKeyed_monLoop
        rosterKeyed_partChannel retMessage_keys)

lemma roster_Notopic [roster_kept]:
  "caseNotopic env msg s = Returned (s', r) \<Longrightarrow> rosterKeyed env s \<Longrightarrow> rosterKeyed env s'"
  by (auto simp: caseNotopic_def Let_def obind_Returned rosterKeyed_namesLoop rosterKeyed_ensureUser
      split: option.splits if_splits prod.splits sum.splits
      dest: rosterKeyed_send[where env = env] rosterKeyed_endRegistration[where env = env]
        rosterKeyed_sendNames[where env = env] rosterKeyed_capACK[where env = env]
        rosterKeyed_capNEW[where env = env] rosterKeyed_quitLoop rosterKeyed_monLoop
        rosterKeyed_partChannel retMessage_keys)

lemma roster_TOPIC [roster_kept]:
  "caseTOPIC env msg playback now s = Returned (s', r) \<Longrightarrow> rosterKeyed env s \<Longrightarrow> rosterKeyed env s'"
  by (auto simp: caseTOPIC_def Let_def obind_Returned rosterKeyed_namesLoop rosterKeyed_ensureUser
      split: option.splits if_splits prod.splits sum.splits
      dest: rosterKeyed_send[where env = env] rosterKeyed_endRegistration[where env = env]
        rosterKeyed_sendNames[where env = env] rosterKeyed_capACK[where env = env]
        rosterKeyed_capNEW[where env = env] rosterKeyed_quitLoop rosterKeyed_monLoop
        rosterKeyed_partChannel retMessage_keys)

lemma roster_MODE [roster_kept]:
  "caseMODE env msg playback now s = Returned (s', r) \<Longrightarrow> rosterKeyed env s \<Longrightarrow> rosterKeyed env s'"
  by (auto simp: caseMODE_def Let_def obind_Returned rosterKeyed_namesLoop rosterKeyed_ensureUser
      split: option.splits if_splits prod.splits sum.splits
      dest: rosterKeyed_send[where env = env] rosterKeyed_endRegistration[where env = env]
        rosterKeyed_sendNames[where env = env] rosterKeyed_capACK[where env = env]
        rosterKeyed_capNEW[where env = env] rosterKeyed_quitLoop rosterKeyed_monLoop
        rosterKeyed_partChannel retMessage_keys)

lemma roster_INVITE [roster_kept]:
  "caseINVITE msg s = Returned (s', r) \<Longrightarrow> rosterKeyed env s \<Longrightarrow> rosterKeyed env s'"
  by (auto simp: caseINVITE_def Let_def obind_Returned rosterKeyed_namesLoop rosterKeyed_ensureUser
      split: option.splits if_splits prod.splits sum.splits
      dest: rosterKeyed_send[where env = env] rosterKeyed_endRegistration[where env = env]
        rosterKeyed_sendNames[where env = env] rosterKeyed_capACK[where env = env]
        rosterKeyed_capNEW[where env = env] rosterKeyed_quitLoop rosterKeyed_monLoop
        rosterKeyed_partChannel retMessage_keys)

lemma roster_Inviting [roster_kept]:
  "caseInviting msg s = Returned (s', r) \<Longrightarrow> rosterKeyed env s \<Longrightarrow> rosterKeyed env s'"
  by (auto simp: caseInviting_def Let_def obind_Returned rosterKeyed_namesLoop rosterKeyed_ensureUser
      split: option.splits if_splits prod.splits sum.splits
      dest: rosterKeyed_send[where env = env] rosterKeyed_endRegistration[where env = env]
        rosterKeyed_sendNames[where env = env] rosterKeyed_capACK[where env = env]
        rosterKeyed_capNEW[where env = env] rosterKeyed_quitLoop rosterKeyed_monLoop
        rosterKeyed_partChannel retMessage_keys)

lemma roster_AWAY [roster_kept]:
  "caseAWAY env msg s = Returned (s', r) \<Longrightarrow> rosterKeyed env s \<Longrightarrow> rosterKeyed env s'"
  by (auto simp: caseAWAY_def Let_def obind_Returned rosterKeyed_namesLoop rosterKeyed_ensureUser
      split: option.splits if_splits prod.splits sum.splits
      dest: rosterKeyed_send[where env = env] rosterKeyed_endRegistration[where env = env]
        rosterKeyed_sendNames[where env = env] rosterKeyed_capACK[where env = env]
        rosterKeyed_capNEW[where env = env] rosterKeyed_quitLoop rosterKeyed_monLoop
        rosterKeyed_partChannel retMessage_keys)

lemma roster_PRIVMSG [roster_kept]:
  "casePRIVMSG env msg playback now s = Returned (s', r) \<Longrightarrow> rosterKeyed env s \<Longrightarrow> rosterKeyed env s'"
  by (auto simp: casePRIVMSG_def Let_def obind_Returned rosterKeyed_namesLoop rosterKeyed_ensureUser
      split: option.splits if_splits prod.splits sum.splits
      dest: rosterKeyed_send[where env = env] rosterKeyed_endRegistration[where env = env]
        rosterKeyed_sendNames[where env = env] rosterKeyed_capACK[where env = env]
        rosterKeyed_capNEW[where env = env] rosterKeyed_quitLoop rosterKeyed_monLoop
        rosterKeyed_partChannel retMessage_keys)

lemma roster_TAGMSG [roster_kept]:
  "caseTAGMSG env msg playback s = Returned (s', r) \<Longrightarrow> rosterKeyed env s \<Longrightarrow> rosterKeyed env s'"
  by (auto simp: caseTAGMSG_def Let_def obind_Returned rosterKeyed_namesLoop rosterKeyed_ensureUser
      split: option.splits if_splits prod.splits sum.splits
      dest: rosterKeyed_send[where env = env] rosterKeyed_endRegistration[where env = env]
        rosterKeyed_sendNames[where env = env] rosterKeyed_capACK[where env = env]
        rosterKeyed_capNEW[where env = env] rosterKeyed_quitLoop rosterKeyed_monLoop
        rosterKeyed_partChannel retMessage_keys)

lemma roster_BATCH [roster_kept]:
  "caseBATCH env msg s = Returned (s', r) \<Longrightarrow> rosterKeyed env s \<Longrightarrow> rosterKeyed env s'"
  by (auto simp: caseBATCH_def Let_def obind_Returned rosterKeyed_namesLoop rosterKeyed_ensureUser
      split: option.splits if_splits prod.splits sum.splits
      dest: rosterKeyed_send[where env = env] rosterKeyed_endRegistration[where env = env]
        rosterKeyed_sendNames[where env = env] rosterKeyed_capACK[where env = env]
        rosterKeyed_capNEW[where env = env] rosterKeyed_quitLoop rosterKeyed_monLoop
        rosterKeyed_partChannel retMessage_keys)

lemma rosterKeyed_rename:
  assumes inv: "rosterKeyed env s" and u: "users s k = Some u"
  shows "rosterKeyed env (s\<lparr>store := (store s)(u := (store s u)\<lparr>UName := (UName (store s u))\<lparr>Name := n\<rparr>\<rparr>),
            users := ((users s)(k := None))(Casemap env s n \<mapsto> u)\<rparr>)"
  unfolding rosterKeyed_def userKey_def
proof (intro allI impI)
  fix k' u'
  let ?s1 = "s\<lparr>store := (store s)(u := (store s u)\<lparr>UName := (UName (store s u))\<lparr>Name := n\<rparr>\<rparr>),
            users := ((users s)(k := None))(Casemap env s n \<mapsto> u)\<rparr>"
  assume a: "users ?s1 k' = Some u'"
  from inv u have ku: "userKey env s u = k" "u < nextRef s" by (auto simp: rosterKeyed_def)
  show "Casemap env ?s1 (Name (UName (store ?s1 u'))) = k' \<and> u' < nextRef ?s1"
  proof (cases "k' = Casemap env s n")
    case True
    with a have "u' = u" by simp
    with True ku show ?thesis by simp
  next
    case False
    with a have b: "k' \<noteq> k" "users s k' = Some u'" by (auto split: if_splits)
    with inv have c: "userKey env s u' = k'" "u' < nextRef s" by (auto simp: rosterKeyed_def)
    with ku b have "u' \<noteq> u" by auto
    with c show ?thesis by (simp add: userKey_def)
  qed
qed

lemma roster_NICK [roster_kept]:
  assumes run: "caseNICK env msg playback now s = Returned (s', r)" and inv: "rosterKeyed env s"
  shows "rosterKeyed env s'"
  using run inv rosterKeyed_rename[OF inv]
  by (auto simp: caseNICK_def Let_def split: option.splits if_splits)

lemma roster_READ [roster_kept]:
  "caseREAD env msg s = Returned (s', r) \<Longrightarrow> rosterKeyed env s \<Longrightarrow> rosterKeyed env s'"
  by (auto simp: caseREAD_def Let_def obind_Returned rosterKeyed_namesLoop rosterKeyed_ensureUser
      split: option.splits if_splits prod.splits sum.splits
      dest: rosterKeyed_send[where env = env] rosterKeyed_endRegistration[where env = env]
        rosterKeyed_sendNames[where env = env] rosterKeyed_capACK[where env = env]
        rosterKeyed_capNEW[where env = env] rosterKeyed_quitLoop rosterKeyed_monLoop
        rosterKeyed_partChannel retMessage_keys)

lemma roster_BOUNCER [roster_kept]:
  "caseBOUNCER env msg s = Returned (s', r) \<Longrightarrow> rosterKeyed env s \<Longrightarrow> rosterKeyed env s'"
  by (auto simp: caseBOUNCER_def Let_def obind_Returned rosterKeyed_namesLoop rosterKeyed_ensureUser
      split: option.splits if_splits prod.splits sum.splits
      dest: rosterKeyed_send[where env = env] rosterKeyed_endRegistration[where env = env]
        rosterKeyed_sendNames[where env = env] rosterKeyed_capACK[where env = env]
        rosterKeyed_capNEW[where env = env] rosterKeyed_quitLoop rosterKeyed_monLoop
        rosterKeyed_partChannel retMessage_keys)

lemma roster_PING [roster_kept]:
  "casePING msg s = Returned (s', r) \<Longrightarrow> rosterKeyed env s \<Longrightarrow> rosterKeyed env s'"
  by (auto simp: casePING_def Let_def obind_Returned rosterKeyed_namesLoop rosterKeyed_ensureUser
      split: option.splits if_splits prod.splits sum.splits
      dest: rosterKeyed_send[where env = env] rosterKeyed_endRegistration[where env = env]
        rosterKeyed_sendNames[where env = env] rosterKeyed_capACK[where env = env]
        rosterKeyed_capNEW[where env = env] rosterKeyed_quitLoop rosterKeyed_monLoop
        rosterKeyed_partChannel retMessage_keys)

lemma roster_FAIL [roster_kept]:
  "caseFAIL msg s = Returned (s', r) \<Longrightarrow> rosterKeyed env s \<Longrightarrow> rosterKeyed env s'"
  by (auto simp: caseFAIL_def Let_def obind_Returned rosterKeyed_namesLoop rosterKeyed_ensureUser
      split: option.splits if_splits prod.splits sum.splits
      dest: rosterKeyed_send[where env = env] rosterKeyed_endRegistration[where env = env]
        rosterKeyed_sendNames[where env = env] rosterKeyed_capACK[where env = env]
        rosterKeyed_capNEW[where env = env] rosterKeyed_quitLoop rosterKeyed_monLoop
        rosterKeyed_partChannel retMessage_keys)

lemma roster_Default [roster_kept]:
  "caseDefault env msg s = Returned (s', r) \<Longrightarrow> rosterKeyed env s \<Longrightarrow> rosterKeyed env s'"
  by (auto simp: caseDefault_def Let_def obind_Returned rosterKeyed_namesLoop rosterKeyed_ensureUser
      split: option.splits if_splits prod.splits sum.splits
      dest: rosterKeyed_send[where env = env] rosterKeyed_endRegistration[where env = env]
        rosterKeyed_sendNames[where env = env] rosterKeyed_capACK[where env = env]
        rosterKeyed_capNEW[where env = env] rosterKeyed_quitLoop rosterKeyed_monLoop
        rosterKeyed_partChannel retMessage_keys)

text \<open>Every message that leaves the casemapping as it is keeps the roster keyed.\<close>

lemma handleMessageRegistered_rosterKeyed:
  assumes run: "handleMessageRegistered env msg playback now s = Returned (s', r)"
    and inv: "rosterKeyed env s" and cm: "casemap s' = casemap s"
  shows "rosterKeyed env s'"
proof (cases "Command msg = rplIsupport")
  case True
  with run have "caseIsupport env msg s = Returned (s', r)"
    by (simp add: handleMessageRegistered_def numerics)
  from roster_Isupport[OF this cm] inv show ?thesis by simp
next
  case False
  with run inv show ?thesis
    unfolding handleMessageRegistered_def Let_def
    by (auto split: if_splits dest: roster_kept)
qed

text \<open>In a keyed roster a recorded user is found under its casemapped name and nowhere else.\<close>

lemma rosterKeyed_record:
  assumes "rosterKeyed env s" and "users s k = Some u"
  shows "\<forall>k'. users s k' = Some u \<longleftrightarrow> k' = userKey env s u"
  using assms by (auto simp: rosterKeyed_def)


section \<open>splitChunks\<close>

text \<open>A byte is a continuation byte when its value lies between 0x80 and 0xBF.\<close>

lemma RuneStart_range: "RuneStart b \<longleftrightarrow> \<not> (128 \<le> byteval b \<and> byteval b < 192)"
proof (cases b)
  case (Char b0 b1 b2 b3 b4 b5 b6 b7)
  show ?thesis
    unfolding Char RuneStart_def byteval_def
    by (cases b0; cases b1; cases b2; cases b3; cases b4; cases b5; cases b6; cases b7; simp)
qed

lemma acceptRanges_cont: "acceptRanges b = Some rs \<Longrightarrow> contRanges rs"
  by (auto simp: acceptRanges_def contRanges_def Let_def split: if_splits)

lemma acceptRanges_start: "acceptRanges b = Some rs \<Longrightarrow> RuneStart b"
  by (auto simp: acceptRanges_def RuneStart_range Let_def split: if_splits)

lemma utf8_run_append:
  "utf8_run rs (xs @ ys) = (case utf8_run rs xs of None \<Rightarrow> None | Some rs' \<Rightarrow> utf8_run rs' ys)"
  by (induction rs xs rule: utf8_run.induct) (auto split: option.splits)

lemma utf8_run_snoc:
  "utf8_run rs (xs @ [b]) = (case utf8_run rs xs of None \<Rightarrow> None | Some rs' \<Rightarrow> utf8_run rs' [b])"
  by (rule utf8_run_append)

lemma utf8_run_cont:
  "contRanges rs \<Longrightarrow> utf8_run rs xs = Some rs' \<Longrightarrow> contRanges rs'"
proof (induction rs xs rule: utf8_run.induct)
  case (1 rs) then show ?case by simp
next
  case (2 b bs) then show ?case by (auto split: option.splits dest: acceptRanges_cont)
next
  case (3 lo hi rs b bs)
  then show ?case by (auto simp: contRanges_def split: if_splits)
qed

text \<open>The decoder state before byte k of a valid string.\<close>

lemma valid_prefix_state:
  assumes v: "ValidString s" and k: "k \<le> length s"
  shows "\<exists>rs. utf8_run [] (take k s) = Some rs \<and> contRanges rs \<and> utf8_run rs (drop k s) = Some []"
proof -
  have "utf8_run [] (take k s @ drop k s) = Some []" using v by (simp add: ValidString_def)
  then obtain rs where rs: "utf8_run [] (take k s) = Some rs" "utf8_run rs (drop k s) = Some []"
    by (auto simp: utf8_run_append split: option.splits simp del: append_take_drop_id)
  moreover have "contRanges rs" using utf8_run_cont[OF _ rs(1)] by (simp add: contRanges_def)
  ultimately show ?thesis by blast
qed

lemma state_start_iff:
  assumes "contRanges rs" and "utf8_run rs (b # bs) = Some rs'"
  shows "RuneStart b \<longleftrightarrow> rs = []"
proof (cases rs)
  case Nil
  with assms show ?thesis by (auto split: option.splits dest: acceptRanges_start)
next
  case (Cons r rs1)
  obtain lo hi where r: "r = (lo, hi)" by (cases r)
  with Cons assms show ?thesis
    by (auto simp: contRanges_def RuneStart_range split: if_splits)
qed

lemma state_step_length:
  assumes "utf8_run rs [b] = Some rs'" and "rs \<noteq> []"
  shows "length rs = Suc (length rs')"
proof (cases rs)
  case Nil with assms show ?thesis by simp
next
  case (Cons r rs1)
  obtain lo hi where "r = (lo, hi)" by (cases r)
  with Cons assms show ?thesis by (auto split: if_splits)
qed


lemma valid_rune_start_iff:
  assumes v: "ValidString s" and k: "k < length s" and st: "utf8_run [] (take k s) = Some rs"
  shows "RuneStart (s ! k) \<longleftrightarrow> rs = []"
proof -
  from valid_prefix_state[OF v, of k] k st
  have c: "contRanges rs" and r: "utf8_run rs (drop k s) = Some []" by auto
  from k have "drop k s = s ! k # drop (Suc k) s" by (simp add: Cons_nth_drop_Suc)
  with r have "utf8_run rs (s ! k # drop (Suc k) s) = Some []" by simp
  from state_start_iff[OF c this] show ?thesis .
qed

lemma valid_state_succ:
  assumes k: "k < length s" and st: "utf8_run [] (take k s) = Some rs"
    and st': "utf8_run [] (take (Suc k) s) = Some rs'" and ne: "rs \<noteq> []"
  shows "length rs = Suc (length rs')"
proof -
  from k have "take (Suc k) s = take k s @ [s ! k]" by (simp add: take_Suc_conv_app_nth)
  with st st' have "utf8_run rs [s ! k] = Some rs'" by (simp add: utf8_run_snoc)
  from state_step_length[OF this ne] show ?thesis .
qed

lemma valid_split_at:
  assumes v: "ValidString s" and k: "k \<le> length s" and st: "utf8_run [] (take k s) = Some []"
  shows "ValidString (take k s) \<and> ValidString (drop k s)"
  using valid_prefix_state[OF v k] st by (simp add: ValidString_def)

lemma charsWithin_4: "4 \<le> M \<Longrightarrow> charsWithin M s"
proof -
  assume M: "4 \<le> M"
  have "acceptRanges b = Some rs \<Longrightarrow> int (length rs) < M" for b rs
    using acceptRanges_cont[of b rs] M by (simp add: contRanges_def)
  then show ?thesis by (auto simp: charsWithin_def list_all_iff split: option.splits)
qed

lemma charsWithin_drop: "charsWithin M s \<Longrightarrow> charsWithin M (drop j s)"
  by (auto simp: charsWithin_def list_all_iff dest: in_set_dropD)

lemma decoderState_run:
  assumes "ValidString s" and "p \<le> length s"
  shows "utf8_run [] (take p s) = Some (decoderState s p)"
  using valid_prefix_state[OF assms] by (auto simp: decoderState_def)

lemma decoderState_0 [simp]: "decoderState s 0 = []"
  by (simp add: decoderState_def)

lemma decoderState_step:
  assumes v: "ValidString s" and p: "p < length s"
  shows "utf8_run (decoderState s p) [s ! p] = Some (decoderState s (Suc p))"
proof -
  from p have "take (Suc p) s = take p s @ [s ! p]" by (simp add: take_Suc_conv_app_nth)
  with decoderState_run[OF v, of p] decoderState_run[OF v, of "Suc p"] p
  show ?thesis by (simp add: utf8_run_snoc)
qed

lemma decoderState_lead:
  assumes v: "ValidString s" and p: "p < length s" and e: "decoderState s p = []"
  shows "acceptRanges (s ! p) = Some (decoderState s (Suc p))"
  using decoderState_step[OF v p] e by (simp split: option.splits)

lemma decoderState_cont:
  assumes v: "ValidString s" and p: "p < length s" and ne: "decoderState s p \<noteq> []"
  shows "length (decoderState s p) = Suc (length (decoderState s (Suc p)))"
  using state_step_length[OF decoderState_step[OF v p] ne] .

lemma decoderState_start:
  assumes v: "ValidString s" and p: "p < length s"
  shows "RuneStart (s ! p) \<longleftrightarrow> decoderState s p = []"
  using valid_rune_start_iff[OF v p decoderState_run[OF v]] p by simp

text \<open>Going back from a position, the last character boundary and the lead byte there.\<close>

lemma last_boundary:
  assumes v: "ValidString s" and p: "p \<le> length s"
  shows "\<exists>j \<le> p. decoderState s j = [] \<and> (\<forall>k. j < k \<and> k \<le> p \<longrightarrow> decoderState s k \<noteq> []) \<and>
           (j < p \<longrightarrow> (\<exists>rs. acceptRanges (s ! j) = Some rs \<and>
                          length rs = length (decoderState s p) + (p - j - 1)))"
  using p
proof (induction p)
  case 0
  show ?case by simp
next
  case (Suc p)
  then have pl: "p < length s" by simp
  from Suc.IH pl obtain j where j: "j \<le> p" "decoderState s j = []"
    "\<forall>k. j < k \<and> k \<le> p \<longrightarrow> decoderState s k \<noteq> []"
    "j < p \<longrightarrow> (\<exists>rs. acceptRanges (s ! j) = Some rs \<and>
                          length rs = length (decoderState s p) + (p - j - 1))" by auto
  show ?case
  proof (cases "decoderState s (Suc p) = []")
    case True
    then show ?thesis by (intro exI[of _ "Suc p"]) auto
  next
    case ne: False
    show ?thesis
    proof (cases "decoderState s p = []")
      case True
      from decoderState_lead[OF v pl True] ne
      show ?thesis
        by (intro exI[of _ p]) (auto simp: True le_Suc_eq)
    next
      case False
      with j have jp: "j < p" by (cases "j = p") auto
      from decoderState_cont[OF v pl False] j(4) jp
      obtain rs where rs: "acceptRanges (s ! j) = Some rs"
        "length rs = length (decoderState s (Suc p)) + (Suc p - j - 1)" by auto
      have "\<forall>k. j < k \<and> k \<le> Suc p \<longrightarrow> decoderState s k \<noteq> []"
        using j(3) ne by (auto simp: le_Suc_eq)
      with j(1,2) rs jp show ?thesis by (intro exI[of _ j]) auto
    qed
  qed
qed

lemma valid_scan_target:
  assumes v: "ValidString s" and cw: "charsWithin (int M) s" and M0: "0 < M" and Ml: "M < length s"
  shows "\<exists>j. 1 \<le> j \<and> j \<le> M \<and> M \<le> j + 3 \<and> RuneStart (s ! j) \<and>
             (\<forall>k. j < k \<and> k \<le> M \<longrightarrow> \<not> RuneStart (s ! k)) \<and>
             ValidString (take j s) \<and> ValidString (drop j s)"
proof -
  from last_boundary[OF v, of M] Ml obtain j where j: "j \<le> M" "decoderState s j = []"
    "\<forall>k. j < k \<and> k \<le> M \<longrightarrow> decoderState s k \<noteq> []"
    "j < M \<longrightarrow> (\<exists>rs. acceptRanges (s ! j) = Some rs \<and>
                          length rs = length (decoderState s M) + (M - j - 1))" by auto
  have j1: "1 \<le> j \<and> M \<le> j + 3"
  proof (cases "j < M")
    case False
    with j(1) M0 show ?thesis by simp
  next
    case True
    with j(4) obtain rs where rs: "acceptRanges (s ! j) = Some rs"
      "length rs = length (decoderState s M) + (M - j - 1)" by auto
    from j(3) True have "decoderState s M \<noteq> []" by simp
    then have "1 \<le> length (decoderState s M)" by (cases "decoderState s M") auto
    with rs(2) True have "M - j \<le> length rs" by simp
    moreover have "s ! j \<in> set s" using True Ml by simp
    with cw rs(1) have "int (length rs) < int M" by (auto simp: charsWithin_def list_all_iff)
    moreover from acceptRanges_cont[OF rs(1)] have "length rs \<le> 3" by (simp add: contRanges_def)
    ultimately show ?thesis by arith
  qed
  have st: "RuneStart (s ! j)" using decoderState_start[OF v, of j] j(1,2) Ml by simp
  have ns: "\<forall>k. j < k \<and> k \<le> M \<longrightarrow> \<not> RuneStart (s ! k)"
    using decoderState_start[OF v] j(3) Ml by simp
  have "utf8_run [] (take j s) = Some []" using decoderState_run[OF v, of j] j(1,2) Ml by simp
  from valid_split_at[OF v _ this] j(1) Ml
  have "ValidString (take j s) \<and> ValidString (drop j s)" by simp
  with j1 j(1) st ns show ?thesis by blast
qed

lemma scanBack_found:
  "0 \<le> j \<Longrightarrow> j \<le> i \<Longrightarrow> i < int (length s) \<Longrightarrow> mn \<le> j \<Longrightarrow> RuneStart (s ! nat j) \<Longrightarrow>
   (\<forall>k. j < k \<and> k \<le> i \<longrightarrow> \<not> RuneStart (s ! nat k)) \<Longrightarrow> scanBack s mn i = Returned j"
proof (induction s mn i rule: scanBack.induct)
  case (1 s mn i)
  show ?case
  proof (cases "i = j")
    case True
    with "1.prems" show ?thesis by (subst scanBack.simps) simp
  next
    case False
    with "1.prems" have lt: "j < i" by simp
    with "1.prems" have ns: "\<not> RuneStart (s ! nat i)" by simp
    have "scanBack s mn (i - 1) = Returned j"
      using "1.IH" "1.prems" lt ns by simp
    with "1.prems" lt ns show ?thesis by (subst scanBack.simps) simp
  qed
qed

lemma scanBack_bounds:
  "0 \<le> mn \<Longrightarrow> mn - 1 \<le> i \<Longrightarrow> i < int (length s) \<Longrightarrow>
   \<exists>j. scanBack s mn i = Returned j \<and> mn - 1 \<le> j \<and> j \<le> i"
proof (induction s mn i rule: scanBack.induct)
  case (1 s mn i)
  show ?case
  proof (cases "mn \<le> i \<and> \<not> RuneStart (s ! nat i)")
    case True
    with "1.IH" "1.prems" obtain j where "scanBack s mn (i - 1) = Returned j" "mn - 1 \<le> j" "j \<le> i - 1"
      by auto
    with True "1.prems" show ?thesis by (subst scanBack.simps) simp
  next
    case False
    with "1.prems" show ?thesis by (subst scanBack.simps) auto
  qed
qed

lemma splitLoop_invariant:
  assumes step: "\<And>t. Inv t \<Longrightarrow> M < int (length t) \<Longrightarrow>
            \<exists>j. scanBack t (M - 4) M = Returned j \<and> 1 \<le> j \<and> j \<le> M \<and>
                Inv (drop (nat j) t) \<and> Q (take (nat j) t)"
    and last: "\<And>t. Inv t \<Longrightarrow> int (length t) \<le> M \<Longrightarrow> t \<noteq> [] \<Longrightarrow> Q t"
    and inv: "Inv s"
  shows "\<exists>cs. splitLoop s M acc = Some (Returned (acc @ cs)) \<and> concat cs = s \<and>
              list_all (\<lambda>c. c \<noteq> [] \<and> int (length c) \<le> M \<and> Q c) cs"
  using inv
proof (induction "length s" arbitrary: s acc rule: less_induct)
  case less
  show ?case
  proof (cases "M < int (length s)")
    case False
    then show ?thesis using last[OF less.prems] by (subst splitLoop.simps) auto
  next
    case True
    from step[OF less.prems True] obtain j where j: "scanBack s (M - 4) M = Returned j"
      "1 \<le> j" "j \<le> M" "Inv (drop (nat j) s)" "Q (take (nat j) s)" by blast
    have "length (drop (nat j) s) < length s" using j True by simp
    from less.hyps[OF this j(4), of "acc @ [take (nat j) s]"]
    obtain cs where cs: "splitLoop (drop (nat j) s) M ((acc @ [take (nat j) s])) =
        Some (Returned ((acc @ [take (nat j) s]) @ cs))" "concat cs = drop (nat j) s"
       "list_all (\<lambda>c. c \<noteq> [] \<and> int (length c) \<le> M \<and> Q c) cs" by blast
    have eq: "splitLoop s M acc = splitLoop (drop (nat j) s) M (acc @ [take (nat j) s])"
      using True j by (subst splitLoop.simps) simp
    have tk: "take (nat j) s \<noteq> [] \<and> int (length (take (nat j) s)) \<le> M"
      using j True by auto
    show ?thesis
      using eq cs j(5) tk by (intro exI[of _ "take (nat j) s # cs"]) simp
  qed
qed

lemma splitLoop_any:
  assumes M: "6 \<le> M"
  shows "\<exists>cs. splitLoop s M [] = Some (Returned cs) \<and> concat cs = s \<and>
              list_all (\<lambda>c. c \<noteq> [] \<and> int (length c) \<le> M \<and> True) cs"
proof -
  have "\<exists>cs. splitLoop s M [] = Some (Returned ([] @ cs)) \<and> concat cs = s \<and>
              list_all (\<lambda>c. c \<noteq> [] \<and> int (length c) \<le> M \<and> (\<lambda>_. True) c) cs"
  proof (rule splitLoop_invariant[where Inv = "\<lambda>_. True" and Q = "\<lambda>_. True"])
    fix t :: string assume "M < int (length t)"
    with scanBack_bounds[of "M - 4" M t] M
    show "\<exists>j. scanBack t (M - 4) M = Returned j \<and> 1 \<le> j \<and> j \<le> M \<and> True \<and> True"
      by auto
  qed simp_all
  then show ?thesis by simp
qed

lemma splitLoop_valid:
  assumes M: "0 < M" and v: "ValidString s" and cw: "charsWithin M s"
  shows "\<exists>cs. splitLoop s M [] = Some (Returned cs) \<and> concat cs = s \<and>
              list_all (\<lambda>c. c \<noteq> [] \<and> int (length c) \<le> M \<and> ValidString c) cs"
proof -
  have "\<exists>cs. splitLoop s M [] = Some (Returned ([] @ cs)) \<and> concat cs = s \<and>
              list_all (\<lambda>c. c \<noteq> [] \<and> int (length c) \<le> M \<and> ValidString c) cs"
  proof (rule splitLoop_invariant[where Inv = "\<lambda>t. ValidString t \<and> charsWithin M t" and Q = ValidString])
    fix t :: string assume inv: "ValidString t \<and> charsWithin M t" and lt: "M < int (length t)"
    from M lt inv have "0 < nat M" "nat M < length t" "charsWithin (int (nat M)) t" by auto
    from valid_scan_target[OF _ this(3,1,2)] inv obtain j where j: "1 \<le> j" "j \<le> nat M"
      "nat M \<le> j + 3" "RuneStart (t ! j)" "\<forall>k. j < k \<and> k \<le> nat M \<longrightarrow> \<not> RuneStart (t ! k)"
      "ValidString (take j t)" "ValidString (drop j t)" by blast
    have "\<forall>k. int j < k \<and> k \<le> M \<longrightarrow> \<not> RuneStart (t ! nat k)"
    proof (intro allI impI)
      fix k :: int assume "int j < k \<and> k \<le> M"
      then have "j < nat k \<and> nat k \<le> nat M" by auto
      with j(5) show "\<not> RuneStart (t ! nat k)" by blast
    qed
    with scanBack_found[of "int j" M t "M - 4"] j M lt
    have "scanBack t (M - 4) M = Returned (int j)" by auto
    moreover have "1 \<le> int j" "int j \<le> M" using j M by auto
    ultimately show "\<exists>j. scanBack t (M - 4) M = Returned j \<and> 1 \<le> j \<and> j \<le> M \<and>
                (ValidString (drop (nat j) t) \<and> charsWithin M (drop (nat j) t)) \<and> ValidString (take (nat j) t)"
      using j inv by (intro exI[of _ "int j"]) (simp add: charsWithin_drop)
  qed (use v cw in simp_all)
  then show ?thesis by simp
qed

text \<open>The loop on the two bytes of \<open>U+00E9\<close> with the limit 1 does not return.\<close>

lemma splitLoop_stuck: "splitLoop [CHR 0xC3, CHR 0xA9] 1 cs = None"
proof -
  have sb: "scanBack [CHR 0xC3, CHR 0xA9] (1 - 4) 1 = Returned 0"
    by code_simp
  have key: "\<not> (s0 = [CHR 0xC3, CHR 0xA9] \<and> M0 = 1)"
    if run: "splitLoop s0 M0 c0 = Some y0" for s0 M0 c0 y0
  proof (rule splitLoop.raw_induct[where P = "\<lambda>s M c y. \<not> (s = [CHR 0xC3, CHR 0xA9] \<and> M = 1)", OF _ run])
    fix f :: "string \<Rightarrow> int \<Rightarrow> string list \<Rightarrow> string list outcome option" and s M c y
    assume IH: "\<And>s M c y. f s M c = Some y \<Longrightarrow> \<not> (s = [CHR 0xC3, CHR 0xA9] \<and> M = 1)"
      and body: "(if M < int (length s)
         then case scanBack s (M - 4) M of Panic \<Rightarrow> Some Panic
              | Returned i \<Rightarrow> if i < 0 then Some Panic
                  else f (drop (nat i) s) M (c @ [take (nat i) s])
         else Some (Returned (if s \<noteq> [] then c @ [s] else c))) = Some y"
    show "\<not> (s = [CHR 0xC3, CHR 0xA9] \<and> M = 1)"
    proof
      assume a: "s = [CHR 0xC3, CHR 0xA9] \<and> M = 1"
      with body sb have "f [CHR 0xC3, CHR 0xA9] 1 (c @ [[]]) = Some y" by simp
      from IH[OF this] show False by simp
    qed
  qed
  show ?thesis
  proof (cases "splitLoop [CHR 0xC3, CHR 0xA9] 1 cs")
    case (Some y)
    from key[OF this] show ?thesis by simp
  qed simp
qed

text \<open>
  The limit that \<open>PrivMsg\<close> passes can be 1: the line length is whatever the
  server announced, and the nickname, the user name, the host and the target are subtracted
  from it.
\<close>

lemma PrivMsg_diverges:
  assumes "linelen s = 17 + int (length (nick s)) + int (length (user s)) +
      (if host s = [] then 15 else int (length (host s))) + int (length tgt)"
  shows "PrivMsg env tgt [CHR 0xC3, CHR 0xA9] s = None"
  using assms by (simp add: PrivMsg_def splitChunks_def splitLoop_stuck)

text \<open>
  With a line length of 16 the limit is negative and an empty content is sent as one empty
  chunk; with the least line length that ISUPPORT can set the subtraction wraps around to
  a large positive limit, and an empty content is not sent at all.
\<close>

lemma PrivMsg_short_line:
  assumes "linelen s = 16" and "\<not> closed s"
    and "nick s = ''Me''" and "user s = ''me''" and "host s = []"
  shows "PrivMsg env ''#chan'' [] s =
     Some (Returned (s\<lparr>out := out s @ [NewMessage ''PRIVMSG'' [''#chan'', []]],
        typingStamps := (typingStamps s)(Casemap env s ''#chan'' := None)\<rparr>))"
  using assms by (simp add: PrivMsg_def splitChunks_def send_def)

lemma PrivMsg_wraps:
  assumes "linelen s = - (2 ^ 63)" and "\<not> closed s"
    and "nick s = ''Me''" and "user s = ''me''" and "host s = []"
  shows "PrivMsg env ''#chan'' [] s =
     Some (Returned (s\<lparr>typingStamps := (typingStamps s)(Casemap env s ''#chan'' := None)\<rparr>))"
  using assms by (simp add: PrivMsg_def splitChunks_def splitLoop.simps)

lemma sendChunks_out:
  "\<not> closed s \<Longrightarrow> \<exists>s'. sendChunks tgt chunks s = Returned s' \<and>
     s' = s\<lparr>out := out s @ map (\<lambda>chunk. NewMessage ''PRIVMSG'' [tgt, chunk]) chunks\<rparr>"
proof (induction chunks arbitrary: s)
  case Nil
  then show ?case by simp
next
  case (Cons c cs)
  let ?s1 = "s\<lparr>out := out s @ [NewMessage ''PRIVMSG'' [tgt, c]]\<rparr>"
  from Cons.prems have "\<not> closed ?s1" by simp
  from Cons.IH[OF this] Cons.prems show ?case by (simp add: send_def)
qed

text \<open>
  Without valid UTF-8 the limit 4 is not enough: after four continuation bytes the scan
  goes below index 0 and the slice panics.
\<close>

lemma splitChunks_invalid_panics:
  "splitChunks [CHR 0x80, CHR 0x80, CHR 0x80, CHR 0x80, CHR 0x80] 4 = Some Panic"
  by code_simp


text \<open>
  Claim C4, as amended. For every positive byte limit \<open>M\<close> and every valid UTF-8 string
  none of whose characters is encoded in more than \<open>M\<close> bytes (so for every valid
  UTF-8 string when \<open>M\<close> is at least 4), and for every string at all when \<open>M\<close> is at
  least 6, \<open>splitChunks\<close> returns; every chunk is non-empty and at most \<open>M\<close> bytes
  long; the chunks concatenated give the string; and when the string is valid UTF-8 every
  chunk is valid UTF-8 by itself, so that no chunk boundary falls inside a multi-byte character.
\<close>

theorem splitChunks_amended:
  assumes "6 \<le> M \<or> (ValidString s \<and> (4 \<le> M \<or> (0 < M \<and> charsWithin M s)))"
  shows "\<exists>chunks. splitChunks s M = Some (Returned chunks) \<and> concat chunks = s \<and>
           list_all (\<lambda>c. c \<noteq> [] \<and> int (length c) \<le> M) chunks \<and>
           (ValidString s \<longrightarrow> list_all ValidString chunks)"
proof (cases "ValidString s")
  case True
  with assms have M: "0 < M" and cw: "charsWithin M s" by (auto intro: charsWithin_4)
  from splitLoop_valid[OF M True cw] obtain cs where
    "splitLoop s M [] = Some (Returned cs)" "concat cs = s"
    "list_all (\<lambda>c. c \<noteq> [] \<and> int (length c) \<le> M \<and> ValidString c) cs" by blast
  with M show ?thesis
    by (intro exI[of _ cs]) (auto simp: splitChunks_def list_all_iff)
next
  case False
  with assms have "6 \<le> M" by auto
  from splitLoop_any[OF this, of s] obtain cs where
    "splitLoop s M [] = Some (Returned cs)" "concat cs = s"
    "list_all (\<lambda>c. c \<noteq> [] \<and> int (length c) \<le> M \<and> True) cs" by blast
  with \<open>6 \<le> M\<close> False show ?thesis
    by (intro exI[of _ cs]) (auto simp: splitChunks_def list_all_iff)
qed

text \<open>An instance with a two-byte character, at the limit 2.\<close>

theorem splitChunks_amended_witness:
  "ValidString [CHR ''a'', CHR 0xC3, CHR 0xA9, CHR ''b'', CHR ''c''] \<and>
   charsWithin 2 [CHR ''a'', CHR 0xC3, CHR 0xA9, CHR ''b'', CHR ''c''] \<and>
   (\<exists>chunks. splitChunks [CHR ''a'', CHR 0xC3, CHR 0xA9, CHR ''b'', CHR ''c''] 2 = Some (Returned chunks) \<and>
      concat chunks = [CHR ''a'', CHR 0xC3, CHR 0xA9, CHR ''b'', CHR ''c''] \<and>
      list_all (\<lambda>c. c \<noteq> [] \<and> int (length c) \<le> 2) chunks \<and> list_all ValidString chunks)"
proof -
  have v: "ValidString [CHR ''a'', CHR 0xC3, CHR 0xA9, CHR ''b'', CHR ''c'']"
    by (simp add: ValidString_def acceptRanges_def byteval_def)
  have c: "charsWithin 2 [CHR ''a'', CHR 0xC3, CHR 0xA9, CHR ''b'', CHR ''c'']"
    by (simp add: charsWithin_def acceptRanges_def byteval_def)
  from splitChunks_amended[of 2 "[CHR ''a'', CHR 0xC3, CHR 0xA9, CHR ''b'', CHR ''c'']"] v c
  show ?thesis by simp
qed

text \<open>
  Claim C4 as stated fails for small positive limits: with the two-byte character
  \<open>U+00E9\<close> (bytes C3 A9) and the limit 1, the scan stops at index 0, an empty chunk is
  appended, the string is left as it was, and the loop never ends.
\<close>

theorem splitChunks_small_limit_diverges:
  "splitChunks [CHR 0xC3, CHR 0xA9] 1 = None"
  by (simp add: splitChunks_def splitLoop_stuck)


end
